(* ===== verification/Prelude.thy ===== *)
theory Prelude
  imports Main "HOL-Library.Word" "HOL-Library.Sublist" "HOL-Library.Char_ord"
    "HOL-Library.List_Lexorder" "HOL-Library.Multiset"
begin

text \<open>
  Shared vocabulary of the development: results of fallible Go code, the parts of the Go
  standard library that the program uses on strings and numbers (packages \<open>strings\<close>,
  \<open>strconv\<close> and \<open>fmt\<close>), and the generic lemmas the component theories share.

  A Go string is a sequence of bytes and is a \<^typ>\<open>string\<close> here, one \<^typ>\<open>char\<close> per
  byte.  The case conversions and the white space tests of package \<open>strings\<close> are modelled on
  ASCII: bytes from 128 on are ordinary characters that no case conversion changes.  Go's
  \<open>int\<close> is 64 bits wide; every \<open>int\<close> of the program that is compared with bounds or
  printed is an \<^typ>\<open>int\<close>, and \<open>strconv.Atoi\<close> refuses what does not fit 64 bits.

  Strings are ordered bytewise, as Go orders them: the instance for lists comes from
  \<open>List_Lexorder\<close>, the one for characters from \<open>Char_ord\<close>.
\<close>

named_theorems go_str
named_theorems go_path

section \<open>Results\<close>

text \<open>A Go function that returns \<open>(T, error)\<close> returns \<open>Inl\<close> of the error or \<open>Inr\<close> of the value.\<close>

type_synonym ('e, 'a) result = "'e + 'a"

abbreviation Err :: "'e \<Rightarrow> ('e, 'a) result" where
  "Err \<equiv> Inl"

abbreviation Ok :: "'a \<Rightarrow> ('e, 'a) result" where
  "Ok \<equiv> Inr"

fun mapM :: "('a \<Rightarrow> ('e, 'b) result) \<Rightarrow> 'a list \<Rightarrow> ('e, 'b list) result" where
  "mapM f [] = Ok []"
| "mapM f (x # xs) =
     (case f x of Err e \<Rightarrow> Err e
      | Ok y \<Rightarrow> (case mapM f xs of Err e \<Rightarrow> Err e | Ok ys \<Rightarrow> Ok (y # ys)))"

fun foldM :: "('a \<Rightarrow> 's \<Rightarrow> ('e, 's) result) \<Rightarrow> 'a list \<Rightarrow> 's \<Rightarrow> ('e, 's) result" where
  "foldM f [] s = Ok s"
| "foldM f (x # xs) s = (case f x s of Err e \<Rightarrow> Err e | Ok s' \<Rightarrow> foldM f xs s')"

text \<open>The next statement of a function that threads a state and returns on the first error.\<close>

definition and_then ::
  "'s \<times> ('e, 'a) result \<Rightarrow> ('s \<Rightarrow> 'a \<Rightarrow> 's \<times> ('e, 'b) result) \<Rightarrow> 's \<times> ('e, 'b) result" where
  "and_then m k = (case m of (s, Err e) \<Rightarrow> (s, Err e) | (s, Ok a) \<Rightarrow> k s a)"

definition map_err :: "('e \<Rightarrow> 'f) \<Rightarrow> ('e, 'a) result \<Rightarrow> ('f, 'a) result" where
  "map_err f r = (case r of Err e \<Rightarrow> Err (f e) | Ok a \<Rightarrow> Ok a)"

section \<open>Package strings\<close>

definition is_space :: "char \<Rightarrow> bool" where
  "is_space c \<longleftrightarrow> (of_char c :: nat) \<in> {9, 10, 11, 12, 13, 32}"

definition TrimSpace :: "string \<Rightarrow> string" where
  "TrimSpace s = rev (dropWhile is_space (rev (dropWhile is_space s)))"

definition lower_char :: "char \<Rightarrow> char" where
  "lower_char c =
     (if 65 \<le> (of_char c :: nat) \<and> (of_char c :: nat) \<le> 90 then char_of ((of_char c :: nat) + 32) else c)"

definition upper_char :: "char \<Rightarrow> char" where
  "upper_char c =
     (if 97 \<le> (of_char c :: nat) \<and> (of_char c :: nat) \<le> 122 then char_of ((of_char c :: nat) - 32) else c)"

definition ToLower :: "string \<Rightarrow> string" where
  "ToLower s = map lower_char s"

definition ToUpper :: "string \<Rightarrow> string" where
  "ToUpper s = map upper_char s"

definition EqualFold :: "string \<Rightarrow> string \<Rightarrow> bool" where
  "EqualFold a b \<longleftrightarrow> ToLower a = ToLower b"

definition HasPrefix :: "string \<Rightarrow> string \<Rightarrow> bool" where
  "HasPrefix s p \<longleftrightarrow> take (length p) s = p"

definition HasSuffix :: "string \<Rightarrow> string \<Rightarrow> bool" where
  "HasSuffix s p \<longleftrightarrow> length p \<le> length s \<and> drop (length s - length p) s = p"

definition TrimPrefix :: "string \<Rightarrow> string \<Rightarrow> string" where
  "TrimPrefix s p = (if HasPrefix s p then drop (length p) s else s)"

definition TrimSuffix :: "string \<Rightarrow> string \<Rightarrow> string" where
  "TrimSuffix s p = (if HasSuffix s p then take (length s - length p) s else s)"

text \<open>\<open>strings.Trim\<close> with a cutset of one character.\<close>

definition TrimChar :: "string \<Rightarrow> char \<Rightarrow> string" where
  "TrimChar s c = rev (dropWhile (\<lambda>x. x = c) (rev (dropWhile (\<lambda>x. x = c) s)))"

fun Contains :: "string \<Rightarrow> string \<Rightarrow> bool" where
  "Contains [] p = (p = [])"
| "Contains (c # s) p = (HasPrefix (c # s) p \<or> Contains s p)"

fun split_by :: "(char \<Rightarrow> bool) \<Rightarrow> string \<Rightarrow> string list" where
  "split_by p [] = [[]]"
| "split_by p (c # cs) =
     (if p c then [] # split_by p cs
      else case split_by p cs of [] \<Rightarrow> [[c]] | w # ws \<Rightarrow> (c # w) # ws)"

declare split_by.simps(2) [simp del]

text \<open>\<open>strings.Split\<close> with a separator of one character, and \<open>strings.SplitN (s, sep, 2)\<close>.\<close>

definition Split :: "string \<Rightarrow> char \<Rightarrow> string list" where
  "Split s d = split_by (\<lambda>c. c = d) s"

definition SplitN2 :: "string \<Rightarrow> char \<Rightarrow> string list" where
  "SplitN2 s d =
     (if d \<in> set s
      then [takeWhile (\<lambda>c. c \<noteq> d) s, tl (dropWhile (\<lambda>c. c \<noteq> d) s)]
      else [s])"

definition Fields :: "string \<Rightarrow> string list" where
  "Fields s = filter (\<lambda>w. w \<noteq> []) (split_by is_space s)"

fun Join :: "string list \<Rightarrow> string \<Rightarrow> string" where
  "Join [] sep = []"
| "Join [x] sep = x"
| "Join (x # y # xs) sep = x @ sep @ Join (y # xs) sep"

text \<open>\<open>strings.ReplaceAll\<close> of a one character string.\<close>

definition ReplaceAll :: "string \<Rightarrow> char \<Rightarrow> string \<Rightarrow> string" where
  "ReplaceAll s old new = concat (map (\<lambda>c. if c = old then new else [c]) s)"

section \<open>Packages strconv and fmt\<close>

definition digit_char :: "nat \<Rightarrow> char" where
  "digit_char n = char_of (48 + n)"

definition is_digit :: "char \<Rightarrow> bool" where
  "is_digit c \<longleftrightarrow> 48 \<le> (of_char c :: nat) \<and> (of_char c :: nat) \<le> 57"

definition digit_val :: "char \<Rightarrow> nat" where
  "digit_val c = of_char c - 48"

fun dec :: "nat \<Rightarrow> string" where
  "dec n = (if n < 10 then [digit_char n] else dec (n div 10) @ [digit_char (n mod 10)])"

declare dec.simps [simp del]

definition Itoa :: "int \<Rightarrow> string" where
  "Itoa i = (if i < 0 then CHR ''-'' # dec (nat (- i)) else dec (nat i))"

definition dec_val :: "string \<Rightarrow> nat" where
  "dec_val s = foldl (\<lambda>v c. 10 * v + digit_val c) 0 s"

definition parse_dec :: "string \<Rightarrow> nat option" where
  "parse_dec s = (if s \<noteq> [] \<and> list_all is_digit s then Some (dec_val s) else None)"

definition int64 :: "int \<Rightarrow> bool" where
  "int64 i \<longleftrightarrow> - (2 ^ 63) \<le> i \<and> i < 2 ^ 63"

text \<open>\<open>strconv.Atoi\<close>: an optional sign, then decimal digits, within the 64-bit range.\<close>

definition Atoi :: "string \<Rightarrow> int option" where
  "Atoi s =
     (let (neg, body) =
        (case s of
           [] \<Rightarrow> (False, [])
         | c # cs \<Rightarrow>
             if c = CHR ''-'' then (True, cs)
             else if c = CHR ''+'' then (False, cs) else (False, s))
      in case parse_dec body of
           None \<Rightarrow> None
         | Some n \<Rightarrow>
             (let v = (if neg then - int n else int n)
              in if int64 v then Some v else None))"

definition hex_char :: "nat \<Rightarrow> char" where
  "hex_char n = (if n < 10 then char_of (48 + n) else char_of (87 + n))"

text \<open>\<open>fmt.Sprintf ("%x", b)\<close> of a byte slice: two lower case digits per byte.\<close>

definition hex_byte :: "8 word \<Rightarrow> string" where
  "hex_byte b = [hex_char (unat b div 16), hex_char (unat b mod 16)]"

definition hex_bytes :: "8 word list \<Rightarrow> string" where
  "hex_bytes bs = concat (map hex_byte bs)"


section \<open>Go maps with string keys\<close>

text \<open>
  A Go \<open>map[string]T\<close> is an association list kept sorted by key, so that two maps with the
  same entries are equal and iterating in sorted key order is the identity.  A nil map and an
  empty map are both \<open>[]\<close>.  Every map of the model is built by \<open>map_put\<close>.
\<close>

type_synonym 'v gomap = "(string \<times> 'v) list"

fun map_put :: "string \<Rightarrow> 'v \<Rightarrow> 'v gomap \<Rightarrow> 'v gomap" where
  "map_put k v [] = [(k, v)]"
| "map_put k v ((k', v') # m) =
     (if k < k' then (k, v) # (k', v') # m
      else if k = k' then (k, v) # m
      else (k', v') # map_put k v m)"

definition map_canon :: "'v gomap \<Rightarrow> bool" where
  "map_canon m \<longleftrightarrow> sorted_wrt (<) (map fst m)"

definition map_puts :: "(string \<times> 'v) list \<Rightarrow> 'v gomap \<Rightarrow> 'v gomap" where
  "map_puts kvs m = fold (\<lambda>(k, v). map_put k v) kvs m"

section \<open>Lemmas on results\<close>

lemma foldM_append:
  "foldM f (xs @ ys) s = (case foldM f xs s of Err e \<Rightarrow> Err e | Ok s' \<Rightarrow> foldM f ys s')"
  by (induction xs arbitrary: s) (auto split: sum.splits)

lemma foldM_invariant:
  assumes "foldM f xs s = Ok s'" and "P s"
    and "\<And>x s s'. x \<in> set xs \<Longrightarrow> P s \<Longrightarrow> f x s = Ok s' \<Longrightarrow> P s'"
  shows "P s'"
  using assms
proof (induction xs arbitrary: s)
  case (Cons x xs)
  then obtain t where t: "f x s = Ok t" "foldM f xs t = Ok s'" by (auto split: sum.splits)
  moreover have "P t" using Cons.prems t by auto
  ultimately show ?case using Cons.IH Cons.prems by (meson list.set_intros(2))
qed simp

lemma and_then_simps [simp]:
  "and_then (s, Ok a) k = k s a"
  "and_then (s, Err e) k = (s, Err e)"
  by (simp_all add: and_then_def)

lemma and_then_cases:
  assumes "and_then m k = (s', r)"
  obtains (stop) e where "m = (s', Err e)" "r = Err e"
  | (go) s a where "m = (s, Ok a)" "k s a = (s', r)"
  using assms by (auto simp: and_then_def split: prod.splits sum.splits)

lemma map_err_simps [simp]: "map_err f (Ok a) = Ok a" "map_err f (Err e) = Err (f e)"
  by (simp_all add: map_err_def)

lemma map_err_Ok [simp]: "map_err f r = Ok a \<longleftrightarrow> r = Ok a" "Ok a = map_err f r \<longleftrightarrow> r = Ok a"
  by (auto simp: map_err_def split: sum.splits)

section \<open>Lemmas on strings\<close>

lemma HasPrefix_iff [simp]: "HasPrefix s p \<longleftrightarrow> prefix p s"
  unfolding HasPrefix_def by (metis append_eq_conv_conj prefix_def take_is_prefix)

lemma HasSuffix_iff [simp]: "HasSuffix s p \<longleftrightarrow> suffix p s"
  unfolding HasSuffix_def by (metis suffix_drop suffix_length_le suffix_take append_eq_conv_conj diff_diff_cancel length_take min.absorb2 diff_le_self append_take_drop_id same_append_eq)

lemma TrimSuffix_append [simp]: "TrimSuffix (a @ p) p = a"
  by (simp add: TrimSuffix_def suffix_def)

lemma TrimPrefix_append [simp]: "TrimPrefix (p @ a) p = a"
  by (simp add: TrimPrefix_def)

lemma Contains_char [simp]: "Contains s [c] \<longleftrightarrow> c \<in> set s"
  by (induction s) (auto simp: prefix_def)

lemma Contains_iff: "Contains s p \<longleftrightarrow> sublist p s"
  by (induction s) (auto simp: sublist_Cons_right)

lemma TrimSpace_Nil [simp]: "TrimSpace [] = []"
  by (simp add: TrimSpace_def)

lemma TrimSpace_eq_Nil_iff: "TrimSpace s = [] \<longleftrightarrow> (\<forall>c \<in> set s. is_space c)"
proof -
  have "(\<forall>c \<in> set (dropWhile is_space s). is_space c) \<longleftrightarrow> (\<forall>c \<in> set s. is_space c)"
    by (induction s) auto
  then show ?thesis by (simp add: TrimSpace_def)
qed

lemma TrimSpace_cong_ends:
  assumes "s \<noteq> []" "\<not> is_space (hd s)" "\<not> is_space (last s)"
  shows "TrimSpace s = s"
proof -
  have "dropWhile is_space s = s" using assms by (cases s) auto
  moreover have "dropWhile is_space (rev s) = rev s"
    using assms by (cases "rev s") (auto simp: hd_rev [symmetric])
  ultimately show ?thesis by (simp add: TrimSpace_def)
qed

lemma TrimSpace_no_space: "\<forall>c \<in> set s. \<not> is_space c \<Longrightarrow> TrimSpace s = s"
  by (cases "s = []") (auto intro: TrimSpace_cong_ends)

lemma dropWhile_idem' [simp]: "dropWhile P (dropWhile P xs) = dropWhile P xs"
  by (induction xs) auto

lemma TrimSpace_ends:
  assumes "TrimSpace s \<noteq> []"
  shows "\<not> is_space (hd (TrimSpace s))" and "\<not> is_space (last (TrimSpace s))"
proof -
  let ?d = "dropWhile is_space s"
  have ne: "dropWhile is_space (rev ?d) \<noteq> []" using assms unfolding TrimSpace_def by force
  then show "\<not> is_space (last (TrimSpace s))"
    unfolding TrimSpace_def by (simp add: last_rev hd_dropWhile)
  have "?d \<noteq> []" using ne by force
  then have d: "\<not> is_space (hd ?d)" by (rule hd_dropWhile)
  obtain zs where "?d = TrimSpace s @ zs"
    unfolding TrimSpace_def
    by (metis rev_append rev_rev_ident takeWhile_dropWhile_id)
  with assms d show "\<not> is_space (hd (TrimSpace s))" by (metis hd_append2)
qed

lemma TrimSpace_idem [simp]: "TrimSpace (TrimSpace s) = TrimSpace s"
  by (cases "TrimSpace s = []") (auto intro: TrimSpace_cong_ends dest: TrimSpace_ends)

lemma set_TrimSpace: "set (TrimSpace s) \<subseteq> set s"
  unfolding TrimSpace_def by (auto dest!: set_dropWhileD)

lemma lower_char_idem [simp]: "lower_char (lower_char c) = lower_char c"
  by (auto simp: lower_char_def)

lemma is_space_lower [simp]: "is_space (lower_char c) = is_space c"
proof (cases "65 \<le> (of_char c :: nat) \<and> (of_char c :: nat) \<le> 90")
  case True
  then have l: "(of_char (lower_char c) :: nat) = of_char c + 32"
    by (simp add: lower_char_def)
  with True show ?thesis unfolding is_space_def l by auto
next
  case False
  then have "lower_char c = c" unfolding lower_char_def by (rule if_not_P)
  then show ?thesis by simp
qed

lemma ToLower_Nil [simp]: "ToLower [] = []" "ToLower s = [] \<longleftrightarrow> s = []"
  by (simp_all add: ToLower_def)

lemma ToLower_append [simp]: "ToLower (a @ b) = ToLower a @ ToLower b"
  by (simp add: ToLower_def)

lemma ToLower_idem [simp]: "ToLower (ToLower s) = ToLower s"
  by (simp add: ToLower_def)

lemma TrimSpace_ToLower: "TrimSpace (ToLower s) = ToLower (TrimSpace s)"
proof -
  have "dropWhile is_space (map lower_char xs) = map lower_char (dropWhile is_space xs)" for xs
    by (induction xs) auto
  then show ?thesis by (simp add: TrimSpace_def ToLower_def rev_map)
qed

lemma split_by_ne [simp]: "split_by p s \<noteq> []"
  by (cases s) (auto simp: split_by.simps split: list.splits)

lemma split_by_Cons [simp]:
  "split_by p (c # cs) =
     (if p c then [] # split_by p cs else (c # hd (split_by p cs)) # tl (split_by p cs))"
  by (auto simp: split_by.simps split: list.splits)

lemma Join_Cons_ne: "ws \<noteq> [] \<Longrightarrow> Join (w # ws) sep = w @ sep @ Join ws sep"
  by (cases ws) auto

lemma Join_Split [simp]: "Join (Split s d) [d] = s"
proof (induction s)
  case (Cons c s)
  obtain w ws where w: "split_by (\<lambda>c. c = d) s = w # ws"
    by (meson neq_Nil_conv split_by_ne)
  from Cons w show ?case by (cases ws) (auto simp: Split_def)
qed (simp add: Split_def)

lemma split_by_all: "list_all (\<lambda>w. \<forall>c \<in> set w. \<not> p c \<and> c \<in> set s) (split_by p s)"
proof (induction s)
  case (Cons c s)
  obtain v vs where v: "split_by p s = v # vs" by (meson neq_Nil_conv split_by_ne)
  from Cons show ?case by (simp add: v list_all_iff)
qed simp

lemma split_by_no_sep: "w \<in> set (split_by p s) \<Longrightarrow> c \<in> set w \<Longrightarrow> \<not> p c"
  using split_by_all [of p s] by (simp add: list_all_iff)

lemma set_split_by: "w \<in> set (split_by p s) \<Longrightarrow> set w \<subseteq> set s"
  using split_by_all [of p s] by (auto simp: list_all_iff)

lemma split_by_plain: "\<forall>c \<in> set s. \<not> p c \<Longrightarrow> split_by p s = [s]"
  by (induction s) auto

lemma split_by_append_sep:
  "\<forall>c \<in> set w. \<not> p c \<Longrightarrow> p d \<Longrightarrow> split_by p (w @ d # s) = w # split_by p s"
  by (induction w) auto

lemma Split_Join:
  "ws \<noteq> [] \<Longrightarrow> \<forall>w \<in> set ws. d \<notin> set w \<Longrightarrow> Split (Join ws [d]) d = ws"
proof (induction ws)
  case (Cons w ws)
  then have w: "\<forall>c \<in> set w. \<not> c = d" by auto
  from Cons w show ?case
    by (cases "ws = []")
      (simp_all add: Split_def Join_Cons_ne split_by_plain split_by_append_sep)
qed simp

lemma ReplaceAll_absent: "old \<notin> set s \<Longrightarrow> ReplaceAll s old new = s"
  by (induction s) (auto simp: ReplaceAll_def)

section \<open>Lemmas on numbers\<close>

lemma digit_val_char [simp]: "n < 10 \<Longrightarrow> digit_val (digit_char n) = n"
  by (simp add: digit_val_def digit_char_def)

lemma is_digit_char [simp]: "n < 10 \<Longrightarrow> is_digit (digit_char n)"
  by (simp add: is_digit_def digit_char_def)

lemma dec_ne [simp]: "dec n \<noteq> []"
  by (subst dec.simps) simp

lemma dec_digits: "list_all is_digit (dec n)"
proof (induction n rule: dec.induct)
  case (1 n)
  then show ?case by (subst dec.simps) auto
qed

lemma dec_val_dec [simp]: "dec_val (dec n) = n"
proof (induction n rule: dec.induct)
  case (1 n)
  then show ?case by (subst dec.simps) (auto simp: dec_val_def)
qed

lemma parse_dec_dec [simp]: "parse_dec (dec n) = Some n"
  by (simp add: parse_dec_def dec_digits)

lemma dec_inject [simp]: "dec m = dec n \<longleftrightarrow> m = n"
  by (metis dec_val_dec)

lemma dec_char_digit: "c \<in> set (dec n) \<Longrightarrow> is_digit c"
  using dec_digits by (auto simp: list_all_iff)

lemma is_digit_not_space: "is_digit c \<Longrightarrow> \<not> is_space c"
  by (auto simp: is_digit_def is_space_def)

lemma dec_leading: "hd (dec n) = CHR ''0'' \<Longrightarrow> n = 0"
proof (induction n rule: dec.induct)
  case (1 n)
  show ?case
  proof (cases "n < 10")
    case True
    with "1.prems" have "digit_char n = CHR ''0''" by (simp add: dec.simps [of n])
    then have "digit_val (digit_char n) = 0" by (simp add: digit_val_def)
    with True show ?thesis by simp
  next
    case False
    with "1.prems" have "hd (dec (n div 10)) = CHR ''0''" by (simp add: dec.simps [of n])
    with 1 False show ?thesis by simp
  qed
qed

lemma Atoi_Itoa:
  assumes "int64 i"
  shows "Atoi (Itoa i) = Some i"
proof (cases "i < 0")
  case True
  with assms show ?thesis by (simp add: Atoi_def Itoa_def)
next
  case False
  obtain c cs where c: "dec (nat i) = c # cs" by (meson dec_ne neq_Nil_conv)
  then have d: "is_digit c" using dec_char_digit [of c "nat i"] by simp
  then have "c \<noteq> CHR ''-''" "c \<noteq> CHR ''+''" by (auto simp: is_digit_def)
  moreover have "parse_dec (c # cs) = Some (nat i)" using parse_dec_dec [of "nat i"] c by simp
  ultimately show ?thesis using assms False c by (simp add: Atoi_def Itoa_def)
qed

lemma length_hex_byte [simp]: "length (hex_byte b) = 2"
  by (simp add: hex_byte_def)

lemma length_hex_bytes [simp]: "length (hex_bytes bs) = 2 * length bs"
  by (induction bs) (auto simp: hex_bytes_def)

section \<open>Lemmas on maps\<close>

lemma map_of_map_put [simp]: "map_of (map_put k v m) = (map_of m)(k \<mapsto> v)"
  by (induction k v m rule: map_put.induct) auto

lemma set_fst_map_put: "set (map fst (map_put k v m)) = insert k (set (map fst m))"
  by (induction k v m rule: map_put.induct) auto

lemma map_canon_Nil [simp]: "map_canon []"
  by (simp add: map_canon_def)

lemma map_canon_map_put [simp]: "map_canon m \<Longrightarrow> map_canon (map_put k v m)"
proof (induction k v m rule: map_put.induct)
  case (2 k v k' v' m)
  then show ?case using set_fst_map_put [of k v m]
    by (auto simp: map_canon_def)
qed (simp add: map_canon_def)

lemma map_canon_ConsD:
  "map_canon ((k, v) # m) \<Longrightarrow> map_canon m \<and> (\<forall>k' \<in> set (map fst m). k < k')"
  by (simp add: map_canon_def)

lemma map_puts_Nil [simp]: "map_puts [] m = m"
  by (simp add: map_puts_def)

lemma map_puts_Cons [simp]: "map_puts ((k, v) # kvs) m = map_puts kvs (map_put k v m)"
  by (simp add: map_puts_def)

lemma map_canon_map_puts [simp]: "map_canon m \<Longrightarrow> map_canon (map_puts kvs m)"
  by (induction kvs arbitrary: m) auto

lemma map_of_map_puts: "map_of (map_puts kvs m) = map_of m ++ map_of (rev kvs)"
  by (induction kvs arbitrary: m) (auto simp: map_add_def fun_eq_iff split: option.splits)

lemma map_canon_distinct: "map_canon m \<Longrightarrow> distinct (map fst m)"
  unfolding map_canon_def by (induction m) (auto simp: image_iff)

lemma map_canon_sort: "map_canon m \<Longrightarrow> sort (map fst m) = map fst m"
  unfolding map_canon_def
  by (rule sort_key_id_if_sorted) (simp add: strict_sorted_imp_sorted)

lemma map_put_snoc: "\<forall>k' \<in> set (map fst m). k' < k \<Longrightarrow> map_put k v m = m @ [(k, v)]"
  by (induction k v m rule: map_put.induct) auto

lemma map_puts_canon_append:
  "map_canon (m @ kvs) \<Longrightarrow> map_puts kvs m = m @ kvs"
proof (induction kvs arbitrary: m)
  case (Cons kv kvs)
  obtain k v where kv: "kv = (k, v)" by force
  have "\<forall>k' \<in> set (map fst m). k' < k"
    using Cons.prems unfolding kv map_canon_def by (auto simp: sorted_wrt_append)
  then show ?case using Cons.IH [of "m @ [kv]"] Cons.prems
    by (simp add: kv map_put_snoc del: map_put.simps)
qed simp

lemma map_puts_canon [simp]: "map_canon m \<Longrightarrow> map_puts m [] = m"
  using map_puts_canon_append [of "[]" m] by simp

section \<open>Lemmas on words\<close>

text \<open>The step of a loop \<open>for i < n; i++\<close> over an unsigned word: no wrap-around, and the distance shrinks.\<close>

lemma unat_bound: "unat (w :: 'a::len word) < 2 ^ LENGTH('a)"
  by (rule unsigned_less)

lemma unat_inc:
  assumes "(i :: 'a::len word) < n"
  shows "unat (i + 1) = Suc (unat i)"
proof -
  have "unat i < unat n" using assms by (simp add: word_less_nat_alt)
  then have "Suc (unat i) < 2 ^ LENGTH('a)" using unat_bound [of n] by (rule less_trans_Suc)
  then show ?thesis by (simp add: unat_word_ariths(1) mod_less)
qed

lemma word_loop_step: "(i :: 'a::len word) < n \<Longrightarrow> unat n - unat (i + 1) < unat n - unat i"
  by (simp add: unat_inc word_less_nat_alt)

lemma unat_of_nat_lt: "n < 2 ^ LENGTH('a) \<Longrightarrow> unat (of_nat n :: 'a::len word) = n"
  by (simp add: unsigned_of_nat take_bit_nat_eq_self)

section \<open>Sorting by a comparison\<close>

text \<open>\<open>sort.SliceStable\<close>, as an insertion sort: an element goes before the elements that are not less than it.\<close>

fun insert_by :: "('a \<Rightarrow> 'a \<Rightarrow> bool) \<Rightarrow> 'a \<Rightarrow> 'a list \<Rightarrow> 'a list" where
  "insert_by lt x [] = [x]"
| "insert_by lt x (y # ys) = (if lt y x then y # insert_by lt x ys else x # y # ys)"

definition SliceStable :: "('a \<Rightarrow> 'a \<Rightarrow> bool) \<Rightarrow> 'a list \<Rightarrow> 'a list" where
  "SliceStable lt xs = foldr (insert_by lt) xs []"

lemma insert_by_key: "insert_by (\<lambda>a b. f a < f b) x ys = insort_key f x ys"
  by (induction ys) auto

lemma SliceStable_key: "SliceStable (\<lambda>a b. f a < f b) xs = sort_key f xs"
  by (simp add: SliceStable_def sort_key_def insert_by_key [abs_def])

end
