(* ===== verification/Go_Netip.thy ===== *)
theory Go_Netip
  imports Prelude
begin

unbundle bit_operations_syntax

text \<open>
  The part of Go's package \<open>net/netip\<close> that the allocator and the boot argument renderer use:
  IPv4 addresses as 32-bit words, their dotted decimal text, the parsers of addresses and
  prefixes, masking and containment.  An IPv6 address is accepted or refused exactly as
  \<open>netip.ParseAddr\<close> does, but its value is not kept: the program rejects every address
  that is not IPv4.
\<close>

section \<open>Addresses\<close>

type_synonym u32 = "32 word"
type_synonym octets = "8 word \<times> 8 word \<times> 8 word \<times> 8 word"

datatype netip_addr = Addr4 u32 | Addr6 (zoned: bool)

definition Is4 :: "netip_addr \<Rightarrow> bool" where
  "Is4 a = (case a of Addr4 _ \<Rightarrow> True | Addr6 _ \<Rightarrow> False)"

definition As4 :: "u32 \<Rightarrow> octets" where
  "As4 w = (ucast (drop_bit 24 w), ucast (drop_bit 16 w), ucast (drop_bit 8 w), ucast w)"

fun AddrFrom4 :: "octets \<Rightarrow> u32" where
  "AddrFrom4 (a, b, c, d) =
     push_bit 24 (ucast a) OR push_bit 16 (ucast b) OR push_bit 8 (ucast c) OR ucast d"

fun octets_String :: "octets \<Rightarrow> string" where
  "octets_String (a, b, c, d) =
     dec (unat a) @ ''.'' @ dec (unat b) @ ''.'' @ dec (unat c) @ ''.'' @ dec (unat d)"

definition addr_String :: "u32 \<Rightarrow> string" where
  "addr_String w = octets_String (As4 w)"

section \<open>Parsing\<close>

text \<open>A decimal octet: digits only, no leading zero, at most 255.\<close>

definition parse_octet :: "string \<Rightarrow> (8 word) option" where
  "parse_octet s =
     (case parse_dec s of
        None \<Rightarrow> None
      | Some n \<Rightarrow>
          if (length s > 1 \<and> hd s = CHR ''0'') \<or> n > 255 then None else Some (of_nat n))"

definition parseIPv4 :: "string \<Rightarrow> u32 option" where
  "parseIPv4 s =
     (case map parse_octet (Split s CHR ''.'') of
        [Some a, Some b, Some c, Some d] \<Rightarrow> Some (AddrFrom4 (a, b, c, d))
      | _ \<Rightarrow> None)"

definition is_hex :: "char \<Rightarrow> bool" where
  "is_hex c \<longleftrightarrow>
     is_digit c \<or> (97 \<le> (of_char c :: nat) \<and> (of_char c :: nat) \<le> 102) \<or>
     (65 \<le> (of_char c :: nat) \<and> (of_char c :: nat) \<le> 70)"

text \<open>
  The loop of \<open>netip.parseIPv6\<close>: \<open>i\<close> counts the bytes filled so far, \<open>e\<close> says whether an
  ellipsis was seen.  Each round consumes at least one character.
\<close>

function ipv6_loop :: "nat \<Rightarrow> bool \<Rightarrow> string \<Rightarrow> bool" where
  "ipv6_loop i e s =
     (if i \<ge> 16 then s = [] \<and> \<not> e
      else
        let off = length (takeWhile is_hex s); r = drop off s in
        if off = 0 \<or> off > 4 then False
        else if r \<noteq> [] \<and> hd r = CHR ''.'' then
          (if (\<not> e \<and> i \<noteq> 12) \<or> i + 4 > 16 \<or> parseIPv4 s = None then False
           else if i + 4 < 16 then e else \<not> e)
        else if r = [] then (if i + 2 < 16 then e else \<not> e)
        else if hd r \<noteq> CHR '':'' \<or> length r = 1 then False
        else if hd (tl r) = CHR '':'' then
          (if e then False
           else if tl (tl r) = [] then i + 2 < 16
           else ipv6_loop (i + 2) True (tl (tl r)))
        else ipv6_loop (i + 2) e (tl r))"
  by pat_completeness auto
termination
  by (relation "measure (\<lambda>(i, e, s). 16 - i)") auto

declare ipv6_loop.simps [simp del]

definition parseIPv6 :: "string \<Rightarrow> netip_addr option" where
  "parseIPv6 s =
     (let body = takeWhile (\<lambda>c. c \<noteq> CHR ''%'') s;
          has_zone = CHR ''%'' \<in> set s;
          zone = tl (dropWhile (\<lambda>c. c \<noteq> CHR ''%'') s)
      in if has_zone \<and> zone = [] then None
         else if HasPrefix body ''::'' then
           (if drop 2 body = [] \<or> ipv6_loop 0 True (drop 2 body) then Some (Addr6 has_zone) else None)
         else if ipv6_loop 0 False body then Some (Addr6 has_zone) else None)"

text \<open>\<open>netip.ParseAddr\<close>: the first of the characters \<open>. : %\<close> decides the family.\<close>

definition ParseAddr :: "string \<Rightarrow> netip_addr option" where
  "ParseAddr s =
     (case filter (\<lambda>c. c \<in> {CHR ''.'', CHR '':'', CHR ''%''}) s of
        [] \<Rightarrow> None
      | c # _ \<Rightarrow>
          if c = CHR ''.'' then map_option Addr4 (parseIPv4 s)
          else if c = CHR '':'' then parseIPv6 s
          else None)"

section \<open>Prefixes\<close>

record netip_prefix =
  pfx_addr :: netip_addr
  pfx_bits :: nat

text \<open>\<open>netip.ParsePrefix\<close> splits at the last slash; the length takes no sign and no leading zero.\<close>

definition ParsePrefix :: "string \<Rightarrow> netip_prefix option" where
  "ParsePrefix s =
     (if CHR ''/'' \<notin> set s then None
      else
        let parts = Split s CHR ''/'';
            bitsStr = last parts;
            addrStr = Join (butlast parts) ''/''
        in case ParseAddr addrStr of
             None \<Rightarrow> None
           | Some ip \<Rightarrow>
               if \<not> Is4 ip \<and> zoned ip then None
               else if length bitsStr > 1 \<and> \<not> (is_digit (hd bitsStr) \<and> hd bitsStr \<noteq> CHR ''0'') then None
               else (case Atoi bitsStr of
                       None \<Rightarrow> None
                     | Some bits \<Rightarrow>
                         if bits < 0 \<or> bits > (if Is4 ip then 32 else 128) then None
                         else Some \<lparr>pfx_addr = ip, pfx_bits = nat bits\<rparr>))"

text \<open>Masking an IPv4 address to its first \<open>bits\<close> bits, and membership in that prefix.\<close>

definition mask4 :: "u32 \<Rightarrow> nat \<Rightarrow> u32" where
  "mask4 w bits = push_bit (32 - bits) (drop_bit (32 - bits) w)"

definition contains4 :: "u32 \<Rightarrow> nat \<Rightarrow> u32 \<Rightarrow> bool" where
  "contains4 net bits w \<longleftrightarrow> drop_bit (32 - bits) (net XOR w) = 0"

section \<open>Lemmas\<close>

lemma AddrFrom4_As4 [simp]: "AddrFrom4 (As4 w) = w"
proof (rule bit_word_eqI)
  fix n
  assume "n < LENGTH(32)"
  then consider "n < 8" | "8 \<le> n" "n < 16" | "16 \<le> n" "n < 24" | "24 \<le> n" "n < 32"
    by fastforce
  then show "bit (AddrFrom4 (As4 w)) n = bit w n"
    by cases (auto simp: As4_def bit_simps)
qed

lemma As4_AddrFrom4 [simp]: "As4 (AddrFrom4 q) = q"
proof (cases q)
  case (fields a b c d)
  show ?thesis unfolding fields
    by (auto simp: As4_def intro!: bit_word_eqI) (auto simp: bit_simps dest: bit_imp_le_length)
qed

lemma parse_octet_dec [simp]: "parse_octet (dec (unat b)) = Some b"
proof -
  have "unat b < 256" using unat_bound [of b] by simp
  moreover have "\<not> (length (dec (unat b)) > 1 \<and> hd (dec (unat b)) = CHR ''0'')"
    using dec_leading [of "unat b"] by (auto simp: dec.simps [of 0])
  ultimately show ?thesis by (auto simp: parse_octet_def)
qed

lemma dec_no_dot: "CHR ''.'' \<notin> set (dec n)"
  using dec_char_digit [of "CHR ''.''" n] by (auto simp: is_digit_def)

lemma Split_octets_String:
  "Split (octets_String (a, b, c, d)) CHR ''.'' =
     [dec (unat a), dec (unat b), dec (unat c), dec (unat d)]"
  using Split_Join [of "[dec (unat a), dec (unat b), dec (unat c), dec (unat d)]" "CHR ''.''"]
  by (simp add: dec_no_dot)

lemma parseIPv4_addr_String [simp]: "parseIPv4 (addr_String w) = Some w"
proof (cases "As4 w")
  case (fields a b c d)
  then have "AddrFrom4 (a, b, c, d) = w" by (metis AddrFrom4_As4)
  with fields show ?thesis
    by (simp add: parseIPv4_def addr_String_def Split_octets_String
        del: AddrFrom4.simps octets_String.simps)
qed

lemma addr_String_inject [simp]: "addr_String v = addr_String w \<longleftrightarrow> v = w"
  by (metis option.inject parseIPv4_addr_String)

lemma addr_String_ne [simp]: "addr_String w \<noteq> []"
  by (cases "As4 w") (simp add: addr_String_def)

lemma filter_family_dec: "filter (\<lambda>c. c = CHR ''.'' \<or> c = CHR '':'' \<or> c = CHR ''%'') (dec n) = []"
proof -
  have "\<not> (c = CHR ''.'' \<or> c = CHR '':'' \<or> c = CHR ''%'')" if "c \<in> set (dec n)" for c
    using dec_char_digit [OF that] by (auto simp: is_digit_def)
  then show ?thesis by (simp add: filter_empty_conv)
qed

lemma ParseAddr_addr_String [simp]: "ParseAddr (addr_String w) = Some (Addr4 w)"
proof (cases "As4 w")
  case (fields a b c d)
  have p: "parseIPv4 (octets_String (As4 w)) = Some w"
    using parseIPv4_addr_String [of w] by (simp only: addr_String_def)
  have "filter (\<lambda>c. c = CHR ''.'' \<or> c = CHR '':'' \<or> c = CHR ''%'') (octets_String (As4 w)) = ''...''"
    by (simp add: fields filter_family_dec)
  then show ?thesis by (simp add: ParseAddr_def addr_String_def p)
qed

lemma addr_String_no_space: "c \<in> set (addr_String w) \<Longrightarrow> \<not> is_space c"
proof (cases "As4 w")
  case (fields a b e d)
  assume "c \<in> set (addr_String w)"
  then have "c = CHR ''.'' \<or> is_digit c"
    unfolding addr_String_def fields by (auto dest: dec_char_digit)
  then show ?thesis by (auto simp: is_digit_def is_space_def)
qed

lemma unat_drop_bit32: "unat (drop_bit k (w :: u32)) = unat w div 2 ^ k"
  using unat_bound [of w]
  unfolding unsigned_drop_bit_eq by (simp add: drop_bit_eq_div take_bit_nat_eq_self)

lemma unat_mask4: "bits \<le> 32 \<Longrightarrow> unat (mask4 w bits) = unat w div 2 ^ (32 - bits) * 2 ^ (32 - bits)"
proof -
  assume "bits \<le> 32"
  have "unat w div 2 ^ (32 - bits) * 2 ^ (32 - bits) \<le> unat w" by simp
  also have "\<dots> < 2 ^ 32" using unat_bound [of w] by simp
  finally show ?thesis
    by (simp only: mask4_def unsigned_push_bit_eq unat_drop_bit32)
      (simp add: push_bit_eq_mult take_bit_nat_eq_self)
qed

lemma mask4_plus_host:
  assumes bits: "bits \<le> 32" and host: "unat host < 2 ^ (32 - bits)"
  shows unat_mask4_plus: "unat (mask4 w bits + host) = unat (mask4 w bits) + unat host"
    and contains4_mask4_plus: "contains4 w bits (mask4 w bits + host)"
proof -
  let ?k = "32 - bits" and ?q = "unat w div 2 ^ (32 - bits)"
  have "unat w < 2 ^ 32" using unat_bound [of w] by simp
  moreover have "(2 :: nat) ^ 32 = 2 ^ bits * 2 ^ ?k"
    using bits by (simp flip: power_add)
  ultimately have "?q < 2 ^ bits" by (simp add: less_mult_imp_div_less)
  then have "Suc ?q * 2 ^ ?k \<le> 2 ^ bits * 2 ^ ?k" by (metis Suc_leI mult_le_mono1)
  with host have lt: "?q * 2 ^ ?k + unat host < 2 ^ 32"
    using \<open>(2 :: nat) ^ 32 = 2 ^ bits * 2 ^ ?k\<close> by simp
  then show u: "unat (mask4 w bits + host) = unat (mask4 w bits) + unat host"
    by (simp add: unat_mask4 [OF bits] unat_plus_simple [THEN iffD1] unat_word_ariths)
  have "unat (drop_bit ?k (mask4 w bits + host)) = ?q"
    using host by (simp only: unat_drop_bit32 u unat_mask4 [OF bits]) simp
  moreover have "unat (drop_bit ?k w) = ?q"
    by (rule unat_drop_bit32)
  ultimately have "drop_bit ?k (mask4 w bits + host) = drop_bit ?k w"
    by (metis word_unat_eq_iff)
  then show "contains4 w bits (mask4 w bits + host)"
    by (simp add: contains4_def)
qed

end
