(* ===== verification/Model.thy ===== *)
theory Model
  imports Prelude
begin

text \<open>
  The data of \<open>src/internal/model/types.go\<close>: one record per struct, fields in source order
  with a prefix per struct.  Time is an \<^typ>\<open>int\<close>, nanoseconds since Go's zero time, so
  \<open>Time.IsZero\<close> is equality with 0.  A nil slice and an empty slice are both \<open>[]\<close>.

  The structs are persisted as JSON.  A document is a value of type \<open>json\<close> (its text is not
  modelled: a file holds either a document or other bytes), encoders follow the struct tags
  (\<open>omitempty\<close> included) and decoders do what \<open>encoding/json\<close> does with a document: members
  are read in order, names match exactly or else up to case, unknown members are skipped and
  \<open>null\<close> leaves a value unchanged.
\<close>

section \<open>Hook events\<close>

definition HookOnCreate :: string where "HookOnCreate = ''onCreate''"
definition HookOnDelete :: string where "HookOnDelete = ''onDelete''"
definition HookOnStart :: string where "HookOnStart = ''onStart''"
definition HookOnStop :: string where "HookOnStop = ''onStop''"

section \<open>JSON documents\<close>

datatype json =
    JNull
  | JBool bool
  | JNum string
  | JStr string
  | JTime int
  | JArr "json list"
  | JObj "(string \<times> json) list"

section \<open>Structs\<close>

record port_binding_request =
  pbr_Guest :: int
  pbr_Host :: int
  pbr_Protocol :: string

record port_binding =
  pb_Guest :: int
  pb_Host :: int
  pb_Protocol :: string

record vm_paths =
  pa_ConfigDir :: string
  pa_VMConfigPath :: string
  pa_MetaPath :: string
  pa_HooksPath :: string
  pa_EnvPath :: string
  pa_RunDir :: string
  pa_SocketPath :: string
  pa_LockPath :: string
  pa_DataDir :: string
  pa_LogsDir :: string

record hook_entry =
  he_Type :: string
  he_URL :: string
  he_Cmd :: "string list"
  he_TimeoutMs :: int
  he_Headers :: "string gomap"
  he_Strict :: bool

record hooks_config =
  hc_OnCreate :: "hook_entry list"
  hc_OnDelete :: "hook_entry list"
  hc_OnStart :: "hook_entry list"
  hc_OnStop :: "hook_entry list"

record create_vm_request =
  req_RootFS :: string
  req_Kernel :: string
  req_DataDisk :: string
  req_VCPU :: int
  req_MemMiB :: int
  req_Ports :: "port_binding_request list"
  req_HTTPPort :: int
  req_Metadata :: "json gomap"
  req_AutoStart :: bool
  req_BootArgs :: string
  req_ExtraEnv :: "string gomap"
  req_Tags :: "string gomap"
  req_Hooks :: "hook_entry list gomap"

record vm_metadata =
  meta_ID :: string
  meta_CreatedAt :: int
  meta_RootFS :: string
  meta_Kernel :: string
  meta_DataDisk :: string
  meta_Ports :: "port_binding list"
  meta_HTTPPort :: int
  meta_GuestIP :: string
  meta_TapName :: string
  meta_NetNS :: string
  meta_Metadata :: "json gomap"
  meta_Tags :: "string gomap"
  meta_Paths :: vm_paths
  meta_Hooks :: "hook_entry list gomap"

record hook_context =
  hx_ID :: string
  hx_HostPorts :: "int list"
  hx_GuestPorts :: "int list"
  hx_GuestIP :: string
  hx_CreatedAt :: int
  hx_Paths :: vm_paths
  hx_Metadata :: "json gomap"

record systemd_state =
  ss_Available :: bool
  ss_Unit :: string
  ss_Active :: bool
  ss_ActiveState :: string
  ss_SubState :: string
  ss_MainPID :: int

record firecracker_state =
  fst_SocketPath :: string
  fst_SocketPresent :: bool

record network_state =
  ns_GuestIP :: string
  ns_Ports :: "port_binding list"
  ns_TapName :: string
  ns_NetNS :: string

record vm_summary =
  sum_ID :: string
  sum_CreatedAt :: int
  sum_Systemd :: systemd_state
  sum_Firecracker :: firecracker_state
  sum_Network :: network_state
  sum_Paths :: vm_paths
  sum_Metadata :: "json gomap"

record boot_source =
  bs_KernelImagePath :: string
  bs_BootArgs :: string

record drive =
  dr_DriveID :: string
  dr_PathOnHost :: string
  dr_IsRootDevice :: bool
  dr_IsReadOnly :: bool

record machine_config =
  mc_VCPUCount :: int
  mc_MemSizeMiB :: int
  mc_SMT :: bool

record network_interface =
  ni_IfaceID :: string
  ni_HostDevName :: string
  ni_GuestMAC :: string

record vsock =
  vs_VsockID :: string
  vs_GuestCID :: int
  vs_UdsPath :: string

record vm_config =
  cfg_BootSource :: boot_source
  cfg_Drives :: "drive list"
  cfg_MachineConfig :: machine_config
  cfg_NetworkInterfaces :: "network_interface list"
  cfg_Vsock :: "vsock option"

section \<open>Zero values\<close>

definition zero_port_binding :: port_binding where
  "zero_port_binding = \<lparr>pb_Guest = 0, pb_Host = 0, pb_Protocol = []\<rparr>"

definition zero_paths :: vm_paths where
  "zero_paths =
     \<lparr>pa_ConfigDir = [], pa_VMConfigPath = [], pa_MetaPath = [], pa_HooksPath = [],
      pa_EnvPath = [], pa_RunDir = [], pa_SocketPath = [], pa_LockPath = [],
      pa_DataDir = [], pa_LogsDir = []\<rparr>"

definition zero_hook :: hook_entry where
  "zero_hook =
     \<lparr>he_Type = [], he_URL = [], he_Cmd = [], he_TimeoutMs = 0, he_Headers = [], he_Strict = False\<rparr>"

definition zero_hooks :: hooks_config where
  "zero_hooks = \<lparr>hc_OnCreate = [], hc_OnDelete = [], hc_OnStart = [], hc_OnStop = []\<rparr>"

definition zero_meta :: vm_metadata where
  "zero_meta =
     \<lparr>meta_ID = [], meta_CreatedAt = 0, meta_RootFS = [], meta_Kernel = [], meta_DataDisk = [],
      meta_Ports = [], meta_HTTPPort = 0, meta_GuestIP = [], meta_TapName = [], meta_NetNS = [],
      meta_Metadata = [], meta_Tags = [], meta_Paths = zero_paths, meta_Hooks = []\<rparr>"

definition zero_config :: vm_config where
  "zero_config =
     \<lparr>cfg_BootSource = \<lparr>bs_KernelImagePath = [], bs_BootArgs = []\<rparr>, cfg_Drives = [],
      cfg_MachineConfig = \<lparr>mc_VCPUCount = 0, mc_MemSizeMiB = 0, mc_SMT = False\<rparr>,
      cfg_NetworkInterfaces = [], cfg_Vsock = None\<rparr>"

section \<open>Encoding\<close>

definition enc_int :: "int \<Rightarrow> json" where
  "enc_int i = JNum (Itoa i)"

definition omit_str :: "string \<Rightarrow> string \<Rightarrow> (string \<times> json) list" where
  "omit_str k s = (if s = [] then [] else [(k, JStr s)])"

definition omit_int :: "string \<Rightarrow> int \<Rightarrow> (string \<times> json) list" where
  "omit_int k i = (if i = 0 then [] else [(k, enc_int i)])"

definition omit_bool :: "string \<Rightarrow> bool \<Rightarrow> (string \<times> json) list" where
  "omit_bool k b = (if b then [(k, JBool b)] else [])"

definition omit_list :: "string \<Rightarrow> ('a \<Rightarrow> json) \<Rightarrow> 'a list \<Rightarrow> (string \<times> json) list" where
  "omit_list k f xs = (if xs = [] then [] else [(k, JArr (map f xs))])"

definition enc_map :: "('v \<Rightarrow> json) \<Rightarrow> 'v gomap \<Rightarrow> json" where
  "enc_map f m = JObj (map (\<lambda>(k, v). (k, f v)) m)"

definition omit_map :: "string \<Rightarrow> ('v \<Rightarrow> json) \<Rightarrow> 'v gomap \<Rightarrow> (string \<times> json) list" where
  "omit_map k f m = (if m = [] then [] else [(k, enc_map f m)])"

definition enc_port_binding :: "port_binding \<Rightarrow> json" where
  "enc_port_binding p =
     JObj [(''guest'', enc_int (pb_Guest p)), (''host'', enc_int (pb_Host p)),
           (''protocol'', JStr (pb_Protocol p))]"

definition enc_paths :: "vm_paths \<Rightarrow> json" where
  "enc_paths p =
     JObj [(''configDir'', JStr (pa_ConfigDir p)), (''vmConfigPath'', JStr (pa_VMConfigPath p)),
           (''metaPath'', JStr (pa_MetaPath p)), (''hooksPath'', JStr (pa_HooksPath p)),
           (''envPath'', JStr (pa_EnvPath p)), (''runDir'', JStr (pa_RunDir p)),
           (''socketPath'', JStr (pa_SocketPath p)), (''lockPath'', JStr (pa_LockPath p)),
           (''dataDir'', JStr (pa_DataDir p)), (''logsDir'', JStr (pa_LogsDir p))]"

definition enc_hook :: "hook_entry \<Rightarrow> json" where
  "enc_hook h =
     JObj ([(''type'', JStr (he_Type h))] @ omit_str ''url'' (he_URL h) @
           omit_list ''cmd'' JStr (he_Cmd h) @ omit_int ''timeoutMs'' (he_TimeoutMs h) @
           omit_map ''headers'' JStr (he_Headers h) @ omit_bool ''strict'' (he_Strict h))"

definition enc_hooks :: "hooks_config \<Rightarrow> json" where
  "enc_hooks h =
     JObj (omit_list ''onCreate'' enc_hook (hc_OnCreate h) @
           omit_list ''onDelete'' enc_hook (hc_OnDelete h) @
           omit_list ''onStart'' enc_hook (hc_OnStart h) @
           omit_list ''onStop'' enc_hook (hc_OnStop h))"

definition enc_meta :: "vm_metadata \<Rightarrow> json" where
  "enc_meta m =
     JObj ([(''id'', JStr (meta_ID m)), (''createdAt'', JTime (meta_CreatedAt m)),
            (''rootfs'', JStr (meta_RootFS m)), (''kernel'', JStr (meta_Kernel m))] @
           omit_str ''dataDisk'' (meta_DataDisk m) @
           [(''ports'', JArr (map enc_port_binding (meta_Ports m)))] @
           omit_int ''httpPort'' (meta_HTTPPort m) @
           [(''guestIP'', JStr (meta_GuestIP m)), (''tapName'', JStr (meta_TapName m)),
            (''netns'', JStr (meta_NetNS m))] @
           omit_map ''metadata'' (\<lambda>j. j) (meta_Metadata m) @
           omit_map ''tags'' JStr (meta_Tags m) @
           [(''paths'', enc_paths (meta_Paths m))] @
           omit_map ''hooks'' (\<lambda>hs. JArr (map enc_hook hs)) (meta_Hooks m))"

definition enc_drive :: "drive \<Rightarrow> json" where
  "enc_drive d =
     JObj [(''drive_id'', JStr (dr_DriveID d)), (''path_on_host'', JStr (dr_PathOnHost d)),
           (''is_root_device'', JBool (dr_IsRootDevice d)),
           (''is_read_only'', JBool (dr_IsReadOnly d))]"

definition enc_boot_source :: "boot_source \<Rightarrow> json" where
  "enc_boot_source b =
     JObj [(''kernel_image_path'', JStr (bs_KernelImagePath b)), (''boot_args'', JStr (bs_BootArgs b))]"

definition enc_machine_config :: "machine_config \<Rightarrow> json" where
  "enc_machine_config c =
     JObj [(''vcpu_count'', enc_int (mc_VCPUCount c)), (''mem_size_mib'', enc_int (mc_MemSizeMiB c)),
           (''smt'', JBool (mc_SMT c))]"

definition enc_network_interface :: "network_interface \<Rightarrow> json" where
  "enc_network_interface n =
     JObj ([(''iface_id'', JStr (ni_IfaceID n)), (''host_dev_name'', JStr (ni_HostDevName n))] @
           omit_str ''guest_mac'' (ni_GuestMAC n))"

definition enc_vsock :: "vsock \<Rightarrow> json" where
  "enc_vsock v =
     JObj [(''vsock_id'', JStr (vs_VsockID v)), (''guest_cid'', enc_int (vs_GuestCID v)),
           (''uds_path'', JStr (vs_UdsPath v))]"

definition enc_config :: "vm_config \<Rightarrow> json" where
  "enc_config c =
     JObj ([(''boot-source'', enc_boot_source (cfg_BootSource c)),
            (''drives'', JArr (map enc_drive (cfg_Drives c))),
            (''machine-config'', enc_machine_config (cfg_MachineConfig c)),
            (''network-interfaces'', JArr (map enc_network_interface (cfg_NetworkInterfaces c)))] @
           (case cfg_Vsock c of None \<Rightarrow> [] | Some v \<Rightarrow> [(''vsock'', enc_vsock v)]))"

section \<open>Decoding\<close>

datatype json_error = TypeMismatch | UnknownField string

text \<open>The field a member name selects: an exact match first, else a match up to case.\<close>

definition field_key :: "string list \<Rightarrow> string \<Rightarrow> string option" where
  "field_key names k =
     (if k \<in> set names then Some k else List.find (\<lambda>n. EqualFold n k) names)"

definition dec_field ::
  "(json \<Rightarrow> 'v \<Rightarrow> (json_error, 'v) result) \<Rightarrow> json \<Rightarrow> 'v \<Rightarrow> ('v \<Rightarrow> 'r) \<Rightarrow> (json_error, 'r) result" where
  "dec_field d j old upd = (case d j old of Err e \<Rightarrow> Err e | Ok v \<Rightarrow> Ok (upd v))"

definition dec_str :: "json \<Rightarrow> string \<Rightarrow> (json_error, string) result" where
  "dec_str j old = (case j of JStr s \<Rightarrow> Ok s | JNull \<Rightarrow> Ok old | _ \<Rightarrow> Err TypeMismatch)"

definition dec_int :: "json \<Rightarrow> int \<Rightarrow> (json_error, int) result" where
  "dec_int j old =
     (case j of
        JNum lit \<Rightarrow> (case Atoi lit of None \<Rightarrow> Err TypeMismatch | Some i \<Rightarrow> Ok i)
      | JNull \<Rightarrow> Ok old
      | _ \<Rightarrow> Err TypeMismatch)"

definition dec_bool :: "json \<Rightarrow> bool \<Rightarrow> (json_error, bool) result" where
  "dec_bool j old = (case j of JBool b \<Rightarrow> Ok b | JNull \<Rightarrow> Ok old | _ \<Rightarrow> Err TypeMismatch)"

definition dec_time :: "json \<Rightarrow> int \<Rightarrow> (json_error, int) result" where
  "dec_time j old = (case j of JTime t \<Rightarrow> Ok t | JNull \<Rightarrow> Ok old | _ \<Rightarrow> Err TypeMismatch)"

definition dec_any :: "json \<Rightarrow> json \<Rightarrow> (json_error, json) result" where
  "dec_any j old = Ok j"

definition dec_list ::
  "(json \<Rightarrow> 'v \<Rightarrow> (json_error, 'v) result) \<Rightarrow> 'v \<Rightarrow> json \<Rightarrow> 'v list \<Rightarrow> (json_error, 'v list) result" where
  "dec_list d z j old =
     (case j of JArr js \<Rightarrow> mapM (\<lambda>j. d j z) js | JNull \<Rightarrow> Ok [] | _ \<Rightarrow> Err TypeMismatch)"

definition dec_map ::
  "(json \<Rightarrow> 'v \<Rightarrow> (json_error, 'v) result) \<Rightarrow> 'v \<Rightarrow> json \<Rightarrow> 'v gomap \<Rightarrow> (json_error, 'v gomap) result" where
  "dec_map d z j old =
     (case j of
        JObj ms \<Rightarrow> foldM (\<lambda>(k, j) m. dec_field d j z (\<lambda>v. map_put k v m)) ms old
      | JNull \<Rightarrow> Ok []
      | _ \<Rightarrow> Err TypeMismatch)"

definition dec_struct ::
  "(string \<times> json \<Rightarrow> 'r \<Rightarrow> (json_error, 'r) result) \<Rightarrow> json \<Rightarrow> 'r \<Rightarrow> (json_error, 'r) result" where
  "dec_struct f j old =
     (case j of JObj ms \<Rightarrow> foldM f ms old | JNull \<Rightarrow> Ok old | _ \<Rightarrow> Err TypeMismatch)"

fun dec_port_binding_member :: "string \<times> json \<Rightarrow> port_binding \<Rightarrow> (json_error, port_binding) result" where
  "dec_port_binding_member (k, j) p =
     (let f = field_key [''guest'', ''host'', ''protocol''] k in
      if f = Some ''guest'' then dec_field dec_int j (pb_Guest p) (\<lambda>v. p\<lparr>pb_Guest := v\<rparr>)
      else if f = Some ''host'' then dec_field dec_int j (pb_Host p) (\<lambda>v. p\<lparr>pb_Host := v\<rparr>)
      else if f = Some ''protocol'' then dec_field dec_str j (pb_Protocol p) (\<lambda>v. p\<lparr>pb_Protocol := v\<rparr>)
      else Ok p)"

definition dec_port_binding :: "json \<Rightarrow> port_binding \<Rightarrow> (json_error, port_binding) result" where
  "dec_port_binding = dec_struct dec_port_binding_member"

fun dec_paths_member :: "string \<times> json \<Rightarrow> vm_paths \<Rightarrow> (json_error, vm_paths) result" where
  "dec_paths_member (k, j) p =
     (let f = field_key [''configDir'', ''vmConfigPath'', ''metaPath'', ''hooksPath'', ''envPath'', ''runDir'', ''socketPath'', ''lockPath'', ''dataDir'', ''logsDir''] k in
      if f = Some ''configDir'' then dec_field dec_str j (pa_ConfigDir p) (\<lambda>v. p\<lparr>pa_ConfigDir := v\<rparr>)
      else if f = Some ''vmConfigPath'' then dec_field dec_str j (pa_VMConfigPath p) (\<lambda>v. p\<lparr>pa_VMConfigPath := v\<rparr>)
      else if f = Some ''metaPath'' then dec_field dec_str j (pa_MetaPath p) (\<lambda>v. p\<lparr>pa_MetaPath := v\<rparr>)
      else if f = Some ''hooksPath'' then dec_field dec_str j (pa_HooksPath p) (\<lambda>v. p\<lparr>pa_HooksPath := v\<rparr>)
      else if f = Some ''envPath'' then dec_field dec_str j (pa_EnvPath p) (\<lambda>v. p\<lparr>pa_EnvPath := v\<rparr>)
      else if f = Some ''runDir'' then dec_field dec_str j (pa_RunDir p) (\<lambda>v. p\<lparr>pa_RunDir := v\<rparr>)
      else if f = Some ''socketPath'' then dec_field dec_str j (pa_SocketPath p) (\<lambda>v. p\<lparr>pa_SocketPath := v\<rparr>)
      else if f = Some ''lockPath'' then dec_field dec_str j (pa_LockPath p) (\<lambda>v. p\<lparr>pa_LockPath := v\<rparr>)
      else if f = Some ''dataDir'' then dec_field dec_str j (pa_DataDir p) (\<lambda>v. p\<lparr>pa_DataDir := v\<rparr>)
      else if f = Some ''logsDir'' then dec_field dec_str j (pa_LogsDir p) (\<lambda>v. p\<lparr>pa_LogsDir := v\<rparr>)
      else Ok p)"

definition dec_paths :: "json \<Rightarrow> vm_paths \<Rightarrow> (json_error, vm_paths) result" where
  "dec_paths = dec_struct dec_paths_member"

fun dec_hook_member :: "string \<times> json \<Rightarrow> hook_entry \<Rightarrow> (json_error, hook_entry) result" where
  "dec_hook_member (k, j) h =
     (let f = field_key [''type'', ''url'', ''cmd'', ''timeoutMs'', ''headers'', ''strict''] k in
      if f = Some ''type'' then dec_field dec_str j (he_Type h) (\<lambda>v. h\<lparr>he_Type := v\<rparr>)
      else if f = Some ''url'' then dec_field dec_str j (he_URL h) (\<lambda>v. h\<lparr>he_URL := v\<rparr>)
      else if f = Some ''cmd'' then dec_field (dec_list dec_str []) j (he_Cmd h) (\<lambda>v. h\<lparr>he_Cmd := v\<rparr>)
      else if f = Some ''timeoutMs'' then dec_field dec_int j (he_TimeoutMs h) (\<lambda>v. h\<lparr>he_TimeoutMs := v\<rparr>)
      else if f = Some ''headers'' then dec_field (dec_map dec_str []) j (he_Headers h) (\<lambda>v. h\<lparr>he_Headers := v\<rparr>)
      else if f = Some ''strict'' then dec_field dec_bool j (he_Strict h) (\<lambda>v. h\<lparr>he_Strict := v\<rparr>)
      else Ok h)"

definition dec_hook :: "json \<Rightarrow> hook_entry \<Rightarrow> (json_error, hook_entry) result" where
  "dec_hook = dec_struct dec_hook_member"

fun dec_hooks_member :: "string \<times> json \<Rightarrow> hooks_config \<Rightarrow> (json_error, hooks_config) result" where
  "dec_hooks_member (k, j) h =
     (let f = field_key [''onCreate'', ''onDelete'', ''onStart'', ''onStop''] k in
      if f = Some ''onCreate'' then dec_field (dec_list dec_hook zero_hook) j (hc_OnCreate h) (\<lambda>v. h\<lparr>hc_OnCreate := v\<rparr>)
      else if f = Some ''onDelete'' then dec_field (dec_list dec_hook zero_hook) j (hc_OnDelete h) (\<lambda>v. h\<lparr>hc_OnDelete := v\<rparr>)
      else if f = Some ''onStart'' then dec_field (dec_list dec_hook zero_hook) j (hc_OnStart h) (\<lambda>v. h\<lparr>hc_OnStart := v\<rparr>)
      else if f = Some ''onStop'' then dec_field (dec_list dec_hook zero_hook) j (hc_OnStop h) (\<lambda>v. h\<lparr>hc_OnStop := v\<rparr>)
      else Ok h)"

definition dec_hooks :: "json \<Rightarrow> hooks_config \<Rightarrow> (json_error, hooks_config) result" where
  "dec_hooks = dec_struct dec_hooks_member"

fun dec_meta_member :: "string \<times> json \<Rightarrow> vm_metadata \<Rightarrow> (json_error, vm_metadata) result" where
  "dec_meta_member (k, j) m =
     (let f = field_key [''id'', ''createdAt'', ''rootfs'', ''kernel'', ''dataDisk'', ''ports'', ''httpPort'', ''guestIP'', ''tapName'', ''netns'', ''metadata'', ''tags'', ''paths'', ''hooks''] k in
      if f = Some ''id'' then dec_field dec_str j (meta_ID m) (\<lambda>v. m\<lparr>meta_ID := v\<rparr>)
      else if f = Some ''createdAt'' then dec_field dec_time j (meta_CreatedAt m) (\<lambda>v. m\<lparr>meta_CreatedAt := v\<rparr>)
      else if f = Some ''rootfs'' then dec_field dec_str j (meta_RootFS m) (\<lambda>v. m\<lparr>meta_RootFS := v\<rparr>)
      else if f = Some ''kernel'' then dec_field dec_str j (meta_Kernel m) (\<lambda>v. m\<lparr>meta_Kernel := v\<rparr>)
      else if f = Some ''dataDisk'' then dec_field dec_str j (meta_DataDisk m) (\<lambda>v. m\<lparr>meta_DataDisk := v\<rparr>)
      else if f = Some ''ports'' then dec_field (dec_list dec_port_binding zero_port_binding) j (meta_Ports m) (\<lambda>v. m\<lparr>meta_Ports := v\<rparr>)
      else if f = Some ''httpPort'' then dec_field dec_int j (meta_HTTPPort m) (\<lambda>v. m\<lparr>meta_HTTPPort := v\<rparr>)
      else if f = Some ''guestIP'' then dec_field dec_str j (meta_GuestIP m) (\<lambda>v. m\<lparr>meta_GuestIP := v\<rparr>)
      else if f = Some ''tapName'' then dec_field dec_str j (meta_TapName m) (\<lambda>v. m\<lparr>meta_TapName := v\<rparr>)
      else if f = Some ''netns'' then dec_field dec_str j (meta_NetNS m) (\<lambda>v. m\<lparr>meta_NetNS := v\<rparr>)
      else if f = Some ''metadata'' then dec_field (dec_map dec_any JNull) j (meta_Metadata m) (\<lambda>v. m\<lparr>meta_Metadata := v\<rparr>)
      else if f = Some ''tags'' then dec_field (dec_map dec_str []) j (meta_Tags m) (\<lambda>v. m\<lparr>meta_Tags := v\<rparr>)
      else if f = Some ''paths'' then dec_field dec_paths j (meta_Paths m) (\<lambda>v. m\<lparr>meta_Paths := v\<rparr>)
      else if f = Some ''hooks'' then dec_field (dec_map (dec_list dec_hook zero_hook) []) j (meta_Hooks m) (\<lambda>v. m\<lparr>meta_Hooks := v\<rparr>)
      else Ok m)"

definition dec_meta :: "json \<Rightarrow> vm_metadata \<Rightarrow> (json_error, vm_metadata) result" where
  "dec_meta = dec_struct dec_meta_member"

fun dec_drive_member :: "string \<times> json \<Rightarrow> drive \<Rightarrow> (json_error, drive) result" where
  "dec_drive_member (k, j) d =
     (let f = field_key [''drive_id'', ''path_on_host'', ''is_root_device'', ''is_read_only''] k in
      if f = Some ''drive_id'' then dec_field dec_str j (dr_DriveID d) (\<lambda>v. d\<lparr>dr_DriveID := v\<rparr>)
      else if f = Some ''path_on_host'' then dec_field dec_str j (dr_PathOnHost d) (\<lambda>v. d\<lparr>dr_PathOnHost := v\<rparr>)
      else if f = Some ''is_root_device'' then dec_field dec_bool j (dr_IsRootDevice d) (\<lambda>v. d\<lparr>dr_IsRootDevice := v\<rparr>)
      else if f = Some ''is_read_only'' then dec_field dec_bool j (dr_IsReadOnly d) (\<lambda>v. d\<lparr>dr_IsReadOnly := v\<rparr>)
      else Ok d)"

definition dec_drive :: "json \<Rightarrow> drive \<Rightarrow> (json_error, drive) result" where
  "dec_drive = dec_struct dec_drive_member"

fun dec_boot_source_member :: "string \<times> json \<Rightarrow> boot_source \<Rightarrow> (json_error, boot_source) result" where
  "dec_boot_source_member (k, j) b =
     (let f = field_key [''kernel_image_path'', ''boot_args''] k in
      if f = Some ''kernel_image_path'' then dec_field dec_str j (bs_KernelImagePath b) (\<lambda>v. b\<lparr>bs_KernelImagePath := v\<rparr>)
      else if f = Some ''boot_args'' then dec_field dec_str j (bs_BootArgs b) (\<lambda>v. b\<lparr>bs_BootArgs := v\<rparr>)
      else Ok b)"

definition dec_boot_source :: "json \<Rightarrow> boot_source \<Rightarrow> (json_error, boot_source) result" where
  "dec_boot_source = dec_struct dec_boot_source_member"

fun dec_machine_config_member :: "string \<times> json \<Rightarrow> machine_config \<Rightarrow> (json_error, machine_config) result" where
  "dec_machine_config_member (k, j) c =
     (let f = field_key [''vcpu_count'', ''mem_size_mib'', ''smt''] k in
      if f = Some ''vcpu_count'' then dec_field dec_int j (mc_VCPUCount c) (\<lambda>v. c\<lparr>mc_VCPUCount := v\<rparr>)
      else if f = Some ''mem_size_mib'' then dec_field dec_int j (mc_MemSizeMiB c) (\<lambda>v. c\<lparr>mc_MemSizeMiB := v\<rparr>)
      else if f = Some ''smt'' then dec_field dec_bool j (mc_SMT c) (\<lambda>v. c\<lparr>mc_SMT := v\<rparr>)
      else Ok c)"

definition dec_machine_config :: "json \<Rightarrow> machine_config \<Rightarrow> (json_error, machine_config) result" where
  "dec_machine_config = dec_struct dec_machine_config_member"

fun dec_network_interface_member :: "string \<times> json \<Rightarrow> network_interface \<Rightarrow> (json_error, network_interface) result" where
  "dec_network_interface_member (k, j) n =
     (let f = field_key [''iface_id'', ''host_dev_name'', ''guest_mac''] k in
      if f = Some ''iface_id'' then dec_field dec_str j (ni_IfaceID n) (\<lambda>v. n\<lparr>ni_IfaceID := v\<rparr>)
      else if f = Some ''host_dev_name'' then dec_field dec_str j (ni_HostDevName n) (\<lambda>v. n\<lparr>ni_HostDevName := v\<rparr>)
      else if f = Some ''guest_mac'' then dec_field dec_str j (ni_GuestMAC n) (\<lambda>v. n\<lparr>ni_GuestMAC := v\<rparr>)
      else Ok n)"

definition dec_network_interface :: "json \<Rightarrow> network_interface \<Rightarrow> (json_error, network_interface) result" where
  "dec_network_interface = dec_struct dec_network_interface_member"

fun dec_vsock_member :: "string \<times> json \<Rightarrow> vsock \<Rightarrow> (json_error, vsock) result" where
  "dec_vsock_member (k, j) v =
     (let f = field_key [''vsock_id'', ''guest_cid'', ''uds_path''] k in
      if f = Some ''vsock_id'' then dec_field dec_str j (vs_VsockID v) (\<lambda>x. v\<lparr>vs_VsockID := x\<rparr>)
      else if f = Some ''guest_cid'' then dec_field dec_int j (vs_GuestCID v) (\<lambda>x. v\<lparr>vs_GuestCID := x\<rparr>)
      else if f = Some ''uds_path'' then dec_field dec_str j (vs_UdsPath v) (\<lambda>x. v\<lparr>vs_UdsPath := x\<rparr>)
      else Ok v)"

definition dec_vsock :: "json \<Rightarrow> vsock \<Rightarrow> (json_error, vsock) result" where
  "dec_vsock = dec_struct dec_vsock_member"

definition zero_vsock :: vsock where
  "zero_vsock = \<lparr>vs_VsockID = [], vs_GuestCID = 0, vs_UdsPath = []\<rparr>"

text \<open>A pointer field: \<open>null\<close> is nil, anything else is decoded into the pointed-to struct.\<close>

definition dec_ptr ::
  "(json \<Rightarrow> 'v \<Rightarrow> (json_error, 'v) result) \<Rightarrow> 'v \<Rightarrow> json \<Rightarrow> 'v option \<Rightarrow> (json_error, 'v option) result" where
  "dec_ptr d z j old =
     (case j of
        JNull \<Rightarrow> Ok None
      | _ \<Rightarrow> dec_field d j (case old of None \<Rightarrow> z | Some v \<Rightarrow> v) Some)"

definition zero_drive :: drive where
  "zero_drive = \<lparr>dr_DriveID = [], dr_PathOnHost = [], dr_IsRootDevice = False, dr_IsReadOnly = False\<rparr>"

definition zero_network_interface :: network_interface where
  "zero_network_interface = \<lparr>ni_IfaceID = [], ni_HostDevName = [], ni_GuestMAC = []\<rparr>"

fun dec_config_member :: "string \<times> json \<Rightarrow> vm_config \<Rightarrow> (json_error, vm_config) result" where
  "dec_config_member (k, j) c =
     (let f = field_key [''boot-source'', ''drives'', ''machine-config'', ''network-interfaces'', ''vsock''] k in
      if f = Some ''boot-source'' then dec_field dec_boot_source j (cfg_BootSource c) (\<lambda>v. c\<lparr>cfg_BootSource := v\<rparr>)
      else if f = Some ''drives'' then dec_field (dec_list dec_drive zero_drive) j (cfg_Drives c) (\<lambda>v. c\<lparr>cfg_Drives := v\<rparr>)
      else if f = Some ''machine-config'' then dec_field dec_machine_config j (cfg_MachineConfig c) (\<lambda>v. c\<lparr>cfg_MachineConfig := v\<rparr>)
      else if f = Some ''network-interfaces'' then dec_field (dec_list dec_network_interface zero_network_interface) j (cfg_NetworkInterfaces c) (\<lambda>v. c\<lparr>cfg_NetworkInterfaces := v\<rparr>)
      else if f = Some ''vsock'' then dec_field (dec_ptr dec_vsock zero_vsock) j (cfg_Vsock c) (\<lambda>v. c\<lparr>cfg_Vsock := v\<rparr>)
      else Ok c)"

definition dec_config :: "json \<Rightarrow> vm_config \<Rightarrow> (json_error, vm_config) result" where
  "dec_config = dec_struct dec_config_member"

section \<open>Round trips\<close>

text \<open>
  What a pair of an encoder and a decoder promises: a well-formed value comes back from its
  document, whatever zero value the decoder starts from.
\<close>

locale json_codec =
  fixes enc :: "'a \<Rightarrow> json"
    and decode :: "json \<Rightarrow> 'a \<Rightarrow> (json_error, 'a) result"
    and zero :: 'a
    and wf :: "'a \<Rightarrow> bool"
  assumes roundtrip: "wf x \<Longrightarrow> decode (enc x) zero = Ok x"
begin

lemma list_roundtrip:
  assumes "list_all wf xs"
  shows "dec_list decode zero (JArr (map enc xs)) old = Ok xs"
proof -
  have "mapM (\<lambda>j. decode j zero) (map enc xs) = Ok xs"
    using assms by (induction xs) (auto simp: roundtrip)
  then show ?thesis by (simp add: dec_list_def)
qed

lemma entries_roundtrip:
  assumes "list_all wf (map snd kvs)"
  shows "foldM (\<lambda>(k, j) m. dec_field decode j zero (\<lambda>v. map_put k v m))
           (map (\<lambda>(k, v). (k, enc v)) kvs) m = Ok (map_puts kvs m)"
  using assms by (induction kvs arbitrary: m) (auto simp: dec_field_def roundtrip)

lemma map_roundtrip:
  assumes "map_canon m" and "list_all wf (map snd m)"
  shows "dec_map decode zero (enc_map enc m) [] = Ok m"
  using assms by (simp add: dec_map_def enc_map_def entries_roundtrip)

end

interpretation str_codec: json_codec JStr dec_str "[]" "\<lambda>_. True"
  by unfold_locales (simp add: dec_str_def)

interpretation int_codec: json_codec enc_int dec_int 0 int64
  by unfold_locales (simp add: dec_int_def enc_int_def Atoi_Itoa)

interpretation any_codec: json_codec "\<lambda>j. j" dec_any JNull "\<lambda>_. True"
  by unfold_locales (simp add: dec_any_def)

lemma foldM_omit_str:
  "foldM f (omit_str k s) r = (if s = [] then Ok r else f (k, JStr s) r)"
  by (simp add: omit_str_def split: sum.splits)

lemma foldM_omit_int:
  "foldM f (omit_int k i) r = (if i = 0 then Ok r else f (k, enc_int i) r)"
  by (simp add: omit_int_def split: sum.splits)

lemma foldM_omit_bool:
  "foldM f (omit_bool k b) r = (if b then f (k, JBool True) r else Ok r)"
  by (simp add: omit_bool_def split: sum.splits)

lemma foldM_omit_list:
  "foldM f (omit_list k e xs) r = (if xs = [] then Ok r else f (k, JArr (map e xs)) r)"
  by (simp add: omit_list_def split: sum.splits)

lemma foldM_omit_map:
  "foldM f (omit_map k e m) r = (if m = [] then Ok r else f (k, enc_map e m) r)"
  by (simp add: omit_map_def split: sum.splits)

lemmas foldM_omit = foldM_omit_str foldM_omit_int foldM_omit_bool foldM_omit_list foldM_omit_map

lemma dec_bool_JBool [simp]: "dec_bool (JBool b) old = Ok b"
  by (simp add: dec_bool_def)

lemma dec_str_JStr [simp]: "dec_str (JStr s) old = Ok s"
  by (simp add: dec_str_def)

lemma dec_time_JTime [simp]: "dec_time (JTime t) old = Ok t"
  by (simp add: dec_time_def)

lemma dec_int_enc [simp]: "int64 i \<Longrightarrow> dec_int (enc_int i) old = Ok i"
  by (simp add: dec_int_def enc_int_def Atoi_Itoa)

definition port_binding_wf :: "port_binding \<Rightarrow> bool" where
  "port_binding_wf p \<longleftrightarrow> int64 (pb_Guest p) \<and> int64 (pb_Host p)"

definition hook_wf :: "hook_entry \<Rightarrow> bool" where
  "hook_wf h \<longleftrightarrow> int64 (he_TimeoutMs h) \<and> map_canon (he_Headers h)"

definition hooks_wf :: "hooks_config \<Rightarrow> bool" where
  "hooks_wf h \<longleftrightarrow>
     list_all hook_wf (hc_OnCreate h) \<and> list_all hook_wf (hc_OnDelete h) \<and>
     list_all hook_wf (hc_OnStart h) \<and> list_all hook_wf (hc_OnStop h)"

definition meta_wf :: "vm_metadata \<Rightarrow> bool" where
  "meta_wf m \<longleftrightarrow>
     list_all port_binding_wf (meta_Ports m) \<and> int64 (meta_HTTPPort m) \<and>
     map_canon (meta_Metadata m) \<and> map_canon (meta_Tags m) \<and>
     map_canon (meta_Hooks m) \<and> list_all (list_all hook_wf) (map snd (meta_Hooks m))"

lemmas dec_simps = dec_struct_def dec_field_def field_key_def foldM_append foldM_omit

interpretation port_binding_codec:
  json_codec enc_port_binding dec_port_binding zero_port_binding port_binding_wf
proof unfold_locales
  fix p
  assume "port_binding_wf p"
  then show "dec_port_binding (enc_port_binding p) zero_port_binding = Ok p"
    by (simp add: dec_port_binding_def enc_port_binding_def dec_simps port_binding_wf_def)
qed

lemma dec_paths_enc [simp]: "dec_paths (enc_paths p) old = Ok p"
  by (simp add: dec_paths_def enc_paths_def dec_simps)

interpretation hook_codec: json_codec enc_hook dec_hook zero_hook hook_wf
proof unfold_locales
  fix h
  assume "hook_wf h"
  then show "dec_hook (enc_hook h) zero_hook = Ok h"
    by (simp add: dec_hook_def enc_hook_def dec_simps hook_wf_def str_codec.list_roundtrip
        str_codec.map_roundtrip zero_hook_def list_all_iff)
qed

interpretation hooks_codec: json_codec enc_hooks dec_hooks zero_hooks hooks_wf
proof unfold_locales
  fix h
  assume "hooks_wf h"
  then show "dec_hooks (enc_hooks h) zero_hooks = Ok h"
    by (simp add: dec_hooks_def enc_hooks_def dec_simps hooks_wf_def hook_codec.list_roundtrip
        zero_hooks_def)
qed

interpretation hook_list_codec:
  json_codec "\<lambda>hs. JArr (map enc_hook hs)" "dec_list dec_hook zero_hook" "[]" "list_all hook_wf"
  by unfold_locales (rule hook_codec.list_roundtrip)

interpretation meta_codec: json_codec enc_meta dec_meta zero_meta meta_wf
proof unfold_locales
  fix m
  assume "meta_wf m"
  then show "dec_meta (enc_meta m) zero_meta = Ok m"
    by (simp add: dec_meta_def enc_meta_def dec_simps meta_wf_def zero_meta_def
        port_binding_codec.list_roundtrip any_codec.map_roundtrip str_codec.map_roundtrip
        hook_list_codec.map_roundtrip list_all_iff)
qed

definition config_wf :: "vm_config \<Rightarrow> bool" where
  "config_wf c \<longleftrightarrow>
     int64 (mc_VCPUCount (cfg_MachineConfig c)) \<and> int64 (mc_MemSizeMiB (cfg_MachineConfig c)) \<and>
     (case cfg_Vsock c of None \<Rightarrow> True | Some v \<Rightarrow> int64 (vs_GuestCID v))"

interpretation drive_codec: json_codec enc_drive dec_drive zero_drive "\<lambda>_. True"
  by unfold_locales (simp add: dec_drive_def enc_drive_def dec_simps)

interpretation network_interface_codec:
  json_codec enc_network_interface dec_network_interface zero_network_interface "\<lambda>_. True"
  by unfold_locales
    (simp add: dec_network_interface_def enc_network_interface_def dec_simps zero_network_interface_def)

lemma dec_boot_source_enc [simp]: "dec_boot_source (enc_boot_source b) old = Ok b"
  by (simp add: dec_boot_source_def enc_boot_source_def dec_simps)

lemma dec_machine_config_enc [simp]:
  "int64 (mc_VCPUCount c) \<Longrightarrow> int64 (mc_MemSizeMiB c) \<Longrightarrow>
     dec_machine_config (enc_machine_config c) old = Ok c"
  by (simp add: dec_machine_config_def enc_machine_config_def dec_simps)

lemma dec_vsock_enc: "int64 (vs_GuestCID v) \<Longrightarrow> dec_ptr dec_vsock zero_vsock (enc_vsock v) None = Ok (Some v)"
  by (simp add: dec_ptr_def dec_vsock_def enc_vsock_def dec_simps)

interpretation config_codec: json_codec enc_config dec_config zero_config config_wf
proof unfold_locales
  fix c
  assume "config_wf c"
  then show "dec_config (enc_config c) zero_config = Ok c"
    by (cases "cfg_Vsock c")
      (simp_all add: dec_config_def enc_config_def dec_simps config_wf_def zero_config_def
        drive_codec.list_roundtrip network_interface_codec.list_roundtrip list_all_iff dec_vsock_enc)
qed

end
