(* ===== verification/Network.thy ===== *)
theory Network
  imports Go_Netip Model
begin

unbundle bit_operations_syntax

text \<open>
  \<open>src/internal/network/allocator.go\<close>: host port and guest address allocation over the
  metadata of the existing VMs, and the names derived from a VM id.  The sets \<open>used\<close> and
  \<open>reserved\<close> of the code are lists here, tested by membership only.
\<close>

section \<open>Definitions\<close>

record allocator =
  al_portStart :: int
  al_portEnd :: int
  al_guestCIDR :: string

definition NewAllocator :: "int \<Rightarrow> int \<Rightarrow> string \<Rightarrow> allocator" where
  "NewAllocator portStart portEnd guestCIDR =
     \<lparr>al_portStart = portStart, al_portEnd = portEnd, al_guestCIDR = guestCIDR\<rparr>"

datatype alloc_error =
    InvalidGuestPort int
  | InvalidHostPort int
  | UnsupportedProtocol string
  | NoHostPort
  | HostPortAllocated int
  | DuplicateHostPort int
  | InvalidGuestCIDR
  | OnlyIPv4
  | NoUsableHostRange
  | NoGuestIP

function next_free :: "int \<Rightarrow> int \<Rightarrow> int list \<Rightarrow> int list \<Rightarrow> int" where
  "next_free port portEnd used reserved =
     (if port \<le> portEnd then
        if port \<in> set used then next_free (port + 1) portEnd used reserved
        else if port \<in> set reserved then next_free (port + 1) portEnd used reserved
        else port
      else 0)"
  by pat_completeness auto
termination
  by (relation "measure (\<lambda>(port, portEnd, used, reserved). nat (portEnd + 1 - port))") auto

declare next_free.simps [simp del]

definition nextFreePort :: "allocator \<Rightarrow> int list \<Rightarrow> int list \<Rightarrow> int" where
  "nextFreePort a used reserved = next_free (al_portStart a) (al_portEnd a) used reserved"

definition norm_protocol :: "string \<Rightarrow> string" where
  "norm_protocol raw =
     (let protocol = TrimSpace (ToLower raw) in if protocol = [] then ''tcp'' else protocol)"

fun allocatePorts_loop ::
  "allocator \<Rightarrow> int list \<Rightarrow> port_binding_request list \<Rightarrow> int list \<Rightarrow> port_binding list \<Rightarrow>
   (alloc_error, port_binding list) result" where
  "allocatePorts_loop a used [] reserved bindings = Ok (sort_key pb_Host bindings)"
| "allocatePorts_loop a used (req # requests) reserved bindings =
     (if pbr_Guest req \<le> 0 \<or> pbr_Guest req > 65535 then Err (InvalidGuestPort (pbr_Guest req))
      else if pbr_Host req < 0 \<or> pbr_Host req > 65535 then Err (InvalidHostPort (pbr_Host req))
      else
        let protocol = norm_protocol (pbr_Protocol req) in
        if protocol \<noteq> ''tcp'' \<and> protocol \<noteq> ''udp'' then Err (UnsupportedProtocol protocol)
        else
          let hostPort = (if pbr_Host req = 0 then nextFreePort a used reserved else pbr_Host req) in
          if pbr_Host req = 0 \<and> hostPort = 0 then Err NoHostPort
          else if hostPort \<in> set used then Err (HostPortAllocated hostPort)
          else if hostPort \<in> set reserved then Err (DuplicateHostPort hostPort)
          else allocatePorts_loop a used requests (hostPort # reserved)
                 (bindings @ [\<lparr>pb_Guest = pbr_Guest req, pb_Host = hostPort, pb_Protocol = protocol\<rparr>]))"

definition used_ports :: "vm_metadata list \<Rightarrow> int list" where
  "used_ports existing = concat (map (\<lambda>vm. map pb_Host (meta_Ports vm)) existing)"

definition allocatePorts ::
  "allocator \<Rightarrow> vm_metadata list \<Rightarrow> port_binding_request list \<Rightarrow> (alloc_error, port_binding list) result" where
  "allocatePorts a existing requests = allocatePorts_loop a (used_ports existing) requests [] []"

definition ipv4ToU32 :: "u32 \<Rightarrow> u32" where
  "ipv4ToU32 addr =
     (let (b0, b1, b2, b3) = As4 addr
      in push_bit 24 (ucast b0) OR push_bit 16 (ucast b1) OR push_bit 8 (ucast b2) OR ucast b3)"

definition u32ToIPv4 :: "u32 \<Rightarrow> u32" where
  "u32ToIPv4 v =
     AddrFrom4 (ucast (drop_bit 24 v), ucast (drop_bit 16 v), ucast (drop_bit 8 v), ucast v)"

function allocateGuestIP_loop ::
  "u32 \<Rightarrow> nat \<Rightarrow> u32 \<Rightarrow> string list \<Rightarrow> u32 \<Rightarrow> u32 \<Rightarrow> (alloc_error, string) result" where
  "allocateGuestIP_loop addr bits networkU32 used host maxHost =
     (if host < maxHost then
        let candidate = u32ToIPv4 (networkU32 + host) in
        if \<not> contains4 addr bits candidate then
          allocateGuestIP_loop addr bits networkU32 used (host + 1) maxHost
        else if addr_String candidate \<in> set used then
          allocateGuestIP_loop addr bits networkU32 used (host + 1) maxHost
        else Ok (addr_String candidate)
      else Err NoGuestIP)"
  by pat_completeness auto
termination
  by (relation "measure (\<lambda>(addr, bits, networkU32, used, host, maxHost). unat maxHost - unat host)")
    (auto dest: word_loop_step)

declare allocateGuestIP_loop.simps [simp del]

definition allocateGuestIP :: "allocator \<Rightarrow> vm_metadata list \<Rightarrow> (alloc_error, string) result" where
  "allocateGuestIP a existing =
     (case ParsePrefix (al_guestCIDR a) of
        None \<Rightarrow> Err InvalidGuestCIDR
      | Some pfx \<Rightarrow>
          (case pfx_addr pfx of
             Addr6 _ \<Rightarrow> Err OnlyIPv4
           | Addr4 addr \<Rightarrow>
               let used = filter (\<lambda>ip. ip \<noteq> []) (map meta_GuestIP existing);
                   networkU32 = ipv4ToU32 (mask4 addr (pfx_bits pfx));
                   hostBits = 32 - int (pfx_bits pfx)
               in if hostBits \<le> 1 then Err NoUsableHostRange
                  else allocateGuestIP_loop addr (pfx_bits pfx) networkU32 used 2
                         (word_of_int (2 ^ nat hostBits - 1))))"

definition Allocate ::
  "allocator \<Rightarrow> vm_metadata list \<Rightarrow> port_binding_request list \<Rightarrow>
   (alloc_error, string \<times> port_binding list) result" where
  "Allocate a existing requests =
     (case allocateGuestIP a existing of
        Err e \<Rightarrow> Err e
      | Ok guestIP \<Rightarrow>
          (case allocatePorts a existing requests of
             Err e \<Rightarrow> Err e
           | Ok portBindings \<Rightarrow> Ok (guestIP, portBindings)))"

definition TapName :: "string \<Rightarrow> string" where
  "TapName vid = ''tap-'' @ (if length vid > 8 then take 8 vid else vid)"

definition NetNSName :: "string \<Rightarrow> string" where
  "NetNSName vid = ''mergen-'' @ (if length vid > 8 then take 8 vid else vid)"

definition GuestMAC :: "string \<Rightarrow> string" where
  "GuestMAC vid =
     (let hexOnly = ReplaceAll vid CHR ''-'' [] in
      if length hexOnly < 6 then ''02:FC:00:00:00:01''
      else
        ''02:FC:'' @ ToUpper (take 2 hexOnly) @ '':'' @ ToUpper (take 2 (drop 2 hexOnly)) @ '':'' @
        ToUpper (take 2 (drop 4 hexOnly)) @ '':01'')"

section \<open>Host ports\<close>

lemma next_free_least:
  assumes "next_free p e used reserved = q" "q \<noteq> 0"
  shows "p \<le> q \<and> q \<le> e \<and> q \<notin> set used \<and> q \<notin> set reserved \<and>
         (\<forall>r. p \<le> r \<and> r < q \<longrightarrow> r \<in> set used \<or> r \<in> set reserved)"
  using assms
proof (induction p e used reserved rule: next_free.induct)
  case (1 p e used reserved)
  show ?case
  proof (cases "p \<le> e \<and> (p \<in> set used \<or> p \<in> set reserved)")
    case True
    with "1.prems" have "next_free (p + 1) e used reserved = q"
      by (auto simp: next_free.simps [of p])
    with True 1 have "p + 1 \<le> q \<and> q \<le> e \<and> q \<notin> set used \<and> q \<notin> set reserved \<and>
         (\<forall>r. p + 1 \<le> r \<and> r < q \<longrightarrow> r \<in> set used \<or> r \<in> set reserved)"
      by blast
    with True show ?thesis by (smt (verit))
  next
    case False
    with "1.prems" have "q = p" "p \<le> e" "p \<notin> set used" "p \<notin> set reserved"
      by (auto simp: next_free.simps [of p] split: if_splits)
    then show ?thesis by auto
  qed
qed

lemma next_free_finds:
  assumes "p \<le> r" "r \<le> e" "r \<notin> set used" "r \<notin> set reserved" "0 < p"
  shows "next_free p e used reserved \<noteq> 0"
  using assms
proof (induction p e used reserved rule: next_free.induct)
  case (1 p e used reserved)
  show ?case
  proof (cases "p \<in> set used \<or> p \<in> set reserved")
    case True
    with "1.prems" have "p + 1 \<le> r" by (metis linorder_not_le order_antisym zle_add1_eq_le not_less)
    with True 1 show ?thesis by (simp add: next_free.simps [of p])
  next
    case False
    with "1.prems" show ?thesis by (simp add: next_free.simps [of p])
  qed
qed

text \<open>How a binding answers a request.\<close>

definition serves :: "allocator \<Rightarrow> port_binding_request \<Rightarrow> port_binding \<Rightarrow> bool" where
  "serves a req b \<longleftrightarrow>
     pb_Guest b = pbr_Guest req \<and> pb_Protocol b = norm_protocol (pbr_Protocol req) \<and>
     0 < pb_Guest b \<and> pb_Guest b \<le> 65535 \<and> pb_Protocol b \<in> {''tcp'', ''udp''} \<and>
     (if pbr_Host req = 0
      then pb_Host b \<noteq> 0 \<and> al_portStart a \<le> pb_Host b \<and> pb_Host b \<le> al_portEnd a
      else pb_Host b = pbr_Host req \<and> 0 < pb_Host b \<and> pb_Host b \<le> 65535)"

lemma allocatePorts_loop_sound:
  assumes "allocatePorts_loop a used reqs reserved bs = Ok res"
    and "set reserved = pb_Host ` set bs" "distinct (map pb_Host bs)"
    and "pb_Host ` set bs \<inter> set used = {}"
  shows "\<exists>bs'. res = sort_key pb_Host (bs @ bs') \<and> list_all2 (serves a) reqs bs' \<and>
           distinct (map pb_Host (bs @ bs')) \<and> pb_Host ` set (bs @ bs') \<inter> set used = {}"
  using assms
proof (induction reqs arbitrary: reserved bs)
  case (Cons req requests)
  define h where "h = (if pbr_Host req = 0 then nextFreePort a used reserved else pbr_Host req)"
  define b where "b = \<lparr>pb_Guest = pbr_Guest req, pb_Host = h, pb_Protocol = norm_protocol (pbr_Protocol req)\<rparr>"
  from Cons.prems(1) have
    g: "0 < pbr_Guest req" "pbr_Guest req \<le> 65535" "0 \<le> pbr_Host req" "pbr_Host req \<le> 65535"
       "norm_protocol (pbr_Protocol req) \<in> {''tcp'', ''udp''}"
       "\<not> (pbr_Host req = 0 \<and> h = 0)" "h \<notin> set used" "h \<notin> set reserved" and
    r: "allocatePorts_loop a used requests (h # reserved) (bs @ [b]) = Ok res"
    by (auto simp: Let_def h_def b_def split: if_splits)
  have s: "serves a req b"
    using g next_free_least [of "al_portStart a" "al_portEnd a" used reserved h]
    by (auto simp: serves_def b_def h_def nextFreePort_def split: if_splits)
  have "\<exists>bs'. res = sort_key pb_Host ((bs @ [b]) @ bs') \<and> list_all2 (serves a) requests bs' \<and>
           distinct (map pb_Host ((bs @ [b]) @ bs')) \<and>
           pb_Host ` set ((bs @ [b]) @ bs') \<inter> set used = {}"
    using g Cons.prems(2-4) by (intro Cons.IH [OF r]) (auto simp: b_def)
  then obtain bs' where "res = sort_key pb_Host (bs @ b # bs')" "list_all2 (serves a) requests bs'"
    "distinct (map pb_Host (bs @ b # bs'))" "pb_Host ` set (bs @ b # bs') \<inter> set used = {}"
    by auto
  with s show ?case by (intro exI [of _ "b # bs'"]) auto
qed auto


lemma used_ports_append: "used_ports (xs @ ys) = used_ports xs @ used_ports ys"
  by (simp add: used_ports_def)

lemma allocatePorts_hosts:
  assumes "allocatePorts a existing requests = Ok bs"
  shows "distinct (map pb_Host bs)" "sorted (map pb_Host bs)"
    "set (map pb_Host bs) \<inter> set (used_ports existing) = {}"
    "\<exists>bs'. mset bs = mset bs' \<and> list_all2 (serves a) requests bs'"
proof -
  from allocatePorts_loop_sound [OF assms [unfolded allocatePorts_def]]
  obtain bs' where b: "bs = sort_key pb_Host bs'" "list_all2 (serves a) requests bs'"
    "distinct (map pb_Host bs')" "pb_Host ` set bs' \<inter> set (used_ports existing) = {}"
    by auto
  then show "sorted (map pb_Host bs)" "set (map pb_Host bs) \<inter> set (used_ports existing) = {}"
    "\<exists>bs'. mset bs = mset bs' \<and> list_all2 (serves a) requests bs'"
    by auto
  have "mset (map pb_Host bs) = mset (map pb_Host bs')" using b(1) by simp
  with b(3) show "distinct (map pb_Host bs)" by (metis mset_eq_imp_distinct_iff)
qed

text \<open>A request that the code can serve when it has a port for it.\<close>

definition valid_request :: "port_binding_request \<Rightarrow> bool" where
  "valid_request r \<longleftrightarrow>
     0 < pbr_Guest r \<and> pbr_Guest r \<le> 65535 \<and> 0 \<le> pbr_Host r \<and> pbr_Host r \<le> 65535 \<and>
     norm_protocol (pbr_Protocol r) \<in> {''tcp'', ''udp''}"

definition auto_requests :: "port_binding_request list \<Rightarrow> nat" where
  "auto_requests reqs = length (filter (\<lambda>r. pbr_Host r = 0) reqs)"

lemma allocatePorts_loop_step:
  assumes "valid_request r"
    and "h = (if pbr_Host r = 0 then nextFreePort a used reserved else pbr_Host r)"
    and "h \<noteq> 0" "h \<notin> set used" "h \<notin> set reserved"
  shows "\<exists>b. allocatePorts_loop a used (r # reqs) reserved bs =
              allocatePorts_loop a used reqs (h # reserved) (bs @ [b])"
proof -
  have "\<not> (pbr_Guest r \<le> 0 \<or> pbr_Guest r > 65535)" "\<not> (pbr_Host r < 0 \<or> pbr_Host r > 65535)"
    "\<not> (norm_protocol (pbr_Protocol r) \<noteq> ''tcp'' \<and> norm_protocol (pbr_Protocol r) \<noteq> ''udp'')"
    using assms(1) by (auto simp: valid_request_def)
  then show ?thesis using assms(3-5)
    by (simp only: allocatePorts_loop.simps Let_def assms(2) [symmetric] if_False simp_thms) (rule exI, rule refl)
qed

declare allocatePorts_loop.simps(2) [simp del]

lemma allocatePorts_loop_complete:
  assumes "list_all valid_request reqs" "0 < al_portStart a"
    and "\<forall>r \<in> set reqs. pbr_Host r \<noteq> 0 \<longrightarrow>
           pbr_Host r \<notin> set used \<union> {al_portStart a..al_portEnd a}"
    and "distinct (filter (\<lambda>p. p \<noteq> 0) (map pbr_Host reqs))"
    and "set (map pbr_Host reqs) \<inter> set reserved \<subseteq> {0} \<union> {al_portStart a..al_portEnd a}"
    and "auto_requests reqs \<le> card ({al_portStart a..al_portEnd a} - set used - set reserved)"
  shows "\<exists>bs'. allocatePorts_loop a used reqs reserved bs = Ok bs'"
  using assms
proof (induction reqs arbitrary: reserved bs)
  case (Cons r reqs)
  let ?range = "{al_portStart a..al_portEnd a}"
  show ?case
  proof (cases "pbr_Host r = 0")
    case True
    let ?h = "nextFreePort a used reserved"
    have "card (?range - set used - set reserved) > 0"
      using Cons.prems(6) True by (simp add: auto_requests_def)
    then obtain q where q: "q \<in> ?range - set used - set reserved" by (fastforce simp: card_gt_0_iff)
    then have nz: "?h \<noteq> 0" unfolding nextFreePort_def
      using next_free_finds [of "al_portStart a" q] Cons.prems(2) by auto
    with next_free_least [of "al_portStart a" "al_portEnd a" used reserved ?h]
    have h: "?h \<in> ?range - set used - set reserved" by (auto simp: nextFreePort_def)
    obtain b where b: "allocatePorts_loop a used (r # reqs) reserved bs =
        allocatePorts_loop a used reqs (?h # reserved) (bs @ [b])"
      using allocatePorts_loop_step [of r ?h a used reserved reqs bs] Cons.prems(1) True nz h by auto
    have "?range - set used - set (?h # reserved) = (?range - set used - set reserved) - {?h}" by auto
    then have "card (?range - set used - set (?h # reserved)) = card (?range - set used - set reserved) - 1"
      using h by (simp only: card_Diff_singleton)
    then have "auto_requests reqs \<le> card (?range - set used - set (?h # reserved))"
      using Cons.prems(6) True by (simp add: auto_requests_def)
    then show ?thesis unfolding b using Cons.prems h True
      by (intro Cons.IH) auto
  next
    case False
    let ?h = "pbr_Host r"
    have nr: "?h \<notin> set used" "?h \<notin> ?range" "?h \<notin> set reserved"
      using Cons.prems(3,5) False by auto
    obtain b where b: "allocatePorts_loop a used (r # reqs) reserved bs =
        allocatePorts_loop a used reqs (?h # reserved) (bs @ [b])"
      using allocatePorts_loop_step [of r ?h a used reserved reqs bs] Cons.prems(1) False nr by auto
    have "?range - set used - set (?h # reserved) = ?range - set used - set reserved"
      using nr by auto
    then show ?thesis unfolding b using Cons.prems False
      by (intro Cons.IH) (auto simp: auto_requests_def)
  qed
qed simp

section \<open>Guest addresses\<close>

lemma u32ToIPv4_id [simp]: "u32ToIPv4 v = v"
  using AddrFrom4_As4 [of v] by (simp only: u32ToIPv4_def As4_def)

lemma ipv4ToU32_id [simp]: "ipv4ToU32 w = w"
  using AddrFrom4_As4 [of w] by (simp add: ipv4ToU32_def As4_def)

text \<open>The search written as a first fit over the host numbers of the prefix.\<close>

definition first_fit_ip :: "u32 \<Rightarrow> nat \<Rightarrow> string list \<Rightarrow> string option" where
  "first_fit_ip addr bits used =
     List.find (\<lambda>ip. ip \<notin> set used)
       (map (\<lambda>h. addr_String (mask4 addr bits + of_nat h)) [2..<2 ^ (32 - bits) - 1])"

lemma allocateGuestIP_loop_first_fit:
  assumes "bits \<le> 32" "unat maxHost \<le> 2 ^ (32 - bits) - 1"
  shows "allocateGuestIP_loop addr bits (mask4 addr bits) used host maxHost =
    (case List.find (\<lambda>ip. ip \<notin> set used)
       (map (\<lambda>h. addr_String (mask4 addr bits + of_nat h)) [unat host..<unat maxHost]) of
     None \<Rightarrow> Err NoGuestIP | Some ip \<Rightarrow> Ok ip)"
  using assms
proof (induction addr bits "mask4 addr bits" used host maxHost rule: allocateGuestIP_loop.induct)
  case (1 addr bits used host maxHost)
  show ?case
  proof (cases "host < maxHost")
    case True
    then have lt: "unat host < unat maxHost" by (simp add: word_less_nat_alt)
    then have "unat host < 2 ^ (32 - bits)" using "1.prems"(2) by linarith
    then have c: "contains4 addr bits (mask4 addr bits + host)"
      using "1.prems"(1) by (simp add: contains4_mask4_plus)
    have "[unat host..<unat maxHost] = unat host # [unat (host + 1)..<unat maxHost]"
      using lt True by (simp add: upt_conv_Cons unat_inc)
    then show ?thesis
      using True c 1 by (simp add: allocateGuestIP_loop.simps [of addr bits _ used host])
  next
    case False
    then have "unat maxHost \<le> unat host" by (simp add: word_le_nat_alt not_less)
    with False show ?thesis
      by (simp add: allocateGuestIP_loop.simps [of addr bits _ used host])
  qed
qed


definition used_ips :: "vm_metadata list \<Rightarrow> string list" where
  "used_ips existing = filter (\<lambda>ip. ip \<noteq> []) (map meta_GuestIP existing)"

lemma unat_max_host:
  assumes "bits \<le> 32"
  shows "unat (word_of_int (2 ^ nat (32 - int bits) - 1) :: u32) = 2 ^ (32 - bits) - 1"
proof -
  have n: "nat (32 - int bits) = 32 - bits" using assms by simp
  have "(2 :: nat) ^ (32 - bits) \<le> 2 ^ 32" by (rule power_increasing) simp_all
  then have lt: "(2 :: nat) ^ (32 - bits) - 1 < 2 ^ LENGTH(32)" by simp
  have "(2 :: int) ^ (32 - bits) - 1 = int (2 ^ (32 - bits) - 1)" by simp
  then show ?thesis unfolding n using lt
    by (metis of_int_of_nat_eq unat_of_nat_lt)
qed

lemma allocateGuestIP_eq:
  assumes "ParsePrefix (al_guestCIDR a) = Some \<lparr>pfx_addr = Addr4 addr, pfx_bits = bits\<rparr>"
    and "bits \<le> 30"
  shows "allocateGuestIP a existing =
    (case first_fit_ip addr bits (used_ips existing) of None \<Rightarrow> Err NoGuestIP | Some ip \<Rightarrow> Ok ip)"
proof -
  have b: "bits \<le> 32" using assms(2) by simp
  have "\<not> 32 - int bits \<le> 1" using assms(2) by simp
  then show ?thesis using assms(1) b unat_max_host [OF b]
    by (simp add: allocateGuestIP_def first_fit_ip_def used_ips_def
        allocateGuestIP_loop_first_fit [OF b])
qed

lemma ParsePrefix_bits:
  "ParsePrefix s = Some \<lparr>pfx_addr = Addr4 addr, pfx_bits = bits\<rparr> \<Longrightarrow> bits \<le> 32"
  by (auto simp: ParsePrefix_def Let_def Is4_def split: if_splits option.splits netip_addr.splits)

lemma first_fit_ip_SomeD:
  assumes "first_fit_ip addr bits used = Some ip"
  shows "\<exists>h. 2 \<le> h \<and> h < 2 ^ (32 - bits) - 1 \<and> ip = addr_String (mask4 addr bits + of_nat h) \<and> ip \<notin> set used"
proof -
  from assms obtain i where "i < length [2..<2 ^ (32 - bits) - 1]"
    "addr_String (mask4 addr bits + of_nat ([2..<2 ^ (32 - bits) - 1] ! i)) \<notin> set used"
    "ip = addr_String (mask4 addr bits + of_nat ([2..<2 ^ (32 - bits) - 1] ! i))"
    unfolding first_fit_ip_def find_Some_iff by auto
  then show ?thesis by (intro exI [of _ "[2..<2 ^ (32 - bits) - 1] ! i"]) auto
qed

lemma allocateGuestIP_OkD:
  assumes "allocateGuestIP a existing = Ok ip"
  obtains addr bits h where
    "ParsePrefix (al_guestCIDR a) = Some \<lparr>pfx_addr = Addr4 addr, pfx_bits = bits\<rparr>"
    "bits \<le> 30" "2 \<le> h" "h < 2 ^ (32 - bits) - 1"
    "ip = addr_String (mask4 addr bits + of_nat h)" "ip \<notin> set (used_ips existing)"
proof -
  from assms obtain addr bits where
    p: "ParsePrefix (al_guestCIDR a) = Some \<lparr>pfx_addr = Addr4 addr, pfx_bits = bits\<rparr>"
    and "\<not> 32 - int bits \<le> 1"
    by (auto simp: allocateGuestIP_def Let_def split: option.splits netip_addr.splits if_splits)
      (metis netip_prefix.surjective old.unit.exhaust)
  then have b: "bits \<le> 30" by simp
  from assms have "first_fit_ip addr bits (used_ips existing) = Some ip"
    by (simp add: allocateGuestIP_eq [OF p b] split: option.splits)
  from first_fit_ip_SomeD [OF this] p b that show ?thesis by blast
qed


section \<open>Unique resources\<close>

text \<open>No two VMs of a list share a guest address or a host port.\<close>

definition unique_resources :: "vm_metadata list \<Rightarrow> bool" where
  "unique_resources metas \<longleftrightarrow> distinct (used_ips metas) \<and> distinct (used_ports metas)"

text \<open>
  What a client of an allocator relies on: an allocation made against the metadata of the
  existing VMs clashes with none of them.
\<close>

locale resource_allocator =
  fixes alloc :: "vm_metadata list \<Rightarrow> port_binding_request list \<Rightarrow> ('e, string \<times> port_binding list) result"
  assumes ip_fresh: "alloc existing reqs = Ok (ip, bs) \<Longrightarrow> ip \<notin> set (used_ips existing)"
    and ports_fresh: "alloc existing reqs = Ok (ip, bs) \<Longrightarrow> set (map pb_Host bs) \<inter> set (used_ports existing) = {}"
    and ports_distinct: "alloc existing reqs = Ok (ip, bs) \<Longrightarrow> distinct (map pb_Host bs)"
begin

lemma add_keeps_unique:
  assumes "unique_resources existing" "alloc existing reqs = Ok (ip, bs)"
    and "meta_GuestIP m = ip" "meta_Ports m = bs"
  shows "unique_resources (m # existing)"
  using assms ip_fresh [OF assms(2)] ports_fresh [OF assms(2)] ports_distinct [OF assms(2)]
  by (auto simp: unique_resources_def used_ips_def used_ports_def)

end

lemma AllocateD:
  assumes "Allocate a existing reqs = Ok (ip, bs)"
  shows "allocateGuestIP a existing = Ok ip" "allocatePorts a existing reqs = Ok bs"
  using assms by (auto simp: Allocate_def split: sum.splits)

interpretation net_alloc: resource_allocator "Allocate a" for a
proof
  fix existing reqs ip bs
  assume "Allocate a existing reqs = Ok (ip, bs)"
  note d = AllocateD [OF this]
  from d(1) show "ip \<notin> set (used_ips existing)" by (rule allocateGuestIP_OkD)
  from d(2) show "set (map pb_Host bs) \<inter> set (used_ports existing) = {}" "distinct (map pb_Host bs)"
    by (rule allocatePorts_hosts)+
qed

section \<open>Sample data\<close>

text \<open>A VM that holds the first address of the default CIDR of \<open>src/internal/config/config.go\<close>.\<close>

definition sample_allocator :: allocator where
  "sample_allocator = NewAllocator 20000 20010 ''172.30.0.0/24''"

definition sample_vm :: vm_metadata where
  "sample_vm =
     zero_meta\<lparr>meta_ID := ''vm-1'', meta_GuestIP := ''172.30.0.2'',
       meta_Ports := [\<lparr>pb_Guest = 8080, pb_Host = 20000, pb_Protocol = ''tcp''\<rparr>]\<rparr>"

lemma sample_prefix:
  "ParsePrefix (al_guestCIDR sample_allocator) = Some \<lparr>pfx_addr = Addr4 0xAC1E0000, pfx_bits = 24\<rparr>"
  by code_simp

section \<open>Properties\<close>

text \<open>
  C34: Guest address allocation is first fit: for a valid IPv4 CIDR with at least two host bits,
  \<open>allocateGuestIP\<close> returns the least address of the prefix with host number from 2 up to the
  one before broadcast that no existing VM holds, and the error only when there is none.
\<close>

theorem allocateGuestIP_first_fit:
  assumes "ParsePrefix (al_guestCIDR a) = Some \<lparr>pfx_addr = Addr4 addr, pfx_bits = bits\<rparr>"
    and "bits \<le> 30"
  shows "allocateGuestIP a existing =
    (case List.find (\<lambda>ip. ip \<notin> set (map meta_GuestIP existing))
            (map (\<lambda>h. addr_String (mask4 addr bits + of_nat h)) [2..<2 ^ (32 - bits) - 1]) of
       None \<Rightarrow> Err NoGuestIP | Some ip \<Rightarrow> Ok ip)"
proof -
  have "first_fit_ip addr bits (used_ips existing) =
    List.find (\<lambda>ip. ip \<notin> set (map meta_GuestIP existing))
      (map (\<lambda>h. addr_String (mask4 addr bits + of_nat h)) [2..<2 ^ (32 - bits) - 1])"
    unfolding first_fit_ip_def by (rule find_cong) (auto simp: used_ips_def)
  then show ?thesis by (simp add: allocateGuestIP_eq [OF assms])
qed

theorem allocateGuestIP_first_fit_witness:
  "allocateGuestIP sample_allocator [sample_vm] = Ok ''172.30.0.3''"
proof -
  have "[2..<2 ^ (32 - 24) - 1] = 2 # 3 # [4..<2 ^ (32 - 24) - 1]"
    by (simp add: upt_conv_Cons)
  moreover have "addr_String (mask4 0xAC1E0000 24 + of_nat 2) = ''172.30.0.2''"
    "addr_String (mask4 0xAC1E0000 24 + of_nat 3) = ''172.30.0.3''"
    by code_simp+
  moreover have "meta_GuestIP sample_vm = ''172.30.0.2''" by (simp add: sample_vm_def)
  ultimately show ?thesis
    using allocateGuestIP_first_fit [OF sample_prefix, of "[sample_vm]"] by simp
qed



text \<open>
  C33: Port allocation succeeds whenever it can: if every request is valid, the host ports asked
  for are distinct, unused and outside the automatic range, and the range has as many unused ports
  as there are requests for an automatic port, then \<open>allocatePorts\<close> returns bindings.
\<close>

theorem allocatePorts_complete:
  assumes "list_all valid_request reqs" "0 < al_portStart a"
    and "\<forall>r \<in> set reqs. pbr_Host r \<noteq> 0 \<longrightarrow>
           pbr_Host r \<notin> set (used_ports existing) \<and> \<not> (al_portStart a \<le> pbr_Host r \<and> pbr_Host r \<le> al_portEnd a)"
    and "distinct (filter (\<lambda>p. p \<noteq> 0) (map pbr_Host reqs))"
    and "auto_requests reqs \<le> card ({al_portStart a..al_portEnd a} - set (used_ports existing))"
  shows "\<exists>bs. allocatePorts a existing reqs = Ok bs"
  unfolding allocatePorts_def
  using allocatePorts_loop_complete [of reqs a "used_ports existing" "[]" "[]"] assms by auto

theorem allocatePorts_complete_witness:
  "\<exists>bs. allocatePorts sample_allocator [sample_vm]
          [\<lparr>pbr_Guest = 80, pbr_Host = 0, pbr_Protocol = []\<rparr>, \<lparr>pbr_Guest = 22, pbr_Host = 2222, pbr_Protocol = ''TCP''\<rparr>]
        = Ok bs"
proof (rule allocatePorts_complete)
  have "{al_portStart sample_allocator..al_portEnd sample_allocator} - set (used_ports [sample_vm]) =
      {20001..20010}"
    by (auto simp: sample_allocator_def NewAllocator_def used_ports_def sample_vm_def zero_meta_def)
  then show "auto_requests [\<lparr>pbr_Guest = 80, pbr_Host = 0, pbr_Protocol = []\<rparr>, \<lparr>pbr_Guest = 22, pbr_Host = 2222, pbr_Protocol = ''TCP''\<rparr>]
      \<le> card ({al_portStart sample_allocator..al_portEnd sample_allocator} - set (used_ports [sample_vm]))"
    by (simp add: auto_requests_def)
  show "list_all valid_request [\<lparr>pbr_Guest = 80, pbr_Host = 0, pbr_Protocol = []\<rparr>, \<lparr>pbr_Guest = 22, pbr_Host = 2222, pbr_Protocol = ''TCP''\<rparr>]"
    by code_simp
qed (simp_all add: sample_allocator_def NewAllocator_def used_ports_def sample_vm_def zero_meta_def)

text \<open>
  The order of the requests matters: with a request for an automatic port before one that
  asks for the first free port of the range, the code gives that port to the first request and
  refuses the second as a duplicate of the payload, although the same two requests in the other
  order are served.
\<close>

theorem allocatePorts_order_dependent:
  assumes "valid_request g1" "valid_request g2" "pbr_Host g1 = 0" "pbr_Host g2 = al_portStart a"
    and "0 < al_portStart a" "al_portStart a < al_portEnd a"
    and "al_portStart a \<notin> set (used_ports existing)" "al_portStart a + 1 \<notin> set (used_ports existing)"
  shows "allocatePorts a existing [g1, g2] = Err (DuplicateHostPort (al_portStart a)) \<and>
         (\<exists>bs. allocatePorts a existing [g2, g1] = Ok bs)"
proof -
  have n0: "nextFreePort a (used_ports existing) [] = al_portStart a"
    using assms by (simp add: nextFreePort_def next_free.simps [of "al_portStart a"])
  have n1: "nextFreePort a (used_ports existing) [al_portStart a] = al_portStart a + 1"
    using assms
    by (simp add: nextFreePort_def next_free.simps [of "al_portStart a"] next_free.simps [of "al_portStart a + 1"])
  show ?thesis using assms n0 n1
    by (auto simp: allocatePorts_def valid_request_def Let_def allocatePorts_loop.simps(2))
qed

theorem allocatePorts_order_dependent_witness:
  "allocatePorts sample_allocator []
     [\<lparr>pbr_Guest = 80, pbr_Host = 0, pbr_Protocol = []\<rparr>, \<lparr>pbr_Guest = 443, pbr_Host = 20000, pbr_Protocol = []\<rparr>]
   = Err (DuplicateHostPort 20000)"
proof -
  have v: "valid_request \<lparr>pbr_Guest = 80, pbr_Host = 0, pbr_Protocol = []\<rparr>"
    "valid_request \<lparr>pbr_Guest = 443, pbr_Host = 20000, pbr_Protocol = []\<rparr>"
    by (simp_all add: valid_request_def norm_protocol_def)
  show ?thesis
    using allocatePorts_order_dependent [OF v, of sample_allocator "[]"]
    by (simp add: sample_allocator_def NewAllocator_def used_ports_def)
qed

text \<open>
  The names derived from a VM id fit the kernel's limit of 15 characters for an interface
  name, and two ids get the same tap and namespace names exactly when they agree on their first
  eight characters.
\<close>

theorem derived_names:
  "length (TapName vid) \<le> 12 \<and> length (NetNSName vid) \<le> 15 \<and>
   (TapName vid = TapName vid' \<longleftrightarrow> take 8 vid = take 8 vid') \<and>
   (NetNSName vid = NetNSName vid' \<longleftrightarrow> take 8 vid = take 8 vid')"
proof -
  have "(if length v > 8 then take 8 v else v) = take 8 v" for v :: string by simp
  then show ?thesis by (simp add: TapName_def NetNSName_def)
qed

end
