(* ===== verification/Go_Path.thy ===== *)
theory Go_Path
  imports Prelude
begin

text \<open>
  Go's lexical path operations (\<open>path/filepath\<close> on Unix): cleaning, joining and the parent
  directory, and the file a path names.  The working directory is the root directory, and there
  are no symbolic links, so a path names the component list that is left after \<open>.\<close> and \<open>..\<close>
  are worked off.
\<close>

section \<open>Definitions\<close>

text \<open>One component of a path, on a stack of the components so far (top first).\<close>

definition clean_step :: "bool \<Rightarrow> string list \<Rightarrow> string \<Rightarrow> string list" where
  "clean_step rooted stk seg =
     (if seg = [] \<or> seg = ''.'' then stk
      else if seg = ''..'' then
        (case stk of
           [] \<Rightarrow> if rooted then [] else [''..'']
         | t # ts \<Rightarrow> if t = ''..'' then ''..'' # stk else ts)
      else seg # stk)"

definition clean_segs :: "bool \<Rightarrow> string \<Rightarrow> string list" where
  "clean_segs rooted p = rev (foldl (clean_step rooted) [] (Split p CHR ''/''))"

definition path_Clean :: "string \<Rightarrow> string" where
  "path_Clean p =
     (if p = [] then ''.''
      else if hd p = CHR ''/'' then ''/'' @ Join (clean_segs True p) ''/''
      else if clean_segs False p = [] then ''.''
      else Join (clean_segs False p) ''/'')"

definition path_Join :: "string list \<Rightarrow> string" where
  "path_Join elems =
     (let es = filter (\<lambda>e. e \<noteq> []) elems in if es = [] then [] else path_Clean (Join es ''/''))"

definition path_Dir :: "string \<Rightarrow> string" where
  "path_Dir p = path_Clean (rev (dropWhile (\<lambda>c. c \<noteq> CHR ''/'') (rev p)))"

text \<open>The file a path names: its components from the root directory.\<close>

definition resolve :: "string \<Rightarrow> string list" where
  "resolve p = clean_segs True p"

text \<open>A single file name.\<close>

definition file_name :: "string \<Rightarrow> bool" where
  "file_name s \<longleftrightarrow> s \<noteq> [] \<and> s \<noteq> ''.'' \<and> s \<noteq> ''..'' \<and> CHR ''/'' \<notin> set s"

section \<open>Lemmas\<close>

lemma split_by_append:
  "p d \<Longrightarrow> split_by p (a @ d # b) = split_by p a @ split_by p b"
  by (induction a) auto

lemma Split_append: "Split (a @ d # b) d = Split a d @ Split b d"
  by (simp add: Split_def split_by_append)

lemma Split_plain: "d \<notin> set s \<Longrightarrow> Split s d = [s]"
  unfolding Split_def by (rule split_by_plain) auto

lemma clean_step_name: "file_name s \<Longrightarrow> clean_step r stk s = s # stk"
  by (simp add: clean_step_def file_name_def)

lemma clean_step_empty [simp]: "clean_step r stk [] = stk"
  by (simp add: clean_step_def)

lemma foldl_clean_names:
  "list_all file_name segs \<Longrightarrow> foldl (clean_step r) stk segs = rev segs @ stk"
  by (induction segs arbitrary: stk) (auto simp: clean_step_name)

lemma list_all_Split_no_sep: "list_all (\<lambda>s. d \<notin> set s) (Split s d)"
  using split_by_all [of "\<lambda>c. c = d" s] by (auto simp: Split_def list_all_iff)

lemma clean_names:
  assumes "list_all (\<lambda>s. CHR ''/'' \<notin> set s) segs" "list_all file_name stk"
  shows "list_all file_name (foldl (clean_step True) stk segs)"
  using assms
proof (induction segs arbitrary: stk)
  case (Cons s segs)
  have "list_all file_name (clean_step True stk s)"
  proof (cases "s = [] \<or> s = ''.'' \<or> s = ''..''")
    case True
    then show ?thesis using Cons.prems(2) by (cases stk) (auto simp: clean_step_def)
  next
    case False
    then have "file_name s" using Cons.prems(1) by (simp add: file_name_def)
    then show ?thesis using Cons.prems(2) by (simp add: clean_step_name)
  qed
  with Cons show ?case by simp
qed simp

lemma resolve_names: "list_all file_name (resolve p)"
  unfolding resolve_def clean_segs_def
  using clean_names [OF list_all_Split_no_sep, of "[]"] by simp

text \<open>Without a root the stack may keep leading \<open>..\<close>; taking them off gives the rooted result.\<close>

lemma clean_unrooted:
  assumes "list_all (\<lambda>s. CHR ''/'' \<notin> set s) segs" "list_all file_name nf"
  shows "\<exists>k. foldl (clean_step False) (nf @ replicate j ''..'') segs =
             foldl (clean_step True) nf segs @ replicate k ''..''"
  using assms
proof (induction segs arbitrary: nf j)
  case Nil
  show ?case by auto
next
  case (Cons s segs)
  have "\<exists>k. clean_step False (nf @ replicate j ''..'') s = clean_step True nf s @ replicate k ''..''"
  proof (cases "s = ''..'' \<and> nf = []")
    case True
    then show ?thesis by (cases j) (auto simp: clean_step_def intro: exI [of _ "Suc j"])
  next
    case False
    then show ?thesis using Cons.prems(2)
      by (intro exI [of _ j]) (auto simp: clean_step_def file_name_def split: list.splits)
  qed
  then obtain k where "clean_step False (nf @ replicate j ''..'') s = clean_step True nf s @ replicate k ''..''"
    by blast
  moreover have "list_all file_name (clean_step True nf s)"
    using clean_names [of "[s]" nf] Cons.prems by simp
  ultimately show ?case using Cons by simp
qed

lemma foldl_clean_dots: "foldl (clean_step True) [] (replicate k ''..'' @ segs) = foldl (clean_step True) [] segs"
  by (induction k) (auto simp: clean_step_def)

lemma foldl_clean_only_dots [simp]: "foldl (clean_step True) [] (replicate k ''..'') = []"
  using foldl_clean_dots [of k "[]"] by simp

lemma Split_Join_segs:
  "list_all (\<lambda>s. CHR ''/'' \<notin> set s) segs \<Longrightarrow> segs \<noteq> [] \<Longrightarrow> Split (Join segs ''/'') CHR ''/'' = segs"
  by (rule Split_Join) (auto simp: list_all_iff)

lemma resolve_path_Clean [simp]: "resolve (path_Clean p) = resolve p"
proof -
  let ?segs = "Split p CHR ''/''"
  have names: "list_all file_name (clean_segs True p)" using resolve_names [of p] by (simp add: resolve_def)
  then have ns: "list_all (\<lambda>s. CHR ''/'' \<notin> set s) (clean_segs True p)"
    by (auto simp: list_all_iff file_name_def)
  consider "p = []" | "p \<noteq> []" "hd p = CHR ''/''" | "p \<noteq> []" "hd p \<noteq> CHR ''/''" by blast
  then show ?thesis
  proof cases
    case 1
    then show ?thesis by (simp add: path_Clean_def resolve_def clean_segs_def Split_def clean_step_def)
  next
    case 2
    have "foldl (clean_step True) [] (Split (Join (clean_segs True p) ''/'') CHR ''/'') = rev (clean_segs True p)"
      using names ns
      by (cases "clean_segs True p = []") (auto simp: Split_Join_segs foldl_clean_names Split_plain)
    with 2 show ?thesis
      using Split_append [of "[]" "CHR ''/''" "Join (clean_segs True p) ''/''"]
      by (simp add: path_Clean_def resolve_def clean_segs_def Split_def)
  next
    case 3
    obtain k where k: "foldl (clean_step False) [] ?segs = foldl (clean_step True) [] ?segs @ replicate k ''..''"
      using clean_unrooted [OF list_all_Split_no_sep, of "[]" 0 p] by auto
    then have f: "clean_segs False p = replicate k ''..'' @ clean_segs True p"
      by (simp add: clean_segs_def)
    have "list_all (\<lambda>s. CHR ''/'' \<notin> set s) (clean_segs False p)"
      using ns by (auto simp: f list_all_iff)
    then have "foldl (clean_step True) [] (Split (path_Clean p) CHR ''/'') = rev (clean_segs True p)"
      using 3 names unfolding path_Clean_def
      by (auto simp: Split_Join_segs Split_plain f foldl_clean_dots foldl_clean_names clean_step_def)
    then show ?thesis by (simp add: resolve_def clean_segs_def)
  qed
qed

lemma Join_ne: "ws \<noteq> [] \<Longrightarrow> \<forall>s \<in> set ws. s \<noteq> [] \<Longrightarrow> Join ws sep \<noteq> []"
  by (induction ws sep rule: Join.induct) simp_all

lemma path_Clean_ne [simp]: "path_Clean p \<noteq> []"
proof -
  obtain k where k: "foldl (clean_step False) [] (Split p CHR ''/'') =
      foldl (clean_step True) [] (Split p CHR ''/'') @ replicate k ''..''"
    using clean_unrooted [OF list_all_Split_no_sep, of "[]" 0 p] by auto
  have "list_all file_name (clean_segs True p)" using resolve_names [of p] by (simp add: resolve_def)
  then have "\<forall>s \<in> set (clean_segs True p). s \<noteq> []" by (simp add: list_all_iff file_name_def)
  then have "\<forall>s \<in> set (clean_segs False p). s \<noteq> []"
    unfolding clean_segs_def k by auto
  then have "clean_segs False p \<noteq> [] \<Longrightarrow> Join (clean_segs False p) ''/'' \<noteq> []" by (intro Join_ne)
  then show ?thesis unfolding path_Clean_def by simp
qed

lemma path_Join_ne: "file_name s \<Longrightarrow> path_Join [d, s] \<noteq> []"
  by (simp add: path_Join_def file_name_def)

lemma resolve_append: "resolve (a @ CHR ''/'' # b) = rev (foldl (clean_step True) (rev (resolve a)) (Split b CHR ''/''))"
  by (simp add: resolve_def clean_segs_def Split_append)

lemma resolve_name: "file_name s \<Longrightarrow> resolve s = [s]"
  by (simp add: resolve_def clean_segs_def Split_plain file_name_def clean_step_def)

lemma resolve_Nil [simp]: "resolve [] = []"
  by (simp add: resolve_def clean_segs_def Split_def)

lemma resolve_path_Join:
  assumes "file_name s"
  shows "resolve (path_Join [d, s]) = resolve d @ [s]"
proof (cases "d = []")
  case True
  then show ?thesis using assms by (simp add: path_Join_def resolve_name) (simp add: file_name_def)
next
  case False
  moreover have "s \<noteq> []" "CHR ''/'' \<notin> set s" using assms by (auto simp: file_name_def)
  ultimately show ?thesis using assms
    by (simp add: path_Join_def resolve_append Split_plain clean_step_name)
qed

lemma path_Dir_slash:
  assumes "CHR ''/'' \<notin> set s"
  shows "resolve (path_Dir (a @ CHR ''/'' # s)) = resolve a"
proof -
  have "dropWhile (\<lambda>c. c \<noteq> CHR ''/'') (rev s @ CHR ''/'' # rev a) = CHR ''/'' # rev a"
    using assms by (subst dropWhile_append2) auto
  then show ?thesis
    by (simp add: path_Dir_def resolve_append Split_def)
qed

end
