(* ===== verification/Firecracker.thy ===== *)
theory Firecracker
  imports Network Go_Path
begin

text \<open>
  \<open>src/internal/firecracker\<close>: the rendering of a VM's Firecracker configuration with its boot
  arguments (\<open>config.go\<close>), the sequence of API requests that configures and starts a VM
  (\<open>configurator_raw.go\<close>) and the placeholder of the SDK build (\<open>configurator_sdk.go\<close>).
  The Firecracker API server on the other end of the socket, reached through Go's HTTP client, is
  a parameter: a function that answers a request with a status, or fails, in a state of its own.
\<close>

section \<open>Rendering the configuration\<close>

definition defaultBootArgs :: string where
  "defaultBootArgs = ''console=ttyS0 reboot=k panic=1 pci=off''"

definition defaultGuestMask :: string where
  "defaultGuestMask = ''255.255.255.0''"

definition defaultGuestIfName :: string where
  "defaultGuestIfName = ''eth0''"

definition hasKernelArgWithPrefix :: "string \<Rightarrow> string \<Rightarrow> bool" where
  "hasKernelArgWithPrefix bootArgs pre = list_ex (\<lambda>arg. HasPrefix arg pre) (Fields bootArgs)"

definition buildKernelIPArg :: "string \<Rightarrow> string option" where
  "buildKernelIPArg guestIP =
     (case ParseAddr (TrimSpace guestIP) of
        Some (Addr4 addr) \<Rightarrow>
          (let (o0, o1, o2, o3) = As4 addr;
               gatewayLast = (if o3 = 1 then 2 else 1);
               gateway = octets_String (o0, o1, o2, gatewayLast)
           in Some (''ip='' @ addr_String addr @ ''::'' @ gateway @ '':'' @ defaultGuestMask @ ''::'' @
                    defaultGuestIfName @ '':off''))
      | _ \<Rightarrow> None)"

definition resolvedBootArgs :: "string \<Rightarrow> string \<Rightarrow> string" where
  "resolvedBootArgs requested guestIP =
     (let bootArgs0 = TrimSpace requested;
          bootArgs1 = (if bootArgs0 = [] then defaultBootArgs else bootArgs0);
          bootArgs2 =
            (if \<not> hasKernelArgWithPrefix bootArgs1 ''ip='' then
               (case buildKernelIPArg guestIP of
                  Some kernelIPArg \<Rightarrow> bootArgs1 @ '' '' @ kernelIPArg
                | None \<Rightarrow> bootArgs1)
             else bootArgs1)
      in Join (Fields bootArgs2) '' '')"

definition RenderVMConfig :: "create_vm_request \<Rightarrow> vm_metadata \<Rightarrow> vm_config" where
  "RenderVMConfig req meta =
     (let bootArgs = resolvedBootArgs (req_BootArgs req) (meta_GuestIP meta);
          drives = [\<lparr>dr_DriveID = ''rootfs'', dr_PathOnHost = req_RootFS req,
                     dr_IsRootDevice = True, dr_IsReadOnly = False\<rparr>];
          drives' =
            (if TrimSpace (req_DataDisk req) \<noteq> [] then
               drives @ [\<lparr>dr_DriveID = ''data'', dr_PathOnHost = req_DataDisk req,
                          dr_IsRootDevice = False, dr_IsReadOnly = False\<rparr>]
             else drives)
      in \<lparr>cfg_BootSource = \<lparr>bs_KernelImagePath = req_Kernel req, bs_BootArgs = bootArgs\<rparr>,
          cfg_Drives = drives',
          cfg_MachineConfig = \<lparr>mc_VCPUCount = req_VCPU req, mc_MemSizeMiB = req_MemMiB req, mc_SMT = False\<rparr>,
          cfg_NetworkInterfaces =
            [\<lparr>ni_IfaceID = ''eth0'', ni_HostDevName = meta_TapName meta, ni_GuestMAC = GuestMAC (meta_ID meta)\<rparr>],
          cfg_Vsock = None\<rparr>)"

section \<open>Configuring a VM over its API socket\<close>

text \<open>
  One request of the API: method, endpoint and JSON body.  A server answers with its new state
  and either a transport error or a status code.
\<close>

record api_request =
  ar_Method :: string
  ar_Endpoint :: string
  ar_Body :: json

type_synonym 's api_server = "'s \<Rightarrow> api_request \<Rightarrow> 's \<times> (string, int) result"

datatype configure_error =
    TransportError string string
  | APIStatus string int
  | SDKPlaceholder

definition doJSON ::
  "'s api_server \<Rightarrow> string \<Rightarrow> string \<Rightarrow> json \<Rightarrow> string \<Rightarrow> 's \<Rightarrow> 's \<times> (configure_error, unit) result" where
  "doJSON srv httpMethod endpoint payload what s =
     (case srv s \<lparr>ar_Method = httpMethod, ar_Endpoint = endpoint, ar_Body = payload\<rparr> of
        (s', Err e) \<Rightarrow> (s', Err (TransportError what e))
      | (s', Ok status) \<Rightarrow>
          if status < 200 \<or> status \<ge> 300 then (s', Err (APIStatus what status)) else (s', Ok ()))"

text \<open>\<open>url.PathEscape\<close>: unreserved characters and the sub-delimiters it keeps, others as \<open>%XX\<close>.\<close>

definition path_unescaped :: "char \<Rightarrow> bool" where
  "path_unescaped c \<longleftrightarrow>
     is_digit c \<or> (97 \<le> (of_char c :: nat) \<and> (of_char c :: nat) \<le> 122) \<or>
     (65 \<le> (of_char c :: nat) \<and> (of_char c :: nat) \<le> 90) \<or> c \<in> set ''-_.~$&+=:@''"

definition PathEscape :: "string \<Rightarrow> string" where
  "PathEscape s =
     concat (map (\<lambda>c. if path_unescaped c then [c] else ''%'' @ ToUpper (hex_byte (of_nat (of_char c)))) s)"

text \<open>
  The requests \<open>ConfigureAndStart\<close> sends, in the order of the code, each with the text that
  names it in an error.
\<close>

definition configure_requests :: "vm_config \<Rightarrow> (string \<times> json \<times> string) list" where
  "configure_requests cfg =
     [(''/boot-source'', enc_boot_source (cfg_BootSource cfg), ''boot-source''),
      (''/machine-config'', enc_machine_config (cfg_MachineConfig cfg), ''machine-config'')] @
     map (\<lambda>d. (path_Join [''/drives'', PathEscape (dr_DriveID d)], enc_drive d, ''drive '' @ dr_DriveID d)) (cfg_Drives cfg) @
     map (\<lambda>n. (path_Join [''/network-interfaces'', PathEscape (ni_IfaceID n)], enc_network_interface n,
               ''network interface '' @ ni_IfaceID n)) (cfg_NetworkInterfaces cfg) @
     (case cfg_Vsock cfg of None \<Rightarrow> [] | Some v \<Rightarrow> [(''/vsock'', enc_vsock v, ''vsock'')]) @
     [(''/actions'', JObj [(''action_type'', JStr ''InstanceStart'')], [])]"

fun send_all ::
  "'s api_server \<Rightarrow> (string \<times> json \<times> string) list \<Rightarrow> 's \<Rightarrow> 's \<times> (configure_error, unit) result" where
  "send_all srv [] s = (s, Ok ())"
| "send_all srv ((endpoint, body, what) # rs) s =
     (case doJSON srv ''PUT'' endpoint body what s of
        (s', Err e) \<Rightarrow> (s', Err e)
      | (s', Ok _) \<Rightarrow> send_all srv rs s')"

definition ConfigureAndStart ::
  "'s api_server \<Rightarrow> vm_config \<Rightarrow> 's \<Rightarrow> 's \<times> (configure_error, unit) result" where
  "ConfigureAndStart srv cfg s = send_all srv (configure_requests cfg) s"

definition SDK_ConfigureAndStart :: "vm_config \<Rightarrow> 's \<Rightarrow> 's \<times> (configure_error, unit) result" where
  "SDK_ConfigureAndStart cfg s = (s, Err SDKPlaceholder)"

section \<open>Lemmas\<close>

lemma Fields_Nil [simp]: "Fields [] = []"
  by (simp add: Fields_def)

lemma Fields_append_space: "is_space d \<Longrightarrow> Fields (a @ d # b) = Fields a @ Fields b"
  by (simp add: Fields_def split_by_append)

lemma Fields_word: "w \<noteq> [] \<Longrightarrow> \<forall>c \<in> set w. \<not> is_space c \<Longrightarrow> Fields w = [w]"
  by (simp add: Fields_def split_by_plain)

lemma Fields_words: "w \<in> set (Fields s) \<Longrightarrow> w \<noteq> [] \<and> (\<forall>c \<in> set w. \<not> is_space c)"
  using split_by_no_sep [of w is_space s] by (auto simp: Fields_def)

lemma Fields_Join_words:
  "\<forall>w \<in> set ws. w \<noteq> [] \<and> (\<forall>c \<in> set w. \<not> is_space c) \<Longrightarrow> Fields (Join ws '' '') = ws"
proof (induction ws)
  case (Cons w ws)
  have sp: "is_space CHR '' ''" by (simp add: is_space_def)
  from Cons show ?case
    by (cases "ws = []") (simp_all add: Fields_word Join_Cons_ne Fields_append_space [OF sp])
qed simp

lemma Fields_Join_Fields [simp]: "Fields (Join (Fields s) '' '') = Fields s"
  by (rule Fields_Join_words) (blast dest: Fields_words)

text \<open>The reading of \<open>Fields\<close> does not depend on white space at the ends.\<close>

lemma Fields_dropWhile: "Fields (dropWhile is_space s) = Fields s"
  by (induction s) (auto simp: Fields_def)

lemma Fields_snoc_space: "is_space d \<Longrightarrow> Fields (a @ [d]) = Fields a"
  using Fields_append_space [of d a "[]"] by simp

lemma Fields_rev_dropWhile: "Fields (rev (dropWhile is_space s)) = Fields (rev s)"
  by (induction s) (auto simp: Fields_snoc_space)

lemma Fields_TrimSpace [simp]: "Fields (TrimSpace s) = Fields s"
  by (metis TrimSpace_def Fields_dropWhile Fields_rev_dropWhile rev_rev_ident)

text \<open>The kernel argument a guest address gives.\<close>

definition kernel_ip :: "u32 \<Rightarrow> string" where
  "kernel_ip addr =
     (let (o0, o1, o2, o3) = As4 addr
      in ''ip='' @ addr_String addr @ ''::'' @ octets_String (o0, o1, o2, if o3 = 1 then 2 else 1) @
         '':255.255.255.0::eth0:off'')"

lemma buildKernelIPArg_addr: "buildKernelIPArg (addr_String addr) = Some (kernel_ip addr)"
  by (simp add: buildKernelIPArg_def addr_String_no_space TrimSpace_no_space ParseAddr_addr_String
      kernel_ip_def Let_def defaultGuestMask_def defaultGuestIfName_def split: prod.splits)

lemma octets_String_no_space: "c \<in> set (octets_String q) \<Longrightarrow> \<not> is_space c"
  using addr_String_no_space [of c "AddrFrom4 q"] by (simp add: addr_String_def As4_AddrFrom4)

lemma kernel_ip_word: "kernel_ip addr \<noteq> []" "c \<in> set (kernel_ip addr) \<Longrightarrow> \<not> is_space c"
proof -
  obtain o0 o1 o2 o3 where q: "As4 addr = (o0, o1, o2, o3)" by (cases "As4 addr")
  show "kernel_ip addr \<noteq> []" by (simp add: kernel_ip_def q)
  assume "c \<in> set (kernel_ip addr)"
  then have "c \<in> set ''ip=:255.255.255.0::eth0:off'' \<or> c \<in> set (addr_String addr) \<or>
      c \<in> set (octets_String (o0, o1, o2, if o3 = 1 then 2 else 1))"
    unfolding kernel_ip_def q Let_def prod.case set_append by (auto simp del: octets_String.simps)
  then show "\<not> is_space c"
    using addr_String_no_space octets_String_no_space
    by (elim disjE) (auto simp: is_space_def simp del: octets_String.simps)
qed

lemma Fields_add_arg:
  assumes "w \<noteq> []" "\<And>c. c \<in> set w \<Longrightarrow> \<not> is_space c"
  shows "Fields (s @ '' '' @ w) = Fields s @ [w]"
  using assms Fields_append_space [of "CHR '' ''" s w] Fields_word [of w] by (simp add: is_space_def)

text \<open>A server that keeps the requests it was sent, with its answers.\<close>

definition logged ::
  "'s api_server \<Rightarrow> ((api_request \<times> (string, int) result) list \<times> 's) api_server" where
  "logged srv = (\<lambda>(log, s) r. case srv s r of (s', a) \<Rightarrow> ((log @ [(r, a)], s'), a))"

definition accepted :: "(string, int) result \<Rightarrow> bool" where
  "accepted a = (case a of Err _ \<Rightarrow> False | Ok status \<Rightarrow> 200 \<le> status \<and> status < 300)"

definition put_requests :: "(string \<times> json \<times> string) list \<Rightarrow> api_request list" where
  "put_requests = map (\<lambda>(e, b, w). \<lparr>ar_Method = ''PUT'', ar_Endpoint = e, ar_Body = b\<rparr>)"

lemma send_all_log:
  assumes "send_all (logged srv) rs (log, s) = ((log', s'), res)"
  shows "\<exists>sent. log' = log @ sent \<and> prefix (map fst sent) (put_requests rs) \<and>
           list_all (\<lambda>(r, a). accepted a) (butlast sent) \<and>
           (res = Ok () \<longleftrightarrow> map fst sent = put_requests rs \<and> list_all (\<lambda>(r, a). accepted a) sent)"
  using assms
proof (induction rs arbitrary: log s)
  case Nil
  then show ?case by (auto simp: put_requests_def)
next
  case (Cons r rs)
  obtain e b w where r: "r = (e, b, w)" by (cases r)
  let ?q = "\<lparr>ar_Method = ''PUT'', ar_Endpoint = e, ar_Body = b\<rparr>"
  obtain s1 a where a: "srv s ?q = (s1, a)" by fastforce
  have pr: "put_requests (r # rs) = ?q # put_requests rs" by (simp add: put_requests_def r)
  show ?case
  proof (cases "accepted a")
    case True
    then have "send_all (logged srv) rs (log @ [(?q, a)], s1) = ((log', s'), res)"
      using Cons.prems a by (auto simp: r doJSON_def logged_def accepted_def split: sum.splits)
    from Cons.IH [OF this] obtain sent where
      "log' = (log @ [(?q, a)]) @ sent" "prefix (map fst sent) (put_requests rs)"
      "list_all (\<lambda>(r, a). accepted a) (butlast sent)"
      "(res = Ok () \<longleftrightarrow> map fst sent = put_requests rs \<and> list_all (\<lambda>(r, a). accepted a) sent)"
      by blast
    with True show ?thesis by (intro exI [of _ "(?q, a) # sent"]) (auto simp: pr)
  next
    case False
    then have "log' = log @ [(?q, a)]" "res \<noteq> Ok ()"
      using Cons.prems a by (auto simp: r doJSON_def logged_def accepted_def split: sum.splits if_splits)
    with False show ?thesis by (intro exI [of _ "[(?q, a)]"]) (auto simp: pr)
  qed
qed

definition instance_start :: api_request where
  "instance_start =
     \<lparr>ar_Method = ''PUT'', ar_Endpoint = ''/actions'', ar_Body = JObj [(''action_type'', JStr ''InstanceStart'')]\<rparr>"

lemma put_requests_configure:
  "put_requests (configure_requests cfg) = butlast (put_requests (configure_requests cfg)) @ [instance_start]"
  by (simp add: configure_requests_def put_requests_def instance_start_def butlast_append)

section \<open>Properties\<close>

text \<open>
  Boot arguments.  For a VM with an IPv4 guest address, the rendered arguments are the words
  of the request (or of the default when the request is blank), in order; when none of them is an
  \<open>ip=\<close> argument, exactly one is added at the end, built from the guest address.  The result
  always has an \<open>ip=\<close> argument, and has no leading, trailing or repeated blanks.
\<close>

theorem resolvedBootArgs_words:
  "(let base = Fields (if TrimSpace requested = [] then defaultBootArgs else requested);
        rendered = resolvedBootArgs requested (addr_String addr);
        args = Fields rendered
    in args = base @ (if list_ex (\<lambda>w. HasPrefix w ''ip='') base then [] else [kernel_ip addr]) \<and>
       hasKernelArgWithPrefix rendered ''ip='' \<and> rendered = Join args '' '')"
proof -
  let ?base = "Fields (if TrimSpace requested = [] then defaultBootArgs else requested)"
  let ?r = "resolvedBootArgs requested (addr_String addr)"
  have b1: "Fields (if TrimSpace requested = [] then defaultBootArgs else TrimSpace requested) = ?base"
    by simp
  have add: "Fields (s @ CHR '' '' # kernel_ip addr) = Fields s @ [kernel_ip addr]" for s
    using Fields_add_arg [of "kernel_ip addr" s] kernel_ip_word [where addr = addr] by simp
  have args: "Fields ?r = ?base @ (if list_ex (\<lambda>w. HasPrefix w ''ip='') ?base then [] else [kernel_ip addr])"
    unfolding resolvedBootArgs_def Let_def buildKernelIPArg_addr hasKernelArgWithPrefix_def option.case b1
    by (auto simp: add simp del: HasPrefix_iff)
  have "hasKernelArgWithPrefix ?r ''ip=''"
    unfolding hasKernelArgWithPrefix_def args
    by (auto simp: kernel_ip_def Let_def split: prod.splits)
  moreover have "?r = Join (Fields ?r) '' ''" by (simp add: resolvedBootArgs_def Let_def)
  ultimately show ?thesis unfolding Let_def using args by blast
qed


text \<open>A server that refuses the machine configuration: the drives are never sent.\<close>

definition refusing_server :: "nat api_server" where
  "refusing_server n r = (Suc n, Ok (if ar_Endpoint r = ''/machine-config'' then 400 else 204))"

definition sample_config :: vm_config where
  "sample_config = zero_config
     \<lparr>cfg_Drives := [\<lparr>dr_DriveID = ''rootfs'', dr_PathOnHost = ''/r'', dr_IsRootDevice = True, dr_IsReadOnly = False\<rparr>]\<rparr>"


end
