(* ===== verification/OS.thy ===== *)
theory OS
  imports Go_Path Model
begin

text \<open>
  The part of Go's package \<open>os\<close> that the daemon uses, over a file system state.  A file system is
  an association list from component lists to nodes; the root directory \<open>[]\<close> is always there.
  A file's content is either a text that \<open>encoding/json\<close> reads as one document (\<open>JSONDoc\<close>) or
  a text that it does not read (\<open>Raw\<close>); the layout of a JSON text is not distinguished.  File
  modes are not modelled.

  Every system call can fail for a reason of the operating system (permissions, full disk, I/O
  errors): the environment decides which calls do.  The environment also chooses the number in
  the names of temporary files and what a failed write leaves in its file.
\<close>

section \<open>State and environment\<close>

datatype body = JSONDoc json | Raw string

datatype node = NDir | NFile body | NSocket

type_synonym fs = "(string list \<times> node) list"

datatype oserr = ENOENT | ENOTDIR | EISDIR | EEXIST | ENOTEMPTY | EINVAL | EIO

datatype oscall = CStat | CMkdir | CReadDir | CReadFile | COpen | CCreateTemp | CWrite | CClose | CChmod | CRename | CRemove | CFlock

record os_env =
  os_fault :: "oscall \<Rightarrow> string list \<Rightarrow> fs \<Rightarrow> bool"
  os_tmp :: "fs \<Rightarrow> nat"
  os_partial :: "body \<Rightarrow> body"

definition fs_get :: "fs \<Rightarrow> string list \<Rightarrow> node option" where
  "fs_get fs p = (if p = [] then Some NDir else map_of fs p)"

definition fs_put :: "string list \<Rightarrow> node \<Rightarrow> fs \<Rightarrow> fs" where
  "fs_put p n fs = (p, n) # filter (\<lambda>(q, _). q \<noteq> p) fs"

definition fs_del :: "string list \<Rightarrow> fs \<Rightarrow> fs" where
  "fs_del p fs = filter (\<lambda>(q, _). q \<noteq> p) fs"

text \<open>Path lookup, from the directory \<open>cur\<close> on: every directory on the way has to be there.\<close>

fun lookup_from :: "fs \<Rightarrow> string list \<Rightarrow> string list \<Rightarrow> (oserr, node) result" where
  "lookup_from fs cur [] = (case fs_get fs cur of None \<Rightarrow> Err ENOENT | Some n \<Rightarrow> Ok n)"
| "lookup_from fs cur (x # xs) =
     (case fs_get fs cur of
        None \<Rightarrow> Err ENOENT
      | Some NDir \<Rightarrow> lookup_from fs (cur @ [x]) xs
      | Some _ \<Rightarrow> Err ENOTDIR)"

definition lookup :: "fs \<Rightarrow> string list \<Rightarrow> (oserr, node) result" where
  "lookup fs p = lookup_from fs [] p"

text \<open>The directory that holds an entry exists.\<close>

definition parent_dir :: "fs \<Rightarrow> string list \<Rightarrow> (oserr, unit) result" where
  "parent_dir fs p =
     (case lookup fs (butlast p) of
        Err e \<Rightarrow> Err e
      | Ok NDir \<Rightarrow> Ok ()
      | Ok _ \<Rightarrow> Err ENOTDIR)"

section \<open>Calls\<close>

definition os_Stat :: "os_env \<Rightarrow> string \<Rightarrow> fs \<Rightarrow> (oserr, node) result" where
  "os_Stat env path fs =
     (let p = resolve path
      in if path = [] then Err ENOENT
         else if os_fault env CStat p fs then Err EIO else lookup fs p)"

text \<open>\<open>os.MkdirAll\<close>: the directories of a path from the top, each made when it is missing.\<close>

fun mkdirs :: "os_env \<Rightarrow> string list \<Rightarrow> string list \<Rightarrow> fs \<Rightarrow> fs \<times> (oserr, unit) result" where
  "mkdirs env cur [] fs = (fs, Ok ())"
| "mkdirs env cur (x # xs) fs =
     (let p = cur @ [x]
      in case fs_get fs p of
           Some NDir \<Rightarrow> mkdirs env p xs fs
         | Some _ \<Rightarrow> (fs, Err ENOTDIR)
         | None \<Rightarrow>
             if os_fault env CMkdir p fs then (fs, Err EIO)
             else mkdirs env p xs (fs_put p NDir fs))"

definition os_MkdirAll :: "os_env \<Rightarrow> string \<Rightarrow> fs \<Rightarrow> fs \<times> (oserr, unit) result" where
  "os_MkdirAll env path fs =
     (if path = [] then (fs, Err ENOENT) else mkdirs env [] (resolve path) fs)"

text \<open>\<open>os.ReadDir\<close>: the entries of a directory by name, each with whether it is a directory.\<close>

definition children :: "fs \<Rightarrow> string list \<Rightarrow> (string \<times> bool) list" where
  "children fs d =
     map (\<lambda>(q, n). (last q, n = NDir)) (filter (\<lambda>(q, n). q \<noteq> [] \<and> butlast q = d) fs)"

definition os_ReadDir :: "os_env \<Rightarrow> string \<Rightarrow> fs \<Rightarrow> (oserr, (string \<times> bool) list) result" where
  "os_ReadDir env path fs =
     (let p = resolve path
      in if path = [] then Err ENOENT
         else if os_fault env CReadDir p fs then Err EIO
         else case lookup fs p of
                Err e \<Rightarrow> Err e
              | Ok NDir \<Rightarrow> Ok (sort_key fst (children fs p))
              | Ok _ \<Rightarrow> Err ENOTDIR)"

definition os_ReadFile :: "os_env \<Rightarrow> string \<Rightarrow> fs \<Rightarrow> (oserr, body) result" where
  "os_ReadFile env path fs =
     (let p = resolve path
      in if path = [] then Err ENOENT
         else if os_fault env CReadFile p fs then Err EIO
         else case lookup fs p of
                Err e \<Rightarrow> Err e
              | Ok (NFile b) \<Rightarrow> Ok b
              | Ok NDir \<Rightarrow> Err EISDIR
              | Ok NSocket \<Rightarrow> Err EIO)"

text \<open>
  \<open>os.CreateTemp(dir, ".tmp-*")\<close> makes a new empty file and returns its path.  It fails when the
  name chosen is taken, as the call does when its attempts are used up.
\<close>

definition os_CreateTemp :: "os_env \<Rightarrow> string \<Rightarrow> fs \<Rightarrow> fs \<times> (oserr, string) result" where
  "os_CreateTemp env dir fs =
     (let path = path_Join [dir, ''.tmp-'' @ dec (os_tmp env fs)]; p = resolve path
      in if os_fault env CCreateTemp p fs then (fs, Err EIO)
         else case parent_dir fs p of
                Err e \<Rightarrow> (fs, Err e)
              | Ok _ \<Rightarrow>
                  (case fs_get fs p of
                     Some _ \<Rightarrow> (fs, Err EEXIST)
                   | None \<Rightarrow> (fs_put p (NFile (Raw [])) fs, Ok path)))"

text \<open>\<open>os.OpenFile\<close> with \<open>O_CREATE|O_RDWR\<close>: a missing file is made, empty.\<close>

definition os_OpenCreate :: "os_env \<Rightarrow> string \<Rightarrow> fs \<Rightarrow> fs \<times> (oserr, unit) result" where
  "os_OpenCreate env path fs =
     (let p = resolve path
      in if path = [] then (fs, Err ENOENT)
         else if os_fault env COpen p fs then (fs, Err EIO)
         else case lookup fs p of
                Ok (NFile _) \<Rightarrow> (fs, Ok ())
              | Ok NDir \<Rightarrow> (fs, Err EISDIR)
              | Ok NSocket \<Rightarrow> (fs, Err EIO)
              | Err e \<Rightarrow>
                  (case parent_dir fs p of
                     Err e' \<Rightarrow> (fs, Err e')
                   | Ok _ \<Rightarrow> (fs_put p (NFile (Raw [])) fs, Ok ())))"

text \<open>Writing the whole content to a file just created and open, and closing it.\<close>

definition file_Write :: "os_env \<Rightarrow> string \<Rightarrow> body \<Rightarrow> fs \<Rightarrow> fs \<times> (oserr, unit) result" where
  "file_Write env path b fs =
     (let p = resolve path
      in if os_fault env CWrite p fs then (fs_put p (NFile (os_partial env b)) fs, Err EIO)
         else (fs_put p (NFile b) fs, Ok ()))"

definition file_Close :: "os_env \<Rightarrow> string \<Rightarrow> fs \<Rightarrow> (oserr, unit) result" where
  "file_Close env path fs = (if os_fault env CClose (resolve path) fs then Err EIO else Ok ())"

definition os_Chmod :: "os_env \<Rightarrow> string \<Rightarrow> fs \<Rightarrow> (oserr, unit) result" where
  "os_Chmod env path fs =
     (let p = resolve path
      in if os_fault env CChmod p fs then Err EIO
         else case lookup fs p of Err e \<Rightarrow> Err e | Ok _ \<Rightarrow> Ok ())"

text \<open>\<open>os.Rename\<close> of a file: it replaces a file of the new name, never a directory.\<close>

definition os_Rename :: "os_env \<Rightarrow> string \<Rightarrow> string \<Rightarrow> fs \<Rightarrow> fs \<times> (oserr, unit) result" where
  "os_Rename env oldpath newpath fs =
     (let p = resolve oldpath; q = resolve newpath
      in if os_fault env CRename p fs then (fs, Err EIO)
         else case lookup fs p of
                Err e \<Rightarrow> (fs, Err e)
              | Ok n \<Rightarrow>
                  (case parent_dir fs q of
                     Err e \<Rightarrow> (fs, Err e)
                   | Ok _ \<Rightarrow>
                       if fs_get fs q = Some NDir then (fs, Err EEXIST)
                       else (fs_put q n (fs_del p fs), Ok ())))"

text \<open>\<open>os.Remove\<close>: a file or an empty directory.\<close>

definition os_Remove :: "os_env \<Rightarrow> string \<Rightarrow> fs \<Rightarrow> fs \<times> (oserr, unit) result" where
  "os_Remove env path fs =
     (let p = resolve path
      in if os_fault env CRemove p fs then (fs, Err EIO)
         else case lookup fs p of
                Err e \<Rightarrow> (fs, Err e)
              | Ok NDir \<Rightarrow>
                  if p = [] \<or> children fs p \<noteq> [] then (fs, Err ENOTEMPTY) else (fs_del p fs, Ok ())
              | Ok _ \<Rightarrow> (fs_del p fs, Ok ()))"

text \<open>
  \<open>os.RemoveAll\<close>: it refuses a path that ends in a dot, does nothing when the path is not there,
  and otherwise removes every entry below the path that can be removed; an entry stays when it or
  an entry below it cannot be removed, and then the call fails.
\<close>

definition removable :: "os_env \<Rightarrow> fs \<Rightarrow> string list \<Rightarrow> bool" where
  "removable env fs q \<longleftrightarrow>
     list_all (\<lambda>(r, _). prefix q r \<longrightarrow> \<not> os_fault env CRemove r fs) fs \<and> q \<noteq> []"

definition os_RemoveAll :: "os_env \<Rightarrow> string \<Rightarrow> fs \<Rightarrow> fs \<times> (oserr, unit) result" where
  "os_RemoveAll env path fs =
     (let p = resolve path
      in if path = [] then (fs, Ok ())
         else if path = ''.'' \<or> HasSuffix path ''/.'' then (fs, Err EINVAL)
         else case lookup fs p of
                Err ENOENT \<Rightarrow> (fs, Ok ())
              | Err e \<Rightarrow> (fs, Err e)
              | Ok _ \<Rightarrow>
                  (filter (\<lambda>(q, _). \<not> (prefix p q \<and> removable env fs q)) fs,
                   if removable env fs p then Ok () else Err EIO))"

section \<open>Well-formed file systems\<close>

text \<open>Every entry has a name, its directory exists, and no entry is listed twice.\<close>

definition fs_wf :: "fs \<Rightarrow> bool" where
  "fs_wf fs \<longleftrightarrow>
     distinct (map fst fs) \<and>
     list_all (\<lambda>(p, _). p \<noteq> [] \<and> list_all file_name p \<and> fs_get fs (butlast p) = Some NDir) fs"

section \<open>Lemmas on the state\<close>

lemma fs_get_root [simp]: "fs_get fs [] = Some NDir"
  by (simp add: fs_get_def)

lemma map_of_filter_key: "map_of (filter (\<lambda>(q, _). P q) fs) q = (if P q then map_of fs q else None)"
  by (induction fs) auto

lemma fs_get_put [simp]: "p \<noteq> [] \<Longrightarrow> fs_get (fs_put p n fs) q = (if q = p then Some n else fs_get fs q)"
  by (simp add: fs_get_def fs_put_def map_of_filter_key)

lemma fs_get_del [simp]: "p \<noteq> [] \<Longrightarrow> fs_get (fs_del p fs) q = (if q = p then None else fs_get fs q)"
  by (simp add: fs_get_def fs_del_def map_of_filter_key)

lemma distinct_filter_keys: "distinct (map fst fs) \<Longrightarrow> distinct (map fst (filter P fs))"
  by (induction fs) (auto simp: image_iff)

lemma fs_wf_iff:
  "fs_wf fs \<longleftrightarrow> distinct (map fst fs) \<and>
     (\<forall>p n. map_of fs p = Some n \<longrightarrow> p \<noteq> [] \<and> list_all file_name p \<and> fs_get fs (butlast p) = Some NDir)"
proof -
  have "distinct (map fst fs) \<Longrightarrow> map_of fs p = Some n \<longleftrightarrow> (p, n) \<in> set fs" for p n by simp
  then show ?thesis unfolding fs_wf_def list_all_iff by fastforce
qed

lemma fs_wf_get:
  assumes "fs_wf fs" "fs_get fs p = Some n" "p \<noteq> []"
  shows "list_all file_name p" "fs_get fs (butlast p) = Some NDir"
  using assms by (auto simp: fs_wf_iff fs_get_def split: if_splits)

lemma fs_wfI:
  assumes "distinct (map fst fs)" "map_of fs [] = None"
    and "\<And>p n. p \<noteq> [] \<Longrightarrow> fs_get fs p = Some n \<Longrightarrow> list_all file_name p \<and> fs_get fs (butlast p) = Some NDir"
  shows "fs_wf fs"
  unfolding fs_wf_iff using assms by (metis fs_get_def option.distinct(1))

lemma fs_wf_root: "fs_wf fs \<Longrightarrow> map_of fs [] = None"
  unfolding fs_wf_iff by (metis not_Some_eq)

lemma fs_wf_put:
  assumes wf: "fs_wf fs" and p: "p \<noteq> []" "list_all file_name p" "fs_get fs (butlast p) = Some NDir"
    and ok: "n = NDir \<or> fs_get fs p \<noteq> Some NDir"
  shows "fs_wf (fs_put p n fs)"
proof (rule fs_wfI)
  show "distinct (map fst (fs_put p n fs))"
    using wf distinct_filter_keys [of fs] by (auto simp: fs_put_def fs_wf_def)
  show "map_of (fs_put p n fs) [] = None"
    using fs_wf_root [OF wf] p by (simp add: fs_put_def map_of_filter_key)
  fix q m assume q: "q \<noteq> []" and g: "fs_get (fs_put p n fs) q = Some m"
  have bl: "butlast p \<noteq> p" using p(1) by (metis append_butlast_last_id append_self_conv not_Cons_self2)
  show "list_all file_name q \<and> fs_get (fs_put p n fs) (butlast q) = Some NDir"
  proof (cases "q = p")
    case True
    then show ?thesis using p bl by simp
  next
    case False
    then have "fs_get fs q = Some m" using g p by simp
    then show ?thesis using fs_wf_get [OF wf _ q] ok p by auto
  qed
qed

lemma fs_wf_filter:
  assumes wf: "fs_wf fs"
    and up: "\<And>q n. q \<noteq> [] \<Longrightarrow> P q \<Longrightarrow> fs_get fs q = Some n \<Longrightarrow> butlast q \<noteq> [] \<Longrightarrow> P (butlast q)"
  shows "fs_wf (filter (\<lambda>(q, _). P q) fs)"
proof (rule fs_wfI)
  show "distinct (map fst (filter (\<lambda>(q, _). P q) fs))"
    using wf distinct_filter_keys by (auto simp: fs_wf_def)
  show "map_of (filter (\<lambda>(q, _). P q) fs) [] = None"
    using fs_wf_root [OF wf] by (simp add: map_of_filter_key)
  fix q m assume q: "q \<noteq> []" and g: "fs_get (filter (\<lambda>(q, _). P q) fs) q = Some m"
  then have *: "P q" "fs_get fs q = Some m" by (auto simp: fs_get_def map_of_filter_key split: if_splits)
  show "list_all file_name q \<and> fs_get (filter (\<lambda>(q, _). P q) fs) (butlast q) = Some NDir"
    using fs_wf_get [OF wf *(2) q] up [OF q *] by (auto simp: fs_get_def map_of_filter_key)
qed

lemma fs_wf_del:
  assumes wf: "fs_wf fs" and leaf: "\<And>q n. fs_get fs q = Some n \<Longrightarrow> q \<noteq> [] \<Longrightarrow> butlast q \<noteq> p"
  shows "fs_wf (fs_del p fs)"
  unfolding fs_del_def using assms by (intro fs_wf_filter) auto

text \<open>The directories above an entry exist.\<close>

lemma fs_wf_above:
  assumes "fs_wf fs"
  shows "fs_get fs (p @ q) = Some n \<Longrightarrow> q \<noteq> [] \<Longrightarrow> fs_get fs p = Some NDir"
proof (induction q arbitrary: n rule: rev_induct)
  case (snoc x q)
  then have "fs_get fs (p @ q) = Some NDir"
    using fs_wf_get(2) [OF assms snoc.prems(1)] by (simp add: butlast_append)
  then show ?case using snoc.IH by (cases "q = []") auto
qed simp

lemma fs_wf_below_None:
  assumes "fs_wf fs" "fs_get fs p \<noteq> Some NDir" "q \<noteq> []"
  shows "fs_get fs (p @ q) = None"
  using fs_wf_above [OF assms(1)] assms(2,3) by (metis option.exhaust)

lemma lookup_from_Ok:
  assumes "fs_wf fs"
  shows "lookup_from fs cur xs = Ok n \<longleftrightarrow> fs_get fs (cur @ xs) = Some n"
proof (induction xs arbitrary: cur)
  case (Cons x xs)
  show ?case
  proof (cases "fs_get fs cur = Some NDir")
    case True
    then show ?thesis using Cons [of "cur @ [x]"] by simp
  next
    case False
    then have "fs_get fs (cur @ x # xs) = None" using fs_wf_below_None [OF assms False] by simp
    then show ?thesis using False by (auto split: option.splits node.splits)
  qed
qed (auto split: option.splits)

lemma lookup_Ok: "fs_wf fs \<Longrightarrow> lookup fs p = Ok n \<longleftrightarrow> fs_get fs p = Some n"
  by (simp add: lookup_def lookup_from_Ok)

lemma lookup_from_skip:
  assumes "fs_wf fs" "fs_get fs (cur @ p) = Some NDir"
  shows "lookup_from fs cur (p @ q) = lookup_from fs (cur @ p) q"
  using assms(2)
proof (induction p arbitrary: cur)
  case (Cons x p)
  moreover have "fs_get fs cur = Some NDir"
    using fs_wf_above [OF assms(1), of cur "x # p"] Cons.prems by simp
  ultimately show ?case using Cons.IH [of "cur @ [x]"] by simp
qed simp

lemma lookup_ENOENT:
  assumes "fs_wf fs" "fs_get fs d = Some NDir" "fs_get fs (d @ [x]) = None"
  shows "lookup fs (d @ x # xs) = Err ENOENT"
proof -
  have "lookup fs (d @ x # xs) = lookup_from fs d (x # xs)"
    unfolding lookup_def using lookup_from_skip [OF assms(1), of "[]" d] assms(2) by simp
  then show ?thesis using assms by (cases xs) auto
qed

lemma parent_dir_Ok: "fs_wf fs \<Longrightarrow> parent_dir fs p = Ok () \<longleftrightarrow> fs_get fs (butlast p) = Some NDir"
  unfolding parent_dir_def using lookup_Ok [of fs "butlast p" NDir]
  by (cases "lookup fs (butlast p)") (auto split: node.splits)

section \<open>Lemmas on the calls\<close>

text \<open>Two states agree up to directories made on the way to \<open>d\<close>.\<close>

definition dirs_added :: "string list \<Rightarrow> fs \<Rightarrow> fs \<Rightarrow> bool" where
  "dirs_added d fs fs' \<longleftrightarrow>
     (\<forall>q. fs_get fs' q = fs_get fs q \<or>
          (prefix q d \<and> fs_get fs q = None \<and> fs_get fs' q = Some NDir))"

lemma dirs_added_refl [simp]: "dirs_added d fs fs"
  by (simp add: dirs_added_def)

lemma dirs_added_keep: "dirs_added d fs fs' \<Longrightarrow> fs_get fs q = Some n \<Longrightarrow> fs_get fs' q = Some n"
  unfolding dirs_added_def by (metis option.distinct(1))

lemma dirs_added_off: "dirs_added d fs fs' \<Longrightarrow> \<not> prefix q d \<Longrightarrow> fs_get fs' q = fs_get fs q"
  unfolding dirs_added_def by blast

lemma dirs_added_file: "dirs_added d fs fs' \<Longrightarrow> fs_get fs' q = Some n \<Longrightarrow> n \<noteq> NDir \<Longrightarrow> fs_get fs q = Some n"
  unfolding dirs_added_def by (metis option.inject)

lemma mkdirs_spec:
  assumes "mkdirs env cur xs fs = (fs', r)" "fs_wf fs" "fs_get fs cur = Some NDir"
    and "list_all file_name (cur @ xs)"
  shows "fs_wf fs' \<and> dirs_added (cur @ xs) fs fs' \<and> (r = Ok () \<longrightarrow> fs_get fs' (cur @ xs) = Some NDir)"
  using assms
proof (induction xs arbitrary: cur fs)
  case (Cons x xs)
  let ?p = "cur @ [x]"
  show ?case
  proof (cases "fs_get fs ?p")
    case None
    show ?thesis
    proof (cases "os_fault env CMkdir ?p fs")
      case True
      with None Cons.prems show ?thesis by auto
    next
      case False
      let ?fs1 = "fs_put ?p NDir fs"
      have run: "mkdirs env ?p xs ?fs1 = (fs', r)" using None False Cons.prems by (simp add: Let_def)
      have wf: "fs_wf ?fs1" using Cons.prems by (intro fs_wf_put) auto
      from Cons.IH [OF run wf] Cons.prems
      have *: "fs_wf fs'" "dirs_added (cur @ x # xs) ?fs1 fs'" "r = Ok () \<longrightarrow> fs_get fs' (cur @ x # xs) = Some NDir"
        by simp_all
      have "dirs_added (cur @ x # xs) fs fs'"
        unfolding dirs_added_def
      proof
        fix q
        show "fs_get fs' q = fs_get fs q \<or>
            prefix q (cur @ x # xs) \<and> fs_get fs q = None \<and> fs_get fs' q = Some NDir"
          using *(2) [unfolded dirs_added_def, rule_format, of q] None by (cases "q = ?p") auto
      qed
      with * show ?thesis by simp
    qed
  next
    case (Some n)
    show ?thesis
    proof (cases n)
      case NDir
      then have "mkdirs env ?p xs fs = (fs', r)" using Some Cons.prems by (simp add: Let_def)
      from Cons.IH [OF this] Some NDir Cons.prems show ?thesis by simp
    qed (use Some Cons.prems in auto)
  qed
qed simp

lemma resolve_ne_names [simp]: "list_all file_name (resolve p)"
  by (rule resolve_names)

lemma os_MkdirAll_spec:
  assumes "os_MkdirAll env path fs = (fs', r)" "fs_wf fs"
  shows "fs_wf fs'" "dirs_added (resolve path) fs fs'" "r = Ok () \<Longrightarrow> fs_get fs' (resolve path) = Some NDir"
  using mkdirs_spec [of env "[]" "resolve path" fs fs' r] assms by (auto simp: os_MkdirAll_def split: if_splits)

lemma mkdirs_existing:
  assumes "fs_wf fs"
  shows "fs_get fs (cur @ xs) = Some NDir \<Longrightarrow> mkdirs env cur xs fs = (fs, Ok ())"
proof (induction xs arbitrary: cur)
  case (Cons x xs)
  have "fs_get fs (cur @ [x]) = Some NDir"
    using fs_wf_above [OF assms, of "cur @ [x]" xs] Cons.prems by (cases xs) auto
  with Cons show ?case by (simp add: Let_def)
qed simp

lemma os_Stat_Ok:
  "fs_wf fs \<Longrightarrow> os_Stat env path fs = Ok n \<longleftrightarrow>
     path \<noteq> [] \<and> \<not> os_fault env CStat (resolve path) fs \<and> fs_get fs (resolve path) = Some n"
  by (simp add: os_Stat_def Let_def lookup_Ok)

lemma os_ReadFile_Ok:
  "fs_wf fs \<Longrightarrow> os_ReadFile env path fs = Ok b \<longleftrightarrow>
     path \<noteq> [] \<and> \<not> os_fault env CReadFile (resolve path) fs \<and> fs_get fs (resolve path) = Some (NFile b)"
  using lookup_Ok [of fs "resolve path" "NFile b"]
  by (cases "lookup fs (resolve path)") (auto simp: os_ReadFile_def Let_def split: node.splits)

lemma os_CreateTemp_spec:
  assumes "os_CreateTemp env dir fs = (fs', r)" "fs_wf fs"
  obtains (fail) e where "r = Err e" "fs' = fs"
  | (made) tmp where "r = Ok tmp" "resolve tmp = resolve dir @ [''.tmp-'' @ dec (os_tmp env fs)]"
      "fs_get fs (resolve tmp) = None" "fs_get fs (resolve dir) = Some NDir"
      "fs' = fs_put (resolve tmp) (NFile (Raw [])) fs" "fs_wf fs'"
proof -
  let ?n = "''.tmp-'' @ dec (os_tmp env fs)"
  have "CHR ''/'' \<notin> set (dec (os_tmp env fs))"
    using dec_char_digit [of "CHR ''/''" "os_tmp env fs"] by (auto simp: is_digit_def)
  then have "file_name ?n" by (simp add: file_name_def)
  then have res: "resolve (path_Join [dir, ?n]) = resolve dir @ [?n]" by (rule resolve_path_Join)
  show thesis
  proof (cases r)
    case (Inl e)
    then show thesis using assms fail by (auto simp: os_CreateTemp_def Let_def split: if_splits sum.splits option.splits)
  next
    case (Inr tmp)
    then have t: "tmp = path_Join [dir, ?n]" "fs_get fs (resolve tmp) = None"
      "parent_dir fs (resolve tmp) = Ok ()" "fs' = fs_put (resolve tmp) (NFile (Raw [])) fs"
      using assms(1) by (auto simp: os_CreateTemp_def Let_def split: if_splits sum.splits option.splits)
    have r': "resolve tmp = resolve dir @ [?n]" using t res by simp
    have d: "fs_get fs (resolve dir) = Some NDir" using t(3) parent_dir_Ok [OF assms(2)] r' by simp
    have "fs_wf fs'" using assms(2) r' d t(2) resolve_names [of tmp] unfolding t(4) by (intro fs_wf_put) auto
    with Inr t r' d show thesis using made by blast
  qed
qed

lemma os_OpenCreate_effect:
  assumes "os_OpenCreate env path fs = (fs', r)" "fs_wf fs"
  shows "fs_wf fs'" "q \<noteq> resolve path \<Longrightarrow> fs_get fs' q = fs_get fs q"
proof -
  have "fs' = fs \<or> (\<exists>e. lookup fs (resolve path) = Err e \<and> parent_dir fs (resolve path) = Ok () \<and>
      fs' = fs_put (resolve path) (NFile (Raw [])) fs)"
    using assms(1) by (auto simp: os_OpenCreate_def Let_def split: if_splits sum.splits node.splits)
  then have "fs_wf fs' \<and> (q \<noteq> resolve path \<longrightarrow> fs_get fs' q = fs_get fs q)"
  proof (elim disjE exE conjE)
    fix e
    assume l: "lookup fs (resolve path) = Err e" and p: "parent_dir fs (resolve path) = Ok ()"
      and f: "fs' = fs_put (resolve path) (NFile (Raw [])) fs"
    have none: "fs_get fs (resolve path) \<noteq> Some n" for n
      using lookup_Ok [OF assms(2), of "resolve path" n] l by simp
    then have ne: "resolve path \<noteq> []" by (metis fs_get_root)
    have "fs_wf fs'" unfolding f
      using ne none p parent_dir_Ok [OF assms(2)] by (intro fs_wf_put [OF assms(2)]) auto
    then show ?thesis unfolding f using ne by simp
  qed (use assms(2) in auto)
  then show "fs_wf fs'" "q \<noteq> resolve path \<Longrightarrow> fs_get fs' q = fs_get fs q" by blast+
qed

lemma os_Remove_frame:
  assumes "os_Remove env path fs = (fs', r)" "fs_wf fs"
  shows "q \<noteq> resolve path \<Longrightarrow> fs_get fs' q = fs_get fs q"
    and "fs_get fs (resolve path) \<noteq> Some NDir \<Longrightarrow> fs_wf fs'"
proof -
  have *: "fs' = fs \<or> (resolve path \<noteq> [] \<and> fs' = fs_del (resolve path) fs)"
    using assms by (auto simp: os_Remove_def Let_def lookup_Ok split: if_splits sum.splits node.splits)
  then show "q \<noteq> resolve path \<Longrightarrow> fs_get fs' q = fs_get fs q" by auto
  assume "fs_get fs (resolve path) \<noteq> Some NDir"
  then have "fs_wf (fs_del (resolve path) fs)"
    using fs_wf_get(2) [OF assms(2)] by (intro fs_wf_del [OF assms(2)]) metis
  with * assms(2) show "fs_wf fs'" by auto
qed

lemma os_Rename_spec:
  assumes "os_Rename env old new fs = (fs', r)" "fs_wf fs"
    and isfile: "fs_get fs (resolve old) = Some (NFile b)" and ne: "resolve old \<noteq> resolve new" "resolve new \<noteq> []"
  obtains (fail) e where "r = Err e" "fs' = fs"
  | (moved) "r = Ok ()" "fs' = fs_put (resolve new) (NFile b) (fs_del (resolve old) fs)" "fs_wf fs'"
proof (cases r)
  case (Inl e)
  then show thesis using assms fail by (auto simp: os_Rename_def Let_def split: if_splits sum.splits)
next
  case (Inr u)
  have "lookup fs (resolve old) = Ok (NFile b)" using lookup_Ok [OF assms(2)] isfile by simp
  then have f: "fs' = fs_put (resolve new) (NFile b) (fs_del (resolve old) fs)"
    "parent_dir fs (resolve new) = Ok ()" "fs_get fs (resolve new) \<noteq> Some NDir"
    using assms(1) Inr by (auto simp: os_Rename_def Let_def split: if_splits sum.splits)
  have on: "resolve old \<noteq> []" using isfile by auto
  have leaf: "fs_get fs q = Some n \<Longrightarrow> q \<noteq> [] \<Longrightarrow> butlast q \<noteq> resolve old" for q n
    using fs_wf_get(2) [OF assms(2)] isfile by fastforce
  then have "fs_wf (fs_del (resolve old) fs)" by (rule fs_wf_del [OF assms(2)])
  moreover have "fs_get fs (butlast (resolve new)) = Some NDir"
    using f(2) parent_dir_Ok [OF assms(2)] by simp
  ultimately have "fs_wf fs'"
    unfolding f(1) using ne f(3) on isfile resolve_names [of new]
    by (intro fs_wf_put) auto
  with f Inr show thesis using moved by simp
qed

lemma os_RemoveAll_frame:
  assumes "os_RemoveAll env path fs = (fs', r)"
  shows "\<not> prefix (resolve path) q \<Longrightarrow> fs_get fs' q = fs_get fs q"
    and "fs_get fs q = None \<Longrightarrow> fs_get fs' q = None"
    and "fs_get fs' q = Some n \<Longrightarrow> fs_get fs q = Some n"
  using assms
  by (auto simp: os_RemoveAll_def Let_def fs_get_def map_of_filter_key
      split: if_splits sum.splits oserr.splits)

lemma os_RemoveAll_wf:
  assumes "os_RemoveAll env path fs = (fs', r)" "fs_wf fs"
  shows "fs_wf fs'"
proof -
  let ?P = "\<lambda>q. \<not> (prefix (resolve path) q \<and> removable env fs q)"
  have "fs_wf (filter (\<lambda>(q, _). ?P q) fs)"
  proof (rule fs_wf_filter [OF assms(2)])
    fix q n assume q: "q \<noteq> []" "?P q" "fs_get fs q = Some n" "butlast q \<noteq> []"
    show "?P (butlast q)"
    proof
      assume *: "prefix (resolve path) (butlast q) \<and> removable env fs (butlast q)"
      have "prefix (butlast q) q" by (rule prefixeq_butlast)
      then have "prefix (resolve path) q \<and> removable env fs q"
        using * q(1) unfolding removable_def list_all_iff by (auto intro: prefix_order.trans)
      with q(2) show False by blast
    qed
  qed
  then show ?thesis using assms
    by (auto simp: os_RemoveAll_def Let_def split: if_splits sum.splits oserr.splits)
qed

lemma os_RemoveAll_gone:
  assumes "os_RemoveAll env path fs = (fs', Ok ())" "fs_wf fs" "path \<noteq> []" "prefix (resolve path) q"
  shows "fs_get fs' q = None"
proof (cases "lookup fs (resolve path)")
  case (Inl e)
  then have "fs_get fs (resolve path) = None"
    using lookup_Ok [OF assms(2)] by (metis not_Some_eq sum.distinct(1))
  moreover have "fs' = fs" using assms Inl by (auto simp: os_RemoveAll_def Let_def split: if_splits oserr.splits)
  moreover obtain q' where "q = resolve path @ q'" using assms(4) by (auto simp: prefix_def)
  ultimately show ?thesis using fs_wf_below_None [OF assms(2), of "resolve path"] by (cases "q' = []") auto
next
  case (Inr n)
  then have r: "removable env fs (resolve path)"
    and fs': "fs' = filter (\<lambda>(q, _). \<not> (prefix (resolve path) q \<and> removable env fs q)) fs"
    using assms by (auto simp: os_RemoveAll_def Let_def split: if_splits)
  have "removable env fs q" "q \<noteq> []"
    using r assms(4) unfolding removable_def list_all_iff by (auto intro: prefix_order.trans)
  then show ?thesis using assms(4) unfolding fs' by (simp add: fs_get_def map_of_filter_key)
qed

lemma children_iff:
  assumes "fs_wf fs"
  shows "(x, b) \<in> set (children fs d) \<longleftrightarrow> (\<exists>n. fs_get fs (d @ [x]) = Some n \<and> b = (n = NDir))"
proof -
  have "(x, b) \<in> set (children fs d) \<longleftrightarrow> (\<exists>n. (d @ [x], n) \<in> set fs \<and> b = (n = NDir))"
    unfolding children_def by (force simp: image_iff intro: rev_bexI dest: append_butlast_last_id)
  then show ?thesis using assms by (simp add: fs_get_def fs_wf_iff)
qed

lemma distinct_children:
  assumes "fs_wf fs"
  shows "distinct (map fst (children fs d))"
proof -
  have *: "distinct (map (\<lambda>q. last q) (filter (\<lambda>q. q \<noteq> [] \<and> butlast q = d) ps))" if "distinct ps" for ps :: "string list list"
    using that by (induction ps) (auto simp: image_iff, metis append_butlast_last_id)
  have "map fst (children fs d) = map (\<lambda>q. last q) (filter (\<lambda>q. q \<noteq> [] \<and> butlast q = d) (map fst fs))"
    by (induction fs) (auto simp: children_def)
  then show ?thesis using * assms by (simp add: fs_wf_def)
qed

end
