(* ===== verification/Store.thy ===== *)
theory Store
  imports OS Network
begin

text \<open>
  \<open>src/internal/store/fs_store.go\<close>: the VM store on the file system.  A VM has a directory under
  each of the configuration, data and run roots; its metadata, Firecracker configuration, hooks and
  environment are files of its configuration directory, each replaced atomically through a
  temporary file.
\<close>

section \<open>Definitions\<close>

record fs_store =
  st_configRoot :: string
  st_dataRoot :: string
  st_runRoot :: string
  st_hooksRoot :: string

datatype store_err =
    ErrNotFound
  | EmptyID
  | InvalidID
  | OsErr oserr
  | JsonSyntax
  | JsonErr json_error
  | GlobalHookErr string store_err

definition NewFSStore :: "string \<Rightarrow> string \<Rightarrow> string \<Rightarrow> string \<Rightarrow> fs_store" where
  "NewFSStore configRoot dataRoot runRoot hooksRoot =
     \<lparr>st_configRoot = configRoot, st_dataRoot = dataRoot, st_runRoot = runRoot, st_hooksRoot = hooksRoot\<rparr>"

fun mkdir_each :: "os_env \<Rightarrow> string list \<Rightarrow> fs \<Rightarrow> fs \<times> (store_err, unit) result" where
  "mkdir_each env [] fs = (fs, Ok ())"
| "mkdir_each env (dir # dirs) fs =
     (case os_MkdirAll env dir fs of
        (fs', Err e) \<Rightarrow> (fs', Err (OsErr e))
      | (fs', Ok _) \<Rightarrow> mkdir_each env dirs fs')"

definition EnsureBaseDirs :: "os_env \<Rightarrow> fs_store \<Rightarrow> fs \<Rightarrow> fs \<times> (store_err, unit) result" where
  "EnsureBaseDirs env st fs = mkdir_each env [st_configRoot st, st_dataRoot st, st_runRoot st] fs"

definition validateID :: "string \<Rightarrow> store_err option" where
  "validateID vid =
     (if TrimSpace vid = [] then Some EmptyID
      else if Contains vid ''/'' \<or> Contains vid ''..'' then Some InvalidID
      else None)"

definition PathsFor :: "fs_store \<Rightarrow> string \<Rightarrow> vm_paths" where
  "PathsFor st vid =
     (let configDir = path_Join [st_configRoot st, vid];
          dataDir = path_Join [st_dataRoot st, vid];
          runDir = path_Join [st_runRoot st, vid]
      in \<lparr>pa_ConfigDir = configDir,
          pa_VMConfigPath = path_Join [configDir, ''vm.json''],
          pa_MetaPath = path_Join [configDir, ''meta.json''],
          pa_HooksPath = path_Join [configDir, ''hooks.json''],
          pa_EnvPath = path_Join [configDir, ''env''],
          pa_RunDir = runDir,
          pa_SocketPath = path_Join [runDir, ''mergen.socket''],
          pa_LockPath = path_Join [st_runRoot st, vid @ ''.lock''],
          pa_DataDir = dataDir,
          pa_LogsDir = path_Join [dataDir, ''logs'']\<rparr>)"

definition hasHooks :: "hooks_config \<Rightarrow> bool" where
  "hasHooks h \<longleftrightarrow>
     length (hc_OnCreate h) > 0 \<or> length (hc_OnDelete h) > 0 \<or>
     length (hc_OnStart h) > 0 \<or> length (hc_OnStop h) > 0"

definition shellEscape :: "string \<Rightarrow> string" where
  "shellEscape val = [CHR 39] @ ReplaceAll val (CHR 39) [CHR 39, CHR 92, CHR 39, CHR 39] @ [CHR 39]"

text \<open>
  Writing a file atomically: the content goes to a temporary file of the same directory, which then
  takes the name; on a failure the temporary file is removed, as far as that works.
\<close>

definition writeAtomic :: "os_env \<Rightarrow> string \<Rightarrow> body \<Rightarrow> fs \<Rightarrow> fs \<times> (store_err, unit) result" where
  "writeAtomic env path content fs =
     (case os_MkdirAll env (path_Dir path) fs of
        (fs1, Err e) \<Rightarrow> (fs1, Err (OsErr e))
      | (fs1, Ok _) \<Rightarrow>
     (case os_CreateTemp env (path_Dir path) fs1 of
        (fs2, Err e) \<Rightarrow> (fs2, Err (OsErr e))
      | (fs2, Ok tempPath) \<Rightarrow>
     (case file_Write env tempPath content fs2 of
        (fs3, Err e) \<Rightarrow> (fst (os_Remove env tempPath fs3), Err (OsErr e))
      | (fs3, Ok _) \<Rightarrow>
     (case file_Close env tempPath fs3 of
        Err e \<Rightarrow> (fst (os_Remove env tempPath fs3), Err (OsErr e))
      | Ok _ \<Rightarrow>
     (case os_Chmod env tempPath fs3 of
        Err e \<Rightarrow> (fst (os_Remove env tempPath fs3), Err (OsErr e))
      | Ok _ \<Rightarrow>
     (case os_Rename env tempPath path fs3 of
        (fs4, Err e) \<Rightarrow> (fst (os_Remove env tempPath fs4), Err (OsErr e))
      | (fs4, Ok _) \<Rightarrow> (fs4, Ok ())))))))"

definition writeJSONAtomic :: "os_env \<Rightarrow> string \<Rightarrow> json \<Rightarrow> fs \<Rightarrow> fs \<times> (store_err, unit) result" where
  "writeJSONAtomic env path payload fs = writeAtomic env path (JSONDoc payload) fs"

text \<open>The environment file: one line per variable, in the order of the keys.\<close>

definition env_lines :: "string gomap \<Rightarrow> string list" where
  "env_lines vars = map (\<lambda>(k, v). k @ ''='' @ shellEscape v) vars"

definition writeEnvAtomic :: "os_env \<Rightarrow> string \<Rightarrow> string gomap \<Rightarrow> fs \<Rightarrow> fs \<times> (store_err, unit) result" where
  "writeEnvAtomic env path vars fs =
     writeAtomic env path (Raw (Join (env_lines vars) [CHR 10] @ [CHR 10])) fs"

definition SaveVM ::
  "os_env \<Rightarrow> fs_store \<Rightarrow> string \<Rightarrow> vm_config \<Rightarrow> vm_metadata \<Rightarrow> hooks_config \<Rightarrow> string gomap \<Rightarrow> fs \<Rightarrow>
   fs \<times> (store_err, vm_paths) result" where
  "SaveVM env st vid cfg meta hooks vars fs =
     (case validateID vid of
        Some e \<Rightarrow> (fs, Err e)
      | None \<Rightarrow>
          (let paths = PathsFor st vid; meta' = meta\<lparr>meta_Paths := paths\<rparr>
           in and_then (mkdir_each env [pa_ConfigDir paths, pa_RunDir paths, pa_DataDir paths, pa_LogsDir paths] fs) (\<lambda>fs _.
              and_then (writeJSONAtomic env (pa_VMConfigPath paths) (enc_config cfg) fs) (\<lambda>fs _.
              and_then (writeJSONAtomic env (pa_MetaPath paths) (enc_meta meta') fs) (\<lambda>fs _.
              and_then (if hasHooks hooks then writeJSONAtomic env (pa_HooksPath paths) (enc_hooks hooks) fs
                        else (fs, Ok ())) (\<lambda>fs _.
              and_then (if length vars > 0 then writeEnvAtomic env (pa_EnvPath paths) vars fs
                        else (fs, Ok ())) (\<lambda>fs _.
              (fs, Ok paths))))))))"

definition Exists :: "os_env \<Rightarrow> fs_store \<Rightarrow> string \<Rightarrow> fs \<Rightarrow> (store_err, bool) result" where
  "Exists env st vid fs =
     (case validateID vid of
        Some e \<Rightarrow> Err e
      | None \<Rightarrow>
          (case os_Stat env (pa_MetaPath (PathsFor st vid)) fs of
             Ok _ \<Rightarrow> Ok True
           | Err ENOENT \<Rightarrow> Ok False
           | Err e \<Rightarrow> Err (OsErr e)))"

text \<open>\<open>readJSON\<close> decodes into a zero value, which an empty file leaves as it is.\<close>

definition readJSON ::
  "os_env \<Rightarrow> (json \<Rightarrow> 'a \<Rightarrow> (json_error, 'a) result) \<Rightarrow> 'a \<Rightarrow> string \<Rightarrow> fs \<Rightarrow> (store_err, 'a) result" where
  "readJSON env dec_a out path fs =
     (case os_ReadFile env path fs of
        Err e \<Rightarrow> Err (OsErr e)
      | Ok (Raw s) \<Rightarrow> if s = [] then Ok out else Err JsonSyntax
      | Ok (JSONDoc j) \<Rightarrow> map_err JsonErr (dec_a j out))"

definition ReadMeta :: "os_env \<Rightarrow> fs_store \<Rightarrow> string \<Rightarrow> fs \<Rightarrow> (store_err, vm_metadata) result" where
  "ReadMeta env st vid fs =
     (case validateID vid of
        Some e \<Rightarrow> Err e
      | None \<Rightarrow>
          (case readJSON env dec_meta zero_meta (pa_MetaPath (PathsFor st vid)) fs of
             Err e \<Rightarrow> Err (if e = OsErr ENOENT then ErrNotFound else e)
           | Ok meta \<Rightarrow> Ok meta))"

definition ReadVMConfig :: "os_env \<Rightarrow> fs_store \<Rightarrow> string \<Rightarrow> fs \<Rightarrow> (store_err, vm_config) result" where
  "ReadVMConfig env st vid fs =
     (case validateID vid of
        Some e \<Rightarrow> Err e
      | None \<Rightarrow>
          (case readJSON env dec_config zero_config (pa_VMConfigPath (PathsFor st vid)) fs of
             Err e \<Rightarrow> Err (if e = OsErr ENOENT then ErrNotFound else e)
           | Ok cfg \<Rightarrow> Ok cfg))"

definition ReadHooks :: "os_env \<Rightarrow> fs_store \<Rightarrow> string \<Rightarrow> fs \<Rightarrow> (store_err, hooks_config) result" where
  "ReadHooks env st vid fs =
     (case validateID vid of
        Some e \<Rightarrow> Err e
      | None \<Rightarrow>
          (case readJSON env dec_hooks zero_hooks (pa_HooksPath (PathsFor st vid)) fs of
             Err e \<Rightarrow> if e = OsErr ENOENT then Ok zero_hooks else Err e
           | Ok hooks \<Rightarrow> Ok hooks))"

definition append_hooks :: "hooks_config \<Rightarrow> hooks_config \<Rightarrow> hooks_config" where
  "append_hooks a b =
     \<lparr>hc_OnCreate = hc_OnCreate a @ hc_OnCreate b, hc_OnDelete = hc_OnDelete a @ hc_OnDelete b,
      hc_OnStart = hc_OnStart a @ hc_OnStart b, hc_OnStop = hc_OnStop a @ hc_OnStop b\<rparr>"

text \<open>The global hooks read so far are returned together with an error that ends the loop.\<close>

fun global_hooks_loop ::
  "os_env \<Rightarrow> fs_store \<Rightarrow> fs \<Rightarrow> (string \<times> bool) list \<Rightarrow> hooks_config \<Rightarrow> hooks_config \<times> store_err option" where
  "global_hooks_loop env st fs [] merged = (merged, None)"
| "global_hooks_loop env st fs ((name, isDir) # entries) merged =
     (if isDir then global_hooks_loop env st fs entries merged
      else if \<not> HasSuffix name ''.json'' then global_hooks_loop env st fs entries merged
      else case readJSON env dec_hooks zero_hooks (path_Join [st_hooksRoot st, name]) fs of
             Err e \<Rightarrow> (merged, Some (GlobalHookErr name e))
           | Ok hooks \<Rightarrow> global_hooks_loop env st fs entries (append_hooks merged hooks))"

definition ReadGlobalHooks :: "os_env \<Rightarrow> fs_store \<Rightarrow> fs \<Rightarrow> hooks_config \<times> store_err option" where
  "ReadGlobalHooks env st fs =
     (if st_hooksRoot st = [] then (zero_hooks, None)
      else case os_ReadDir env (st_hooksRoot st) fs of
             Err ENOENT \<Rightarrow> (zero_hooks, None)
           | Err e \<Rightarrow> (zero_hooks, Some (OsErr e))
           | Ok entries \<Rightarrow> global_hooks_loop env st fs entries zero_hooks)"

definition ListVMIDs :: "os_env \<Rightarrow> fs_store \<Rightarrow> fs \<Rightarrow> (store_err, string list) result" where
  "ListVMIDs env st fs =
     (case os_ReadDir env (st_configRoot st) fs of
        Err ENOENT \<Rightarrow> Ok []
      | Err e \<Rightarrow> Err (OsErr e)
      | Ok entries \<Rightarrow> Ok (sort (map fst (filter snd entries))))"

fun read_metas :: "os_env \<Rightarrow> fs_store \<Rightarrow> fs \<Rightarrow> string list \<Rightarrow> (store_err, vm_metadata list) result" where
  "read_metas env st fs [] = Ok []"
| "read_metas env st fs (vid # ids) =
     (case ReadMeta env st vid fs of
        Err readErr \<Rightarrow> if readErr = ErrNotFound then read_metas env st fs ids else Err readErr
      | Ok meta \<Rightarrow>
          (case read_metas env st fs ids of Err e \<Rightarrow> Err e | Ok metas \<Rightarrow> Ok (meta # metas)))"

definition ListMetas :: "os_env \<Rightarrow> fs_store \<Rightarrow> fs \<Rightarrow> (store_err, vm_metadata list) result" where
  "ListMetas env st fs =
     (case ListVMIDs env st fs of Err e \<Rightarrow> Err e | Ok ids \<Rightarrow> read_metas env st fs ids)"

definition remove_all :: "os_env \<Rightarrow> string \<Rightarrow> fs \<Rightarrow> fs \<times> (store_err, unit) result" where
  "remove_all env path fs = (case os_RemoveAll env path fs of (fs', r) \<Rightarrow> (fs', map_err OsErr r))"

definition DeleteVM :: "os_env \<Rightarrow> fs_store \<Rightarrow> string \<Rightarrow> bool \<Rightarrow> fs \<Rightarrow> fs \<times> (store_err, unit) result" where
  "DeleteVM env st vid retainData fs =
     (case validateID vid of
        Some e \<Rightarrow> (fs, Err e)
      | None \<Rightarrow>
          (case Exists env st vid fs of
             Err e \<Rightarrow> (fs, Err e)
           | Ok False \<Rightarrow> (fs, Err ErrNotFound)
           | Ok True \<Rightarrow>
               (let paths = PathsFor st vid
                in and_then (remove_all env (pa_ConfigDir paths) fs) (\<lambda>fs _.
                   and_then (remove_all env (pa_RunDir paths) fs) (\<lambda>fs _.
                   if \<not> retainData then remove_all env (pa_DataDir paths) fs else (fs, Ok ()))))))"

section \<open>Paths\<close>

lemma Join_snoc: "Join (xs @ [s]) sep = (if xs = [] then s else Join xs sep @ sep @ s)"
proof (induction xs)
  case (Cons x xs)
  then show ?case by (cases "xs = []") (auto simp: Join_Cons_ne)
qed simp

lemma clean_segs_snoc: "file_name s \<Longrightarrow> clean_segs r (d @ CHR ''/'' # s) = clean_segs r d @ [s]"
  by (simp add: clean_segs_def Split_append Split_plain file_name_def clean_step_def)

lemma path_Join_form:
  assumes "file_name s"
  shows "path_Join [d, s] = s \<or> (\<exists>a. path_Join [d, s] = a @ CHR ''/'' # s)"
proof (cases "d = []")
  case True
  have "hd s \<noteq> CHR ''/''" using assms by (cases s) (auto simp: file_name_def)
  moreover have "clean_segs False s = [s]"
    using assms by (simp add: clean_segs_def Split_plain file_name_def clean_step_def)
  ultimately show ?thesis using True assms by (simp add: path_Join_def path_Clean_def file_name_def)
next
  case False
  then have "path_Join [d, s] = path_Clean (d @ CHR ''/'' # s)"
    using assms by (simp add: path_Join_def file_name_def)
  then show ?thesis using assms
    by (auto simp: path_Clean_def clean_segs_snoc Join_snoc)
qed

lemma resolve_path_Dir:
  assumes "file_name s"
  shows "resolve (path_Dir (path_Join [d, s])) = resolve d"
proof -
  have ns: "CHR ''/'' \<notin> set s" using assms by (simp add: file_name_def)
  note r = resolve_path_Join [OF assms, of d]
  from path_Join_form [OF assms, of d] show ?thesis
  proof
    assume f: "path_Join [d, s] = s"
    then have "resolve d = []" using r resolve_name [OF assms] by simp
    have dw: "dropWhile (\<lambda>c. c \<noteq> CHR ''/'') (rev s) = []"
      unfolding dropWhile_eq_Nil_conv using ns by auto
    show ?thesis using \<open>resolve d = []\<close> by (simp add: f path_Dir_def dw del: dropWhile_eq_Nil_conv)
  next
    assume "\<exists>a. path_Join [d, s] = a @ CHR ''/'' # s"
    then obtain a where f: "path_Join [d, s] = a @ CHR ''/'' # s" by blast
    then have "resolve d = resolve a"
      using r resolve_append [of a s] assms by (simp add: Split_plain ns clean_step_name)
    then show ?thesis using path_Dir_slash [OF ns, of a] f by simp
  qed
qed

lemma valid_file_name: "validateID vid = None \<Longrightarrow> vid \<noteq> ''.'' \<Longrightarrow> file_name vid"
  by (auto simp: validateID_def file_name_def split: if_splits)

lemma file_name_consts [simp]:
  "file_name ''vm.json''" "file_name ''meta.json''" "file_name ''hooks.json''" "file_name ''env''"
  "file_name ''mergen.socket''" "file_name ''logs''"
  by (simp_all add: file_name_def)

lemma file_name_lock: "file_name vid \<Longrightarrow> file_name (vid @ ''.lock'')"
  by (auto simp: file_name_def)

lemma resolve_PathsFor:
  assumes "file_name vid"
  shows "resolve (pa_ConfigDir (PathsFor st vid)) = resolve (st_configRoot st) @ [vid]"
    and "resolve (pa_RunDir (PathsFor st vid)) = resolve (st_runRoot st) @ [vid]"
    and "resolve (pa_DataDir (PathsFor st vid)) = resolve (st_dataRoot st) @ [vid]"
    and "resolve (pa_LogsDir (PathsFor st vid)) = resolve (st_dataRoot st) @ [vid, ''logs'']"
    and "resolve (pa_VMConfigPath (PathsFor st vid)) = resolve (st_configRoot st) @ [vid, ''vm.json'']"
    and "resolve (pa_MetaPath (PathsFor st vid)) = resolve (st_configRoot st) @ [vid, ''meta.json'']"
    and "resolve (pa_HooksPath (PathsFor st vid)) = resolve (st_configRoot st) @ [vid, ''hooks.json'']"
    and "resolve (pa_EnvPath (PathsFor st vid)) = resolve (st_configRoot st) @ [vid, ''env'']"
    and "resolve (pa_SocketPath (PathsFor st vid)) = resolve (st_runRoot st) @ [vid, ''mergen.socket'']"
    and "resolve (pa_LockPath (PathsFor st vid)) = resolve (st_runRoot st) @ [vid @ ''.lock'']"
  using assms by (simp_all add: PathsFor_def Let_def resolve_path_Join file_name_lock)

lemma PathsFor_ne [simp]:
  "file_name vid \<Longrightarrow> pa_ConfigDir (PathsFor st vid) \<noteq> []"
  "file_name vid \<Longrightarrow> pa_RunDir (PathsFor st vid) \<noteq> []"
  "file_name vid \<Longrightarrow> pa_DataDir (PathsFor st vid) \<noteq> []"
  "pa_VMConfigPath (PathsFor st vid) \<noteq> []" "pa_MetaPath (PathsFor st vid) \<noteq> []"
  "pa_HooksPath (PathsFor st vid) \<noteq> []" "pa_EnvPath (PathsFor st vid) \<noteq> []"
  "pa_SocketPath (PathsFor st vid) \<noteq> []"
  by (simp_all add: PathsFor_def Let_def path_Join_ne)

lemma resolve_Dir_PathsFor:
  assumes "file_name vid"
  shows "resolve (path_Dir (pa_VMConfigPath (PathsFor st vid))) = resolve (st_configRoot st) @ [vid]"
    and "resolve (path_Dir (pa_MetaPath (PathsFor st vid))) = resolve (st_configRoot st) @ [vid]"
    and "resolve (path_Dir (pa_HooksPath (PathsFor st vid))) = resolve (st_configRoot st) @ [vid]"
    and "resolve (path_Dir (pa_EnvPath (PathsFor st vid))) = resolve (st_configRoot st) @ [vid]"
  using assms by (simp_all add: PathsFor_def Let_def resolve_path_Dir resolve_path_Join)

section \<open>Writing a file\<close>

lemma os_Remove_file:
  assumes "fs_wf fs" "fs_get fs (resolve p) = Some (NFile b)"
  shows "fs_wf (fst (os_Remove env p fs))" "q \<noteq> resolve p \<Longrightarrow> fs_get (fst (os_Remove env p fs)) q = fs_get fs q"
  using os_Remove_frame [of env p fs "fst (os_Remove env p fs)" "snd (os_Remove env p fs)"] assms by auto

text \<open>What can become of a state in which the temporary file has been written.\<close>

lemma writeAtomic_tail:
  assumes run: "writeAtomic env path content fs = (fs', r)" and wf: "fs_wf fs"
    and path: "resolve path = d @ [x]" "resolve (path_Dir path) = d" and x: "\<not> prefix ''.tmp-'' x"
  obtains (fail) fs1 y where "r \<noteq> Ok ()" "fs_wf fs'" "dirs_added d fs fs1"
      "\<And>q. q \<noteq> d @ [''.tmp-'' @ y] \<Longrightarrow> fs_get fs' q = fs_get fs1 q"
  | (wrote) fs1 where "r = Ok ()" "fs_wf fs'" "dirs_added d fs fs1" "fs_get fs' (d @ [x]) = Some (NFile content)"
      "fs_get fs' d = Some NDir" "\<And>q. q \<noteq> d @ [x] \<Longrightarrow> fs_get fs' q = fs_get fs1 q"
proof -
  obtain fs1 r1 where m: "os_MkdirAll env (path_Dir path) fs = (fs1, r1)" by fastforce
  note failed = fail
  note spec1 = os_MkdirAll_spec [OF m wf, unfolded path]
  show thesis
  proof (cases r1)
    case (Inl e)
    then have "fs' = fs1" "r = Err (OsErr e)" using run m by (auto simp: writeAtomic_def)
    then show thesis using failed [of fs1] spec1 by simp
  next
    case (Inr u)
    obtain fs2 r2 where c: "os_CreateTemp env (path_Dir path) fs1 = (fs2, r2)" by fastforce
    from c spec1(1) show thesis
    proof (cases rule: os_CreateTemp_spec)
      case (fail e)
      then have "fs' = fs1" "r = Err (OsErr e)" using run m c Inr by (auto simp: writeAtomic_def)
      then show thesis using failed [of fs1] spec1 by simp
    next
      case (made tmp)
      define T where "T = d @ [''.tmp-'' @ dec (os_tmp env fs1)]"
      have T: "resolve tmp = T" "T \<noteq> []" using made(2) path by (simp_all add: T_def)
      have dT: "fs_get fs1 d = Some NDir" using made(4) path by simp
      have T1: "fs_get fs1 T = None" using made(3) T by simp
      have wfp: "fs_wf (fs_put T (NFile b) fs2)" for b
        using made(6) spec1(1) dT T1 T resolve_names [of tmp]
        unfolding made(5) T by (intro fs_wf_put) (auto simp: T_def)
      have getp: "fs_get (fs_put T (NFile b) fs2) q = (if q = T then Some (NFile b) else fs_get fs1 q)" for b q
        using made(5) T by simp
      have bad: thesis if "r \<noteq> Ok ()" "fs' = fst (os_Remove env tmp (fs_put T (NFile b) fs2))" for b
      proof (rule failed [of fs1 "dec (os_tmp env fs1)"])
        have rm: "fs_get (fs_put T (NFile b) fs2) (resolve tmp) = Some (NFile b)" using getp T by simp
        show "fs_wf fs'" unfolding that(2) by (rule os_Remove_file(1) [OF wfp rm])
        fix q assume "q \<noteq> d @ [''.tmp-'' @ dec (os_tmp env fs1)]"
        then have "q \<noteq> T" by (simp add: T_def)
        then show "fs_get fs' q = fs_get fs1 q"
          unfolding that(2) using os_Remove_file(2) [OF wfp rm, of q] getp [of b q] T(1) by simp
      qed (use that spec1 in auto)
      let ?fs3 = "fs_put T (NFile content) fs2"
      consider "os_fault env CWrite T fs2" | "\<not> os_fault env CWrite T fs2" "fs' = fst (os_Remove env tmp ?fs3)" "r \<noteq> Ok ()"
        | fs4 e where "os_Rename env tmp path ?fs3 = (fs4, Err e)" "fs' = fst (os_Remove env tmp fs4)" "r = Err (OsErr e)"
        | "os_Rename env tmp path ?fs3 = (fs', Ok ())" "r = Ok ()"
        using run m c Inr made(1) T(1)
        by (auto simp: writeAtomic_def file_Write_def file_Close_def Let_def split: if_splits sum.splits prod.splits)
      then show thesis
      proof cases
        case 1
        then have "r \<noteq> Ok ()" "fs' = fst (os_Remove env tmp (fs_put T (NFile (os_partial env content)) fs2))"
          using run m c Inr made(1) T(1) by (auto simp: writeAtomic_def file_Write_def Let_def)
        then show thesis by (rule bad)
      next
        case 2
        then show thesis using bad by blast
      next
        case (3 fs4 e)
        have "fs4 = ?fs3" using 3(1) by (auto simp: os_Rename_def Let_def split: if_splits sum.splits)
        with 3 show thesis using bad [of content] by simp
      next
        case 4
        have "T \<noteq> d @ [x]" using x by (auto simp: T_def)
        moreover have "fs_get ?fs3 (resolve tmp) = Some (NFile content)" using getp T by simp
        ultimately have f: "fs' = fs_put (d @ [x]) (NFile content) (fs_del T ?fs3)" "fs_wf fs'"
          using os_Rename_spec [OF 4(1) wfp, of content] path T by auto
        show thesis
        proof (rule wrote [of fs1])
          fix q assume "q \<noteq> d @ [x]"
          then show "fs_get fs' q = fs_get fs1 q" unfolding f using getp [of content q] T(2) T1 by (auto split: if_splits)
        next
          show "fs_get fs' d = Some NDir" unfolding f using getp [of content d] T(2) dT by (auto simp: T_def)
        qed (use 4 f spec1 in auto)
      qed
    qed
  qed
qed

lemma writeAtomic_effect:
  assumes "writeAtomic env path content fs = (fs', r)" "fs_wf fs"
    and "resolve path = d @ [x]" "resolve (path_Dir path) = d" "\<not> prefix ''.tmp-'' x"
  shows "fs_wf fs'"
    and "r = Ok () \<Longrightarrow> fs_get fs' (d @ [x]) = Some (NFile content)"
    and "r \<noteq> Ok () \<Longrightarrow> fs_get fs' (d @ [x]) = fs_get fs (d @ [x])"
    and "y \<noteq> x \<Longrightarrow> \<not> prefix ''.tmp-'' y \<Longrightarrow> fs_get fs' (d @ [y]) = fs_get fs (d @ [y])"
    and "(\<exists>y. q = d @ [y]) \<or> fs_get fs' q = fs_get fs q \<or>
         (prefix q d \<and> fs_get fs q = None \<and> fs_get fs' q = Some NDir)"
    and "r = Ok () \<Longrightarrow> q \<noteq> d @ [x] \<Longrightarrow> fs_get fs' q = fs_get fs q \<or>
         (prefix q d \<and> fs_get fs q = None \<and> fs_get fs' q = Some NDir)"
proof -
  have off: "fs_get fs1 (d @ [z]) = fs_get fs (d @ [z])" if "dirs_added d fs fs1" for fs1 z
    using dirs_added_off [OF that, of "d @ [z]"] by (simp add: prefix_def)
  have "fs_wf fs' \<and> (r = Ok () \<longrightarrow> fs_get fs' (d @ [x]) = Some (NFile content)) \<and>
    (r \<noteq> Ok () \<longrightarrow> fs_get fs' (d @ [x]) = fs_get fs (d @ [x])) \<and>
    (y \<noteq> x \<longrightarrow> \<not> prefix ''.tmp-'' y \<longrightarrow> fs_get fs' (d @ [y]) = fs_get fs (d @ [y])) \<and>
    ((\<exists>y. q = d @ [y]) \<or> fs_get fs' q = fs_get fs q \<or>
         (prefix q d \<and> fs_get fs q = None \<and> fs_get fs' q = Some NDir)) \<and>
    (r = Ok () \<longrightarrow> q \<noteq> d @ [x] \<longrightarrow> fs_get fs' q = fs_get fs q \<or>
         (prefix q d \<and> fs_get fs q = None \<and> fs_get fs' q = Some NDir))"
    using assms
  proof (cases rule: writeAtomic_tail)
    case (fail fs1 z)
    have "x \<noteq> ''.tmp-'' @ z" "\<not> prefix ''.tmp-'' y \<longrightarrow> y \<noteq> ''.tmp-'' @ z" using assms(5) by auto
    then show ?thesis using fail(1,2,4) off [OF fail(3)] fail(3) [unfolded dirs_added_def, rule_format, of q] by auto
  next
    case (wrote fs1)
    then show ?thesis using off [OF wrote(3)] wrote(3) [unfolded dirs_added_def, rule_format, of q] by auto
  qed
  then show "fs_wf fs'"
    and "r = Ok () \<Longrightarrow> fs_get fs' (d @ [x]) = Some (NFile content)"
    and "r \<noteq> Ok () \<Longrightarrow> fs_get fs' (d @ [x]) = fs_get fs (d @ [x])"
    and "y \<noteq> x \<Longrightarrow> \<not> prefix ''.tmp-'' y \<Longrightarrow> fs_get fs' (d @ [y]) = fs_get fs (d @ [y])"
    and "(\<exists>y. q = d @ [y]) \<or> fs_get fs' q = fs_get fs q \<or>
         (prefix q d \<and> fs_get fs q = None \<and> fs_get fs' q = Some NDir)"
    and "r = Ok () \<Longrightarrow> q \<noteq> d @ [x] \<Longrightarrow> fs_get fs' q = fs_get fs q \<or>
         (prefix q d \<and> fs_get fs q = None \<and> fs_get fs' q = Some NDir)"
    by blast+
qed

section \<open>The part of the file system a VM owns\<close>

definition croot :: "fs_store \<Rightarrow> string list" where "croot st = resolve (st_configRoot st)"
definition rroot :: "fs_store \<Rightarrow> string list" where "rroot st = resolve (st_runRoot st)"
definition droot :: "fs_store \<Rightarrow> string list" where "droot st = resolve (st_dataRoot st)"

text \<open>The roots are three directories, none inside another.\<close>

definition roots_ok :: "fs_store \<Rightarrow> bool" where
  "roots_ok st \<longleftrightarrow>
     croot st \<parallel> droot st \<and> croot st \<parallel> rroot st \<and> droot st \<parallel> rroot st \<and> st_configRoot st \<noteq> []"

definition owns :: "fs_store \<Rightarrow> string \<Rightarrow> string list \<Rightarrow> bool" where
  "owns st vid q \<longleftrightarrow>
     prefix (croot st @ [vid]) q \<or> prefix (rroot st @ [vid]) q \<or> prefix (droot st @ [vid]) q"

text \<open>Outside of what a VM owns, the only change is that missing directories above the roots are made.\<close>

definition vm_frame :: "fs_store \<Rightarrow> string \<Rightarrow> fs \<Rightarrow> fs \<Rightarrow> bool" where
  "vm_frame st vid fs fs' \<longleftrightarrow>
     (\<forall>q. \<not> owns st vid q \<longrightarrow> fs_get fs' q = fs_get fs q \<or>
          ((prefix q (croot st) \<or> prefix q (rroot st) \<or> prefix q (droot st)) \<and>
           fs_get fs q = None \<and> fs_get fs' q = Some NDir))"

lemma vm_frame_refl [simp]: "vm_frame st vid fs fs"
  by (simp add: vm_frame_def)

lemma vm_frame_trans: "vm_frame st vid a b \<Longrightarrow> vm_frame st vid b c \<Longrightarrow> vm_frame st vid a c"
  unfolding vm_frame_def by (metis option.distinct(1))

lemma vm_frame_dirs:
  assumes "dirs_added d fs fs'" "owns st vid d"
  shows "vm_frame st vid fs fs'"
  unfolding vm_frame_def
proof (intro allI impI)
  fix q assume no: "\<not> owns st vid q"
  from assms(1) [unfolded dirs_added_def, rule_format, of q]
  show "fs_get fs' q = fs_get fs q \<or>
          ((prefix q (croot st) \<or> prefix q (rroot st) \<or> prefix q (droot st)) \<and>
           fs_get fs q = None \<and> fs_get fs' q = Some NDir)"
  proof (elim disjE conjE)
    assume p: "prefix q d" "fs_get fs q = None" "fs_get fs' q = Some NDir"
    have "prefix q x" if "prefix (x @ [vid]) d" "\<not> prefix (x @ [vid]) q" for x
      using prefix_same_cases [OF p(1) that(1)] that(2) by auto
    then show ?thesis using assms(2) no p unfolding owns_def by blast
  qed simp
qed

lemma vm_frame_write:
  assumes "writeAtomic env path content fs = (fs', r)" "fs_wf fs" "file_name vid"
    and "resolve path = croot st @ [vid, x]" "resolve (path_Dir path) = croot st @ [vid]" "\<not> prefix ''.tmp-'' x"
  shows "vm_frame st vid fs fs'"
  unfolding vm_frame_def
proof (intro allI impI)
  fix q assume no: "\<not> owns st vid q"
  then have "\<not> (\<exists>y. q = (croot st @ [vid]) @ [y])" by (auto simp: owns_def prefix_def)
  moreover have "prefix q (croot st @ [vid]) \<Longrightarrow> prefix q (croot st)" using no by (auto simp: owns_def)
  ultimately show "fs_get fs' q = fs_get fs q \<or>
          ((prefix q (croot st) \<or> prefix q (rroot st) \<or> prefix q (droot st)) \<and>
           fs_get fs q = None \<and> fs_get fs' q = Some NDir)"
    using writeAtomic_effect(5) [OF assms(1,2) _ assms(5,6), of q] assms(4) by auto
qed

text \<open>The files of another VM.\<close>

lemma owns_other:
  assumes "roots_ok st" "vid \<noteq> vid'"
  shows "\<not> owns st vid (croot st @ vid' # zs)"
    and "\<not> prefix (croot st @ vid' # zs) (rroot st)" "\<not> prefix (croot st @ vid' # zs) (droot st)"
proof -
  have no: "\<not> prefix (x @ [v]) (croot st @ zs')" if "croot st \<parallel> x" for x v zs'
  proof
    assume "prefix (x @ [v]) (croot st @ zs')"
    then have "prefix x (croot st @ zs')" by (metis append_prefixD)
    moreover have "prefix (croot st) (croot st @ zs')" by simp
    ultimately show False using that prefix_same_cases [of x "croot st @ zs'" "croot st"] by (auto simp: parallel_def)
  qed
  show "\<not> owns st vid (croot st @ vid' # zs)"
    using assms no unfolding owns_def roots_ok_def by (auto simp: prefix_def)
  show "\<not> prefix (croot st @ vid' # zs) (rroot st)" "\<not> prefix (croot st @ vid' # zs) (droot st)"
    using assms(1) unfolding roots_ok_def by (auto simp: parallel_def dest: append_prefixD)
qed

lemma vm_frame_other:
  assumes "vm_frame st vid fs fs'" "roots_ok st" "vid \<noteq> vid'"
  shows "fs_get fs' (croot st @ vid' # zs) = fs_get fs (croot st @ vid' # zs)"
proof -
  have "\<not> prefix (croot st @ vid' # zs) (croot st)" by (auto simp: prefix_def)
  then show ?thesis
    using assms(1) [unfolded vm_frame_def, rule_format, OF owns_other(1) [OF assms(2,3)], of zs]
      owns_other(2,3) [OF assms(2,3)] by blast
qed

definition vfile :: "fs_store \<Rightarrow> string \<Rightarrow> string \<Rightarrow> string list" where
  "vfile st vid x = croot st @ [vid, x]"

lemma vfile_paths:
  assumes "file_name vid"
  shows "resolve (pa_MetaPath (PathsFor st vid)) = vfile st vid ''meta.json''"
    and "resolve (pa_VMConfigPath (PathsFor st vid)) = vfile st vid ''vm.json''"
    and "resolve (pa_HooksPath (PathsFor st vid)) = vfile st vid ''hooks.json''"
    and "resolve (pa_EnvPath (PathsFor st vid)) = vfile st vid ''env''"
  using resolve_PathsFor [OF assms, of st] by (simp_all add: vfile_def croot_def)

lemma vfile_dirs:
  assumes "file_name vid"
  shows "resolve (path_Dir (pa_MetaPath (PathsFor st vid))) = croot st @ [vid]"
    and "resolve (path_Dir (pa_VMConfigPath (PathsFor st vid))) = croot st @ [vid]"
    and "resolve (path_Dir (pa_HooksPath (PathsFor st vid))) = croot st @ [vid]"
    and "resolve (path_Dir (pa_EnvPath (PathsFor st vid))) = croot st @ [vid]"
  using resolve_Dir_PathsFor [OF assms, of st] by (simp_all add: croot_def)

lemma vfile_ne [simp]: "vfile st vid x \<noteq> []" "vfile st vid x = vfile st vid y \<longleftrightarrow> x = y"
  by (simp_all add: vfile_def)

lemma write_vm_file:
  assumes "writeAtomic env path content fs = (fs', r)" "fs_wf fs" "file_name vid"
    and "resolve path = vfile st vid x" "resolve (path_Dir path) = croot st @ [vid]" "\<not> prefix ''.tmp-'' x"
  shows "fs_wf fs'" "vm_frame st vid fs fs'"
    and "fs_get fs' (vfile st vid x) = (if r = Ok () then Some (NFile content) else fs_get fs (vfile st vid x))"
    and "y \<noteq> x \<Longrightarrow> \<not> prefix ''.tmp-'' y \<Longrightarrow> fs_get fs' (vfile st vid y) = fs_get fs (vfile st vid y)"
  using writeAtomic_effect [OF assms(1,2), of "croot st @ [vid]" x] vm_frame_write [OF assms(1,2,3)] assms(4,5,6)
  by (auto simp: vfile_def)

lemma mkdir_each_effect:
  assumes "mkdir_each env dirs fs = (fs', r)" "fs_wf fs" "list_all (\<lambda>d. owns st vid (resolve d)) dirs"
    and "list_all (\<lambda>d. \<not> prefix p (resolve d)) dirs"
  shows "fs_wf fs' \<and> vm_frame st vid fs fs' \<and> fs_get fs' p = fs_get fs p \<and>
         (r = Ok () \<longrightarrow> list_all (\<lambda>d. fs_get fs' (resolve d) = Some NDir) dirs) \<and>
         (\<forall>q. fs_get fs q = Some NDir \<longrightarrow> fs_get fs' q = Some NDir)"
  using assms
proof (induction dirs arbitrary: fs)
  case (Cons d dirs)
  obtain fs1 r1 where m: "os_MkdirAll env d fs = (fs1, r1)" by fastforce
  note s = os_MkdirAll_spec [OF m Cons.prems(2)]
  have f: "vm_frame st vid fs fs1" using vm_frame_dirs [OF s(2)] Cons.prems(3) by simp
  have p: "fs_get fs1 p = fs_get fs p" using dirs_added_off [OF s(2)] Cons.prems(4) by simp
  note keep = dirs_added_keep [OF s(2)]
  show ?case
  proof (cases r1)
    case (Inl e)
    then have "fs' = fs1" "r = Err (OsErr e)" using Cons.prems(1) m by auto
    then show ?thesis using s f p keep by simp
  next
    case (Inr u)
    then have run: "mkdir_each env dirs fs1 = (fs', r)" using Cons.prems(1) m by auto
    from Cons.IH [OF run s(1)] Cons.prems(3,4)
    have *: "fs_wf fs'" "vm_frame st vid fs1 fs'" "fs_get fs' p = fs_get fs1 p"
      "r = Ok () \<longrightarrow> list_all (\<lambda>d. fs_get fs' (resolve d) = Some NDir) dirs"
      "\<forall>q. fs_get fs1 q = Some NDir \<longrightarrow> fs_get fs' q = Some NDir"
      by auto
    then show ?thesis using vm_frame_trans [OF f *(2)] p s(3) Inr keep by auto
  qed
qed simp

abbreviation save_dirs :: "vm_paths \<Rightarrow> string list" where
  "save_dirs paths \<equiv> [pa_ConfigDir paths, pa_RunDir paths, pa_DataDir paths, pa_LogsDir paths]"

lemma save_dirs_owned:
  assumes "file_name vid"
  shows "list_all (\<lambda>d. owns st vid (resolve d)) (save_dirs (PathsFor st vid))"
  using resolve_PathsFor [OF assms, of st] by (simp add: owns_def croot_def rroot_def droot_def)

lemma save_dirs_not_file:
  assumes "file_name vid" "roots_ok st"
  shows "list_all (\<lambda>d. \<not> prefix (vfile st vid x) (resolve d)) (save_dirs (PathsFor st vid))"
proof -
  have "\<not> prefix (croot st @ zs) (y @ zs')" if "croot st \<parallel> y" for y zs zs'
  proof
    assume "prefix (croot st @ zs) (y @ zs')"
    then have "prefix (croot st) (y @ zs')" by (rule append_prefixD)
    then show False using that prefix_same_cases [of "croot st" "y @ zs'" y] by (auto simp: parallel_def)
  qed
  then have "\<not> prefix (vfile st vid x) (y @ zs')" if "croot st \<parallel> y" for y zs'
    using that by (simp add: vfile_def)
  moreover have "\<not> prefix (vfile st vid x) (croot st @ [vid])" by (simp add: vfile_def)
  ultimately show ?thesis
    using resolve_PathsFor [OF assms(1), of st] assms(2) unfolding roots_ok_def
    by (simp add: croot_def rroot_def droot_def del: prefix_snoc)
qed

lemma write_vm_file_opt:
  assumes "(if b then writeAtomic env path content fs else (fs, Ok ())) = (fs', r)" "fs_wf fs" "file_name vid"
    and "resolve path = vfile st vid x" "resolve (path_Dir path) = croot st @ [vid]" "\<not> prefix ''.tmp-'' x"
  shows "fs_wf fs'" "vm_frame st vid fs fs'"
    and "fs_get fs' (vfile st vid x) = (if b \<and> r = Ok () then Some (NFile content) else fs_get fs (vfile st vid x))"
    and "y \<noteq> x \<Longrightarrow> \<not> prefix ''.tmp-'' y \<Longrightarrow> fs_get fs' (vfile st vid y) = fs_get fs (vfile st vid y)"
  using write_vm_file(1-3) [of env path content fs fs' r vid st x]
    write_vm_file(4) [of env path content fs fs' r vid st x y] assms by (auto split: if_splits)

lemma save_optional_effect:
  assumes run: "and_then (if b then writeAtomic env (pa_HooksPath (PathsFor st vid)) h fs else (fs, Ok ())) (\<lambda>fs _.
                and_then (if c then writeAtomic env (pa_EnvPath (PathsFor st vid)) e fs else (fs, Ok ())) (\<lambda>fs _.
                (fs, Ok paths))) = (fs', r)"
    and wf: "fs_wf fs" and fn: "file_name vid"
  shows "fs_wf fs' \<and> vm_frame st vid fs fs' \<and>
     fs_get fs' (vfile st vid ''meta.json'') = fs_get fs (vfile st vid ''meta.json'') \<and>
     fs_get fs' (vfile st vid ''vm.json'') = fs_get fs (vfile st vid ''vm.json'') \<and>
     (\<forall>ps. r = Ok ps \<longrightarrow> ps = paths \<and>
        fs_get fs' (vfile st vid ''hooks.json'') = (if b then Some (NFile h) else fs_get fs (vfile st vid ''hooks.json'')) \<and>
        fs_get fs' (vfile st vid ''env'') = (if c then Some (NFile e) else fs_get fs (vfile st vid ''env'')))"
  using run
proof (cases rule: and_then_cases)
  case (stop err)
  note w = write_vm_file_opt [OF stop(1) wf fn vfile_paths(3) [OF fn] vfile_dirs(3) [OF fn], simplified]
  show ?thesis using w stop(2) by simp
next
  case (go fs1 a)
  note w = write_vm_file_opt [OF go(1) wf fn vfile_paths(3) [OF fn] vfile_dirs(3) [OF fn], simplified]
  from go(2) show ?thesis
  proof (cases rule: and_then_cases)
    case (stop err)
    note w' = write_vm_file_opt [OF stop(1) w(1) fn vfile_paths(4) [OF fn] vfile_dirs(4) [OF fn], simplified]
    show ?thesis using w w' stop(2) vm_frame_trans [OF w(2) w'(2)] by simp
  next
    case (go fs2 a2)
    note w' = write_vm_file_opt [OF go(1) w(1) fn vfile_paths(4) [OF fn] vfile_dirs(4) [OF fn], simplified]
    show ?thesis using w w' go(2) vm_frame_trans [OF w(2) w'(2)] by auto
  qed
qed

text \<open>What saving a VM leaves, on success and on an error at any step.\<close>

lemma SaveVM_effect:
  assumes run: "SaveVM env st vid cfg meta hooks vars fs = (fs', r)"
    and wf: "fs_wf fs" and ok: "roots_ok st" and fn: "file_name vid"
  shows "fs_wf fs' \<and> vm_frame st vid fs fs' \<and>
     fs_get fs' (vfile st vid ''meta.json'') \<in>
       {fs_get fs (vfile st vid ''meta.json''),
        Some (NFile (JSONDoc (enc_meta (meta\<lparr>meta_Paths := PathsFor st vid\<rparr>))))} \<and>
     (\<forall>paths. r = Ok paths \<longrightarrow>
        paths = PathsFor st vid \<and>
        fs_get fs' (vfile st vid ''meta.json'') = Some (NFile (JSONDoc (enc_meta (meta\<lparr>meta_Paths := PathsFor st vid\<rparr>)))) \<and>
        fs_get fs' (vfile st vid ''vm.json'') = Some (NFile (JSONDoc (enc_config cfg))) \<and>
        fs_get fs' (vfile st vid ''hooks.json'') =
          (if hasHooks hooks then Some (NFile (JSONDoc (enc_hooks hooks))) else fs_get fs (vfile st vid ''hooks.json'')) \<and>
        fs_get fs' (vfile st vid ''env'') =
          (if length vars > 0 then Some (NFile (Raw (Join (env_lines vars) [CHR 10] @ [CHR 10])))
           else fs_get fs (vfile st vid ''env'')))"
    (is "?goal fs' r")
proof (cases "validateID vid")
  case (Some e)
  then show ?thesis using run wf by (auto simp: SaveVM_def)
next
  case None
  let ?P = "PathsFor st vid" and ?v = "vfile st vid"
  let ?m = "JSONDoc (enc_meta (meta\<lparr>meta_Paths := ?P\<rparr>))"
  note run' = run [unfolded SaveVM_def None option.case Let_def writeJSONAtomic_def writeEnvAtomic_def]
  from run' show ?thesis
  proof (cases rule: and_then_cases)
    case (stop e)
    then show ?thesis
      using mkdir_each_effect [OF stop(1) wf save_dirs_owned [OF fn] save_dirs_not_file [OF fn ok]] by auto
  next
    case (go fs1 a1)
    have f1: "fs_wf fs1" "vm_frame st vid fs fs1" "fs_get fs1 (?v x) = fs_get fs (?v x)" for x
      using mkdir_each_effect [OF go(1) wf save_dirs_owned [OF fn] save_dirs_not_file [OF fn ok]] by auto
    note w = write_vm_file [OF _ _ fn]
    from go(2) show ?thesis
    proof (cases rule: and_then_cases)
      case (stop e)
      note w2 = w [OF stop(1) f1(1) vfile_paths(2) [OF fn] vfile_dirs(2) [OF fn], simplified]
      show ?thesis using w2 f1 stop(2) vm_frame_trans [OF f1(2) w2(2)] by auto
    next
      case (go fs2 a2)
      note w2 = w [OF go(1) f1(1) vfile_paths(2) [OF fn] vfile_dirs(2) [OF fn], simplified]
      note fr2 = vm_frame_trans [OF f1(2) w2(2)]
      from go(2) show ?thesis
      proof (cases rule: and_then_cases)
        case (stop e)
        note w3 = w [OF stop(1) w2(1) vfile_paths(1) [OF fn] vfile_dirs(1) [OF fn], simplified]
        show ?thesis using w3 w2 f1 stop(2) vm_frame_trans [OF fr2 w3(2)] by auto
      next
        case (go fs3 a3)
        note w3 = w [OF go(1) w2(1) vfile_paths(1) [OF fn] vfile_dirs(1) [OF fn], simplified]
        note s = save_optional_effect [OF go(2) w3(1) fn]
        have "vm_frame st vid fs fs'"
          using vm_frame_trans [OF vm_frame_trans [OF fr2 w3(2)]] s by blast
        then show ?thesis using s w3 w2 f1 by auto
      qed
    qed
  qed
qed

section \<open>Reading\<close>

text \<open>An environment whose read calls do not fail for a reason of their own.\<close>

definition reads_ok :: "os_env \<Rightarrow> bool" where
  "reads_ok env \<longleftrightarrow>
     (\<forall>p fs. \<not> os_fault env CStat p fs \<and> \<not> os_fault env CReadFile p fs \<and> \<not> os_fault env CReadDir p fs)"

lemma readJSON_doc:
  assumes "fs_wf fs" "reads_ok env" "path \<noteq> []" "fs_get fs (resolve path) = Some (NFile (JSONDoc j))"
  shows "readJSON env dec_a out path fs = map_err JsonErr (dec_a j out)"
proof -
  have "os_ReadFile env path fs = Ok (JSONDoc j)" using assms by (simp add: os_ReadFile_Ok reads_ok_def)
  then show ?thesis by (simp add: readJSON_def)
qed

lemma readJSON_missing:
  assumes "reads_ok env" "path \<noteq> []" "lookup fs (resolve path) = Err ENOENT"
  shows "readJSON env dec_a out path fs = Err (OsErr ENOENT)"
  using assms by (simp add: readJSON_def os_ReadFile_def Let_def reads_ok_def)

lemma ReadMeta_saved:
  assumes "fs_wf fs" "reads_ok env" "validateID vid = None" "file_name vid" "meta_wf m"
    and "fs_get fs (vfile st vid ''meta.json'') = Some (NFile (JSONDoc (enc_meta m)))"
  shows "ReadMeta env st vid fs = Ok m"
  using readJSON_doc [OF assms(1,2) PathsFor_ne(5), of st vid "enc_meta m" dec_meta zero_meta] assms
  by (simp add: ReadMeta_def vfile_paths meta_codec.roundtrip)

lemma ReadVMConfig_saved:
  assumes "fs_wf fs" "reads_ok env" "validateID vid = None" "file_name vid" "config_wf c"
    and "fs_get fs (vfile st vid ''vm.json'') = Some (NFile (JSONDoc (enc_config c)))"
  shows "ReadVMConfig env st vid fs = Ok c"
  using readJSON_doc [OF assms(1,2) PathsFor_ne(4), of st vid "enc_config c" dec_config zero_config] assms
  by (simp add: ReadVMConfig_def vfile_paths config_codec.roundtrip)

lemma ReadHooks_saved:
  assumes "fs_wf fs" "reads_ok env" "validateID vid = None" "file_name vid" "hooks_wf h"
    and "fs_get fs (vfile st vid ''hooks.json'') = Some (NFile (JSONDoc (enc_hooks h)))"
  shows "ReadHooks env st vid fs = Ok h"
  using readJSON_doc [OF assms(1,2) PathsFor_ne(6), of st vid "enc_hooks h" dec_hooks zero_hooks] assms
  by (simp add: ReadHooks_def vfile_paths hooks_codec.roundtrip)

text \<open>In a directory that exists, a lookup depends only on the entry.\<close>

lemma lookup_in_dir:
  assumes "fs_wf fs" "fs_get fs d = Some NDir"
  shows "lookup fs (d @ [x]) = (case fs_get fs (d @ [x]) of None \<Rightarrow> Err ENOENT | Some n \<Rightarrow> Ok n)"
  using lookup_Ok [OF assms(1)] lookup_ENOENT [OF assms] by (auto split: option.splits)

lemma ReadMeta_cong:
  assumes "fs_wf fs" "fs_wf fs'" "reads_ok env" "file_name vid"
    and "fs_get fs (croot st @ [vid]) = Some NDir" "fs_get fs' (croot st @ [vid]) = Some NDir"
    and "fs_get fs' (vfile st vid ''meta.json'') = fs_get fs (vfile st vid ''meta.json'')"
  shows "ReadMeta env st vid fs' = ReadMeta env st vid fs"
proof -
  have "lookup fs' (vfile st vid ''meta.json'') = lookup fs (vfile st vid ''meta.json'')"
    using lookup_in_dir [OF assms(1,5)] lookup_in_dir [OF assms(2,6)] assms(7) by (simp add: vfile_def)
  then have r: "os_ReadFile env (pa_MetaPath (PathsFor st vid)) fs' = os_ReadFile env (pa_MetaPath (PathsFor st vid)) fs"
    using assms(3,4) by (simp add: os_ReadFile_def Let_def vfile_paths reads_ok_def)
  show ?thesis unfolding ReadMeta_def readJSON_def r ..
qed

section \<open>Listing\<close>

lemma ListVMIDs_set:
  assumes "ListVMIDs env st fs = Ok ids" "fs_wf fs" "roots_ok st" "reads_ok env"
  shows "sorted ids" "distinct ids" "set ids = {x. fs_get fs (croot st @ [x]) = Some NDir}"
proof -
  let ?cs = "children fs (croot st)"
  have ne: "st_configRoot st \<noteq> []" using assms(3) by (simp add: roots_ok_def)
  consider "lookup fs (croot st) = Err ENOENT" "ids = []"
    | "lookup fs (croot st) = Ok NDir" "ids = sort (map fst (filter snd (sort_key fst ?cs)))"
    using assms(1,4) ne
    by (auto simp: ListVMIDs_def os_ReadDir_def Let_def reads_ok_def croot_def
        split: sum.splits oserr.splits if_splits node.splits)
  then have "sorted ids \<and> distinct ids \<and> set ids = {x. fs_get fs (croot st @ [x]) = Some NDir}"
  proof cases
    case 1
    then have "fs_get fs (croot st) \<noteq> Some NDir" using lookup_Ok [OF assms(2), of "croot st" NDir] by simp
    then show ?thesis using fs_wf_below_None [OF assms(2)] 1 by simp
  next
    case 2
    have "distinct (map fst (sort_key fst ?cs))"
      using distinct_children [OF assms(2), of "croot st"]
      by (metis mset_map mset_sort mset_eq_imp_distinct_iff)
    then have "distinct (map fst (filter snd (sort_key fst ?cs)))" by (simp add: distinct_map_filter)
    moreover have "set (map fst (filter snd (sort_key fst ?cs))) = {x. fs_get fs (croot st @ [x]) = Some NDir}"
      using children_iff [OF assms(2)] by (force simp: image_iff)
    ultimately show ?thesis using 2 by simp
  qed
  then show "sorted ids" "distinct ids" "set ids = {x. fs_get fs (croot st @ [x]) = Some NDir}" by auto
qed

lemma ListVMIDs_Ok:
  assumes "fs_wf fs" "roots_ok st" "reads_ok env" "fs_get fs (croot st) = Some NDir"
  obtains ids where "ListVMIDs env st fs = Ok ids"
proof -
  have "lookup fs (croot st) = Ok NDir" using lookup_Ok [OF assms(1)] assms(4) by simp
  then show thesis using that assms(2,3)
    by (simp add: ListVMIDs_def os_ReadDir_def Let_def reads_ok_def croot_def roots_ok_def)
qed

text \<open>The metadata a list of identifiers gives.\<close>

definition metas_of :: "(string \<Rightarrow> (store_err, vm_metadata) result) \<Rightarrow> string list \<Rightarrow> vm_metadata list" where
  "metas_of rd ids = concat (map (\<lambda>x. case rd x of Ok m \<Rightarrow> [m] | Err _ \<Rightarrow> []) ids)"

lemma read_metas_iff:
  "read_metas env st fs ids = Ok ms \<longleftrightarrow>
     (\<forall>x \<in> set ids. \<forall>e. ReadMeta env st x fs = Err e \<longrightarrow> e = ErrNotFound) \<and>
     ms = metas_of (\<lambda>x. ReadMeta env st x fs) ids"
proof (induction ids arbitrary: ms)
  case (Cons x ids)
  show ?case
  proof (cases "read_metas env st fs ids")
    case (Inl e)
    then have "\<not> (\<forall>x \<in> set ids. \<forall>e. ReadMeta env st x fs = Err e \<longrightarrow> e = ErrNotFound)"
      using Cons [of "metas_of (\<lambda>x. ReadMeta env st x fs) ids"] by auto
    then show ?thesis using Inl by (auto split: sum.splits)
  next
    case (Inr ys)
    then show ?thesis using Cons [of ys] by (auto simp: metas_of_def split: sum.splits)
  qed
qed (auto simp: metas_of_def)

lemma metas_of_cong: "(\<And>x. x \<in> set ids \<Longrightarrow> f x = g x) \<Longrightarrow> metas_of f ids = metas_of g ids"
  by (simp add: metas_of_def cong: map_cong)

lemma mset_metas_of: "mset (metas_of f ids) = (\<Sum>x \<in># mset ids. case f x of Ok m \<Rightarrow> {#m#} | Err _ \<Rightarrow> {#})"
  by (induction ids) (auto simp: metas_of_def split: sum.splits)

text \<open>The part of one identifier and the part of the others.\<close>

definition metas_except :: "(string \<Rightarrow> (store_err, vm_metadata) result) \<Rightarrow> string \<Rightarrow> string set \<Rightarrow> vm_metadata multiset" where
  "metas_except f vid xs = (\<Sum>x \<in> xs - {vid}. case f x of Ok m \<Rightarrow> {#m#} | Err _ \<Rightarrow> {#})"

lemma mset_metas_split:
  assumes "distinct ids"
  shows "mset (metas_of f ids) =
    (if vid \<in> set ids then (case f vid of Ok m \<Rightarrow> {#m#} | Err _ \<Rightarrow> {#}) else {#}) + metas_except f vid (set ids)"
proof -
  have "mset (metas_of f ids) = (\<Sum>x \<in> set ids. case f x of Ok m \<Rightarrow> {#m#} | Err _ \<Rightarrow> {#})"
    using assms by (simp add: mset_metas_of sum_unfold_sum_mset mset_set_set)
  then show ?thesis unfolding metas_except_def
    by (cases "vid \<in> set ids") (auto simp: sum.remove)
qed

lemma metas_except_cong:
  assumes "xs - {vid} = ys - {vid}" "\<And>x. x \<in> xs \<Longrightarrow> x \<noteq> vid \<Longrightarrow> f x = g x"
  shows "metas_except f vid xs = metas_except g vid ys"
  unfolding metas_except_def using assms(1)
proof (rule sum.cong)
  fix x assume "x \<in> ys - {vid}"
  then have "x \<in> xs" "x \<noteq> vid" using assms(1) by auto
  then show "(case f x of Ok m \<Rightarrow> {#m#} | Err _ \<Rightarrow> {#}) = (case g x of Ok m \<Rightarrow> {#m#} | Err _ \<Rightarrow> {#})"
    using assms(2) by simp
qed

lemma lookup_ENOTDIR:
  assumes "fs_wf fs"
  shows "lookup_from fs cur xs = Err ENOTDIR \<longleftrightarrow>
    (\<exists>a b n. xs = a @ b \<and> b \<noteq> [] \<and> fs_get fs (cur @ a) = Some n \<and> n \<noteq> NDir)" (is "_ \<longleftrightarrow> ?R cur xs")
proof (induction xs arbitrary: cur)
  case (Cons x xs)
  show ?case
  proof (cases "fs_get fs cur = Some NDir")
    case True
    then have "?R cur (x # xs) \<longleftrightarrow> ?R (cur @ [x]) xs"
      by (auto simp: Cons_eq_append_conv)
    with True Cons [of "cur @ [x]"] show ?thesis by simp
  next
    case False
    have R: "?R cur (x # xs) \<longleftrightarrow> fs_get fs cur \<noteq> None"
    proof
      assume "?R cur (x # xs)"
      then obtain a b n where "x # xs = a @ b" "fs_get fs (cur @ a) = Some n" by blast
      then show "fs_get fs cur \<noteq> None"
        using fs_wf_above [OF assms, of cur a n] by (cases "a = []") auto
    next
      assume "fs_get fs cur \<noteq> None"
      then obtain n where "fs_get fs cur = Some n" by blast
      with False show "?R cur (x # xs)" by (intro exI [of _ "[]"] exI [of _ "x # xs"] exI [of _ n]) auto
    qed
    show ?thesis unfolding R using False by (auto split: option.splits node.splits)
  qed
qed (auto split: option.splits)

lemma lookup_Err: "lookup_from fs cur xs = Err e \<Longrightarrow> e = ENOENT \<or> e = ENOTDIR"
  by (induction xs arbitrary: cur) (auto split: option.splits node.splits)

text \<open>Making directories and changing a VM's own files does not turn a missing path into an error of another kind.\<close>

lemma ListVMIDs_frame:
  assumes "ListVMIDs env st fs = Ok ids" "fs_wf fs" "fs_wf fs'" "roots_ok st" "reads_ok env" "vm_frame st vid fs fs'"
  obtains ids' where "ListVMIDs env st fs' = Ok ids'"
proof (cases "fs_get fs' (croot st) = Some NDir")
  case True
  then show thesis using ListVMIDs_Ok [OF assms(3,4,5)] that by blast
next
  case False
  have own: "\<not> owns st vid a" if "prefix a (croot st)" for a
  proof -
    have "prefix (x @ [vid]) a \<Longrightarrow> prefix x (croot st)" for x
      using that by (meson append_prefixD prefix_order.trans)
    moreover have "\<not> prefix (croot st @ [vid]) a"
      using prefix_length_le [OF that] prefix_length_le [of "croot st @ [vid]" a] by auto
    ultimately show ?thesis using assms(4) unfolding owns_def roots_ok_def parallel_def by blast
  qed
  have keep: "fs_get fs' a = Some n \<Longrightarrow> n \<noteq> NDir \<Longrightarrow> prefix a (croot st) \<Longrightarrow> fs_get fs a = Some n" for a n
    using assms(6) own unfolding vm_frame_def by (metis option.inject)
  have "lookup fs (croot st) \<noteq> Err ENOTDIR"
    using assms(1,4,5) by (auto simp: ListVMIDs_def os_ReadDir_def Let_def croot_def reads_ok_def roots_ok_def split: sum.splits)
  then have old: "\<not> (\<exists>a b n. croot st = a @ b \<and> b \<noteq> [] \<and> fs_get fs a = Some n \<and> n \<noteq> NDir)"
    using lookup_ENOTDIR [OF assms(2), of "[]"] by (simp add: lookup_def)
  have no: "lookup fs' (croot st) \<noteq> Err ENOTDIR"
  proof
    assume "lookup fs' (croot st) = Err ENOTDIR"
    then obtain a b n where "croot st = a @ b" "b \<noteq> []" "fs_get fs' a = Some n" "n \<noteq> NDir"
      using lookup_ENOTDIR [OF assms(3), of "[]" "croot st"] by (auto simp: lookup_def)
    with keep [of a n] old show False by auto
  qed
  have "lookup fs' (croot st) \<noteq> Ok n" for n
  proof
    assume l: "lookup fs' (croot st) = Ok n"
    then have g: "fs_get fs' (croot st) = Some n" using lookup_Ok [OF assms(3)] by blast
    then have "n \<noteq> NDir" using False by blast
    then have "lookup fs (croot st) = Ok n" "n \<noteq> NDir" using keep [OF g] lookup_Ok [OF assms(2)] by auto
    then show False using assms(1,4,5)
      by (auto simp: ListVMIDs_def os_ReadDir_def Let_def croot_def reads_ok_def roots_ok_def split: node.splits)
  qed
  then have "lookup fs' (croot st) = Err ENOENT"
    using no lookup_Err [of fs' "[]" "croot st"] by (cases "lookup fs' (croot st)") (auto simp: lookup_def)
  then show thesis using that [of "[]"] assms(4,5)
    by (simp add: ListVMIDs_def os_ReadDir_def Let_def croot_def reads_ok_def roots_ok_def)
qed

section \<open>Listing after a change\<close>

text \<open>The identifiers that name a directory of their own.\<close>

definition ident :: "string \<Rightarrow> bool" where
  "ident vid \<longleftrightarrow> validateID vid = None \<and> vid \<noteq> ''.''"

lemma identD: "ident vid \<Longrightarrow> file_name vid" "ident vid \<Longrightarrow> validateID vid = None"
  using valid_file_name by (auto simp: ident_def)

definition store_ok :: "os_env \<Rightarrow> fs_store \<Rightarrow> fs \<Rightarrow> bool" where
  "store_ok env st fs \<longleftrightarrow> fs_wf fs \<and> reads_ok env \<and> roots_ok st"

text \<open>Listing after a change that stays within what one VM owns.\<close>

lemma ListMetas_frame:
  assumes ok: "store_ok env st fs" "fs_wf fs'" and fr: "vm_frame st vid fs fs'"
    and list: "ListMetas env st fs = Ok ms"
    and now: "fs_get fs' (croot st @ [vid]) = Some NDir \<Longrightarrow> ReadMeta env st vid fs' \<in> {Err ErrNotFound, Ok m}"
  obtains ms' rest where "ListMetas env st fs' = Ok ms'"
    "mset ms = rest + (if fs_get fs (croot st @ [vid]) = Some NDir then
                         (case ReadMeta env st vid fs of Ok m \<Rightarrow> {#m#} | Err _ \<Rightarrow> {#}) else {#})"
    "mset ms' = rest + (if fs_get fs' (croot st @ [vid]) = Some NDir then
                          (case ReadMeta env st vid fs' of Ok m \<Rightarrow> {#m#} | Err _ \<Rightarrow> {#}) else {#})"
proof -
  have wf: "fs_wf fs" and rd: "reads_ok env" and ro: "roots_ok st" using ok(1) by (auto simp: store_ok_def)
  obtain ids where ids: "ListVMIDs env st fs = Ok ids" and ms: "read_metas env st fs ids = Ok ms"
    using list by (auto simp: ListMetas_def split: sum.splits)
  obtain ids' where ids': "ListVMIDs env st fs' = Ok ids'"
    using ListVMIDs_frame [OF ids wf ok(2) ro rd fr] .
  note s = ListVMIDs_set [OF ids wf ro rd] and s' = ListVMIDs_set [OF ids' ok(2) ro rd]
  have same: "fs_get fs' (croot st @ [x]) = fs_get fs (croot st @ [x])" if "x \<noteq> vid" for x
    using vm_frame_other [OF fr ro, of x "[]"] that by simp
  then have sets: "set ids - {vid} = set ids' - {vid}" using s(3) s'(3) by auto
  have rd_same: "ReadMeta env st x fs' = ReadMeta env st x fs" if "x \<in> set ids" "x \<noteq> vid" for x
  proof -
    have d: "fs_get fs (croot st @ [x]) = Some NDir" using that s(3) by simp
    then have "file_name x" using fs_wf_get(1) [OF wf d] by simp
    moreover have "fs_get fs' (vfile st x ''meta.json'') = fs_get fs (vfile st x ''meta.json'')"
      using vm_frame_other [OF fr ro, of x] that by (simp add: vfile_def)
    ultimately show ?thesis using ReadMeta_cong [OF wf ok(2) rd] d same that by simp
  qed
  have ms_eq: "ms = metas_of (\<lambda>x. ReadMeta env st x fs) ids"
    and errs: "\<And>x e. x \<in> set ids \<Longrightarrow> ReadMeta env st x fs = Err e \<Longrightarrow> e = ErrNotFound"
    using ms by (auto simp: read_metas_iff)
  have "\<forall>x \<in> set ids'. \<forall>e. ReadMeta env st x fs' = Err e \<longrightarrow> e = ErrNotFound"
  proof (intro ballI allI impI)
    fix x e assume x: "x \<in> set ids'" "ReadMeta env st x fs' = Err e"
    show "e = ErrNotFound"
    proof (cases "x = vid")
      case True
      then show ?thesis using now x s'(3) by auto
    next
      case False
      then have "x \<in> set ids" using x(1) sets by auto
      with False x(2) show ?thesis using rd_same errs by simp
    qed
  qed
  then have l': "ListMetas env st fs' = Ok (metas_of (\<lambda>x. ReadMeta env st x fs') ids')"
    using ids' read_metas_iff [of env st fs' ids'] by (simp add: ListMetas_def)
  have "metas_except (\<lambda>x. ReadMeta env st x fs) vid (set ids) = metas_except (\<lambda>x. ReadMeta env st x fs') vid (set ids')"
    using sets rd_same by (intro metas_except_cong) auto
  then show thesis
    using that [OF l', of "metas_except (\<lambda>x. ReadMeta env st x fs) vid (set ids)"]
      mset_metas_split [OF s(2), of "\<lambda>x. ReadMeta env st x fs" vid]
      mset_metas_split [OF s'(2), of "\<lambda>x. ReadMeta env st x fs'" vid] s(3) s'(3) ms_eq
    by simp
qed

lemma readJSON_ENOENT:
  assumes "readJSON env dec_a out path fs = Err e" "e = OsErr ENOENT \<or> e = ErrNotFound"
  shows "os_ReadFile env path fs = Err ENOENT"
  using assms unfolding readJSON_def map_err_def
  by (cases "os_ReadFile env path fs") (auto split: body.splits if_splits sum.splits)

lemma ReadMeta_NotFound_None:
  assumes "fs_wf fs" "reads_ok env" "ident vid" "ReadMeta env st vid fs = Err ErrNotFound"
  shows "fs_get fs (vfile st vid ''meta.json'') = None"
proof -
  let ?p = "pa_MetaPath (PathsFor st vid)"
  obtain e where "readJSON env dec_meta zero_meta ?p fs = Err e" "e = OsErr ENOENT \<or> e = ErrNotFound"
    using assms(4) identD(2) [OF assms(3)] by (auto simp: ReadMeta_def split: sum.splits if_splits)
  then have r: "os_ReadFile env ?p fs = Err ENOENT" by (rule readJSON_ENOENT)
  have "\<not> os_fault env CReadFile (resolve ?p) fs" using assms(2) by (simp add: reads_ok_def)
  with r have "lookup fs (resolve ?p) = Err ENOENT"
    by (cases "lookup fs (resolve ?p)") (auto simp: os_ReadFile_def Let_def split: node.splits)
  then have "fs_get fs (resolve ?p) \<noteq> Some n" for n using lookup_Ok [OF assms(1), of "resolve ?p" n] by simp
  then show ?thesis using identD(1) [OF assms(3)] by (auto simp: vfile_paths)
qed

lemma ReadMeta_missing:
  assumes "fs_wf fs" "reads_ok env" "ident vid" "fs_get fs (croot st @ [vid]) = Some NDir"
    and "fs_get fs (vfile st vid ''meta.json'') = None"
  shows "ReadMeta env st vid fs = Err ErrNotFound"
proof -
  have "lookup fs (resolve (pa_MetaPath (PathsFor st vid))) = Err ENOENT"
    using lookup_in_dir [OF assms(1,4)] assms(5) identD [OF assms(3)] by (simp add: vfile_paths) (simp add: vfile_def)
  note r = readJSON_missing [OF assms(2) PathsFor_ne(5) this]
  show ?thesis unfolding ReadMeta_def r using identD [OF assms(3)] by simp
qed

lemma ListMetas_SaveVM:
  assumes run: "SaveVM env st vid cfg m hooks vars fs = (fs', r)"
    and ok: "store_ok env st fs" "ident vid" and mw: "meta_wf m"
    and list: "ListMetas env st fs = Ok ms" and new: "ReadMeta env st vid fs = Err ErrNotFound"
  shows "\<exists>ms'. ListMetas env st fs' = Ok ms' \<and>
     (mset ms' = mset ms \<or> mset ms' = add_mset (m\<lparr>meta_Paths := PathsFor st vid\<rparr>) (mset ms)) \<and>
     (\<forall>p. r = Ok p \<longrightarrow> mset ms' = add_mset (m\<lparr>meta_Paths := PathsFor st vid\<rparr>) (mset ms))"
proof -
  let ?m = "m\<lparr>meta_Paths := PathsFor st vid\<rparr>" and ?v = "vfile st vid ''meta.json''"
  have wf: "fs_wf fs" and rd: "reads_ok env" and ro: "roots_ok st" using ok(1) by (auto simp: store_ok_def)
  note id = identD [OF ok(2)]
  from SaveVM_effect [OF run wf ro id(1)]
  have wf': "fs_wf fs'" and fr: "vm_frame st vid fs fs'"
    and at: "fs_get fs' ?v = fs_get fs ?v \<or> fs_get fs' ?v = Some (NFile (JSONDoc (enc_meta ?m)))"
    and wrote: "\<And>p. r = Ok p \<Longrightarrow> fs_get fs' ?v = Some (NFile (JSONDoc (enc_meta ?m)))"
    by auto
  have none: "fs_get fs ?v = None" by (rule ReadMeta_NotFound_None [OF wf rd ok(2) new])
  have mw': "meta_wf ?m" using mw by (simp add: meta_wf_def)
  have dir: "fs_get fs' (croot st @ [vid]) = Some NDir" if "fs_get fs' ?v \<noteq> None"
    using that fs_wf_above [OF wf', of "croot st @ [vid]" "[''meta.json'']"] by (auto simp: vfile_def)
  have saved: "fs_get fs' ?v \<noteq> None \<Longrightarrow> ReadMeta env st vid fs' = Ok ?m"
    using at none ReadMeta_saved [OF wf' rd id(2,1) mw'] by auto
  have lost: "fs_get fs' ?v = None \<Longrightarrow> fs_get fs' (croot st @ [vid]) = Some NDir \<Longrightarrow> ReadMeta env st vid fs' = Err ErrNotFound"
    using ReadMeta_missing [OF wf' rd ok(2)] by blast
  obtain ms' rest where l: "ListMetas env st fs' = Ok ms'"
    "mset ms = rest + (if fs_get fs (croot st @ [vid]) = Some NDir then
        (case ReadMeta env st vid fs of Ok m \<Rightarrow> {#m#} | Err _ \<Rightarrow> {#}) else {#})"
    "mset ms' = rest + (if fs_get fs' (croot st @ [vid]) = Some NDir then
        (case ReadMeta env st vid fs' of Ok m \<Rightarrow> {#m#} | Err _ \<Rightarrow> {#}) else {#})"
    using ListMetas_frame [OF ok(1) wf' fr list, of ?m] saved lost by blast
  have "mset ms = rest" using l(2) new by (simp split: if_splits)
  moreover have "mset ms' = (if fs_get fs' ?v = None then rest else add_mset ?m rest)"
    using l(3) saved lost dir by (auto split: if_splits)
  ultimately show ?thesis using l(1) wrote by auto
qed

section \<open>Deleting\<close>

text \<open>Entries are taken away, and only entries of a given set.\<close>

definition shrinks :: "string list set \<Rightarrow> fs \<Rightarrow> fs \<Rightarrow> bool" where
  "shrinks A fs fs' \<longleftrightarrow>
     (fs_wf fs \<longrightarrow> fs_wf fs') \<and> (\<forall>q. q \<notin> A \<longrightarrow> fs_get fs' q = fs_get fs q) \<and>
     (\<forall>q. fs_get fs' q = fs_get fs q \<or> fs_get fs' q = None)"

definition below :: "string list \<Rightarrow> string list set" where
  "below p = {q. prefix p q}"

lemma shrinks_refl [simp]: "shrinks A fs fs"
  by (simp add: shrinks_def)

lemma shrinks_trans: "shrinks A a b \<Longrightarrow> shrinks B b c \<Longrightarrow> A \<union> B \<subseteq> C \<Longrightarrow> shrinks C a c"
  unfolding shrinks_def by (metis UnCI subset_iff)

lemma shrinks_None: "shrinks A a b \<Longrightarrow> fs_get a q = None \<Longrightarrow> fs_get b q = None"
  unfolding shrinks_def by metis

lemma remove_all_effect:
  assumes "remove_all env path fs = (fs', r)" "fs_wf fs"
  shows "shrinks (below (resolve path)) fs fs'"
    and "r = Ok () \<Longrightarrow> path \<noteq> [] \<Longrightarrow> q \<in> below (resolve path) \<Longrightarrow> fs_get fs' q = None"
proof -
  obtain r' where run: "os_RemoveAll env path fs = (fs', r')" and r: "r = map_err OsErr r'"
    using assms(1) by (auto simp: remove_all_def split: prod.splits)
  show "shrinks (below (resolve path)) fs fs'"
    unfolding shrinks_def below_def
    using os_RemoveAll_wf [OF run] os_RemoveAll_frame(1,3) [OF run] by (metis mem_Collect_eq not_None_eq)
  assume "r = Ok ()" "path \<noteq> []" "q \<in> below (resolve path)"
  then show "fs_get fs' q = None" using os_RemoveAll_gone [OF _ assms(2)] run r by (auto simp: below_def)
qed

text \<open>The part of the file system a delete takes away.\<close>

definition vm_area :: "fs_store \<Rightarrow> string \<Rightarrow> bool \<Rightarrow> string list set" where
  "vm_area st vid retainData =
     below (croot st @ [vid]) \<union> below (rroot st @ [vid]) \<union> (if retainData then {} else below (droot st @ [vid]))"

lemma DeleteVM_effect:
  assumes run: "DeleteVM env st vid retainData fs = (fs', r)" and wf: "fs_wf fs" and fn: "file_name vid"
  shows "shrinks (vm_area st vid retainData) fs fs' \<and>
         (r = Ok () \<longrightarrow> (\<forall>q \<in> vm_area st vid retainData. fs_get fs' q = None))"
proof (cases "validateID vid = None \<and> Exists env st vid fs = Ok True")
  case False
  then have "fs' = fs" "r \<noteq> Ok ()"
    using run by (auto simp: DeleteVM_def split: option.splits sum.splits bool.splits)
  then show ?thesis by simp
next
  case True
  let ?P = "PathsFor st vid" and ?A = "vm_area st vid retainData"
  note pa = resolve_PathsFor [OF fn, of st, folded croot_def rroot_def droot_def]
  note ne = PathsFor_ne(1-3) [OF fn, of st]
  have sub: "below (croot st @ [vid]) \<subseteq> ?A" "below (rroot st @ [vid]) \<subseteq> ?A"
    "\<not> retainData \<Longrightarrow> below (droot st @ [vid]) \<subseteq> ?A"
    by (auto simp: vm_area_def)
  have "and_then (remove_all env (pa_ConfigDir ?P) fs) (\<lambda>fs _.
      and_then (remove_all env (pa_RunDir ?P) fs) (\<lambda>fs _.
      if \<not> retainData then remove_all env (pa_DataDir ?P) fs else (fs, Ok ()))) = (fs', r)"
    using run True by (simp add: DeleteVM_def Let_def)
  then show ?thesis
  proof (cases rule: and_then_cases)
    case (stop e)
    then show ?thesis using remove_all_effect(1) [OF stop(1) wf, unfolded pa] shrinks_trans [OF shrinks_refl] sub(1) by auto
  next
    case (go fs1 a1)
    note e1 = remove_all_effect [OF go(1) wf, unfolded pa]
    have s1: "shrinks ?A fs fs1" using shrinks_trans [OF shrinks_refl e1(1)] sub(1) by auto
    then have wf1: "fs_wf fs1" using wf by (simp add: shrinks_def)
    have g1: "q \<in> below (croot st @ [vid]) \<Longrightarrow> fs_get fs1 q = None" for q using e1(2) ne by simp
    from go(2) show ?thesis
    proof (cases rule: and_then_cases)
      case (stop e)
      then show ?thesis
        using shrinks_trans [OF s1 remove_all_effect(1) [OF stop(1) wf1, unfolded pa]] sub(2) by auto
    next
      case (go fs2 a2)
      note e2 = remove_all_effect [OF go(1) wf1, unfolded pa]
      have s2: "shrinks ?A fs fs2" using shrinks_trans [OF s1 e2(1)] sub(2) by auto
      then have wf2: "fs_wf fs2" using wf by (simp add: shrinks_def)
      have g2: "q \<in> below (croot st @ [vid]) \<or> q \<in> below (rroot st @ [vid]) \<Longrightarrow> fs_get fs2 q = None" for q
        using e2(2) ne g1 shrinks_None [OF e2(1)] by auto
      show ?thesis
      proof (cases retainData)
        case True
        then have "fs' = fs2" using go(2) by simp
        then show ?thesis using s2 g2 True by (auto simp: vm_area_def)
      next
        case False
        then have "remove_all env (pa_DataDir ?P) fs2 = (fs', r)" using go(2) by simp
        note e3 = remove_all_effect [OF this wf2, unfolded pa]
        have "shrinks ?A fs fs'" using shrinks_trans [OF s2 e3(1)] sub(3) False by auto
        moreover have "r = Ok () \<Longrightarrow> q \<in> ?A \<Longrightarrow> fs_get fs' q = None" for q
          using e3(2) ne g2 [THEN shrinks_None [OF e3(1)]] False by (auto simp: vm_area_def)
        ultimately show ?thesis by blast
      qed
    qed
  qed
qed

lemma vm_area_owned: "q \<in> vm_area st vid b \<Longrightarrow> owns st vid q"
  by (auto simp: vm_area_def below_def owns_def split: if_splits)

lemma shrinks_vm_frame: "shrinks (vm_area st vid b) fs fs' \<Longrightarrow> vm_frame st vid fs fs'"
  unfolding shrinks_def vm_frame_def using vm_area_owned by blast

text \<open>After a delete, the VM is not found.\<close>

lemma DeleteVM_gone:
  assumes run: "DeleteVM env st vid retainData fs = (fs', Ok ())" and ok: "store_ok env st fs" "ident vid"
  shows "Exists env st vid fs' = Ok False" "ReadMeta env st vid fs' = Err ErrNotFound"
    "fs_get fs (croot st @ [vid]) = Some NDir" "fs_get fs' (croot st @ [vid]) = None"
proof -
  have wf: "fs_wf fs" and rd: "reads_ok env" and ro: "roots_ok st" using ok(1) by (auto simp: store_ok_def)
  note id = identD [OF ok(2)]
  note e = DeleteVM_effect [OF run wf id(1)]
  then have wf': "fs_wf fs'" using wf by (simp add: shrinks_def)
  have "os_Stat env (pa_MetaPath (PathsFor st vid)) fs \<noteq> Err x" for x
    using run id(2) by (auto simp: DeleteVM_def Exists_def split: sum.splits oserr.splits bool.splits)
  then obtain n where n: "fs_get fs (vfile st vid ''meta.json'') = Some n"
    using os_Stat_Ok [OF wf] vfile_paths [OF id(1)] by (metis sum.exhaust)
  then show d: "fs_get fs (croot st @ [vid]) = Some NDir"
    using fs_wf_above [OF wf, of "croot st @ [vid]" "[''meta.json'']"] by (simp add: vfile_def)
  then have c: "fs_get fs (croot st) = Some NDir" using fs_wf_above [OF wf, of "croot st" "[vid]"] by simp
  have "croot st \<notin> vm_area st vid retainData"
    using vm_area_owned ro unfolding owns_def roots_ok_def parallel_def
    by (metis append_prefixD not_Cons_self2 prefix_order.antisym append_self_conv prefixI)
  then have c': "fs_get fs' (croot st) = Some NDir" using e c by (simp add: shrinks_def)
  show g: "fs_get fs' (croot st @ [vid]) = None"
    using e by (auto simp: vm_area_def below_def)
  have l: "lookup fs' (resolve (pa_MetaPath (PathsFor st vid))) = Err ENOENT"
    using lookup_ENOENT [OF wf' c' g] vfile_paths(1) [OF id(1)] by (simp add: vfile_def)
  then have "os_Stat env (pa_MetaPath (PathsFor st vid)) fs' = Err ENOENT"
    using rd by (simp add: os_Stat_def Let_def reads_ok_def)
  then show "Exists env st vid fs' = Ok False" using id by (simp add: Exists_def)
  note r = readJSON_missing [OF rd PathsFor_ne(5) l]
  show "ReadMeta env st vid fs' = Err ErrNotFound" unfolding ReadMeta_def r using id by simp
qed

lemma ListMetas_DeleteVM:
  assumes run: "DeleteVM env st vid retainData fs = (fs', Ok ())" and ok: "store_ok env st fs" "ident vid"
    and list: "ListMetas env st fs = Ok ms"
  shows "\<exists>ms'. ListMetas env st fs' = Ok ms' \<and>
     mset ms = mset ms' + (case ReadMeta env st vid fs of Ok m \<Rightarrow> {#m#} | Err _ \<Rightarrow> {#})"
proof -
  have wf: "fs_wf fs" using ok(1) by (simp add: store_ok_def)
  have s: "shrinks (vm_area st vid retainData) fs fs'"
    using DeleteVM_effect [OF run wf identD(1) [OF ok(2)]] by blast
  then have wf': "fs_wf fs'" using wf by (simp add: shrinks_def)
  note g = DeleteVM_gone [OF run ok]
  show ?thesis
  proof (rule ListMetas_frame [OF ok(1) wf' shrinks_vm_frame [OF s] list, of zero_meta])
    fix ms' rest
    assume "ListMetas env st fs' = Ok ms'"
      "mset ms = rest + (if fs_get fs (croot st @ [vid]) = Some NDir then
          (case ReadMeta env st vid fs of Ok m \<Rightarrow> {#m#} | Err _ \<Rightarrow> {#}) else {#})"
      "mset ms' = rest + (if fs_get fs' (croot st @ [vid]) = Some NDir then
          (case ReadMeta env st vid fs' of Ok m \<Rightarrow> {#m#} | Err _ \<Rightarrow> {#}) else {#})"
    then show ?thesis using g(3,4) by simp
  qed (simp add: g(2))
qed

lemma ListMetas_ReadMeta:
  assumes "ListMetas env st fs = Ok ms" "store_ok env st fs" "fs_get fs (croot st @ [vid]) = Some NDir"
  shows "ReadMeta env st vid fs = Err ErrNotFound \<or> (\<exists>m. ReadMeta env st vid fs = Ok m)"
proof -
  obtain ids where ids: "ListVMIDs env st fs = Ok ids" "read_metas env st fs ids = Ok ms"
    using assms(1) by (auto simp: ListMetas_def split: sum.splits)
  then have "vid \<in> set ids" using ListVMIDs_set(3) [OF ids(1)] assms(2,3) by (simp add: store_ok_def)
  then show ?thesis using ids(2) by (cases "ReadMeta env st vid fs") (auto simp: read_metas_iff)
qed

text \<open>A delete that stops half way leaves the listing, or a part of it.\<close>

lemma ListMetas_DeleteVM_any:
  assumes run: "DeleteVM env st vid retainData fs = (fs', r)" and ok: "store_ok env st fs" "ident vid"
    and list: "ListMetas env st fs = Ok ms"
  shows "\<exists>ms' R. ListMetas env st fs' = Ok ms' \<and> mset ms = mset ms' + R"
proof -
  have wf: "fs_wf fs" and rd: "reads_ok env" using ok(1) by (auto simp: store_ok_def)
  have s: "shrinks (vm_area st vid retainData) fs fs'"
    using DeleteVM_effect [OF run wf identD(1) [OF ok(2)]] by blast
  then have wf': "fs_wf fs'" using wf by (simp add: shrinks_def)
  let ?d = "croot st @ [vid]" and ?v = "vfile st vid ''meta.json''"
  obtain m where m: "fs_get fs ?d = Some NDir \<Longrightarrow> ReadMeta env st vid fs \<in> {Err ErrNotFound, Ok m}"
    using ListMetas_ReadMeta [OF list ok(1)] by blast
  have sub: "fs_get fs' q = fs_get fs q \<or> fs_get fs' q = None" for q using s by (simp add: shrinks_def)
  have d: "fs_get fs ?d = Some NDir" if "fs_get fs' ?d = Some NDir" using sub [of ?d] that by simp
  have now: "ReadMeta env st vid fs' \<in> {Err ErrNotFound, ReadMeta env st vid fs}" if "fs_get fs' ?d = Some NDir"
  proof (cases "fs_get fs' ?v")
    case None
    then show ?thesis using ReadMeta_missing [OF wf' rd ok(2) that] by simp
  next
    case (Some n)
    then have "fs_get fs' ?v = fs_get fs ?v" using sub [of ?v] by simp
    then show ?thesis using ReadMeta_cong [OF wf wf' rd identD(1) [OF ok(2)] d [OF that] that] by simp
  qed
  show ?thesis
  proof (rule ListMetas_frame [OF ok(1) wf' shrinks_vm_frame [OF s] list, of m])
    fix ms' rest
    assume l: "ListMetas env st fs' = Ok ms'"
      "mset ms = rest + (if fs_get fs ?d = Some NDir then
          (case ReadMeta env st vid fs of Ok m \<Rightarrow> {#m#} | Err _ \<Rightarrow> {#}) else {#})"
      "mset ms' = rest + (if fs_get fs' ?d = Some NDir then
          (case ReadMeta env st vid fs' of Ok m \<Rightarrow> {#m#} | Err _ \<Rightarrow> {#}) else {#})"
    have "mset ms' \<subseteq># mset ms" using l(2,3) d now by (auto split: sum.splits)
    then show ?thesis using l(1) by (metis subset_mset.add_diff_inverse)
  next
    assume "fs_get fs' ?d = Some NDir"
    then show "ReadMeta env st vid fs' \<in> {Err ErrNotFound, Ok m}" using now m d by fastforce
  qed
qed

text \<open>A change outside of the configuration root leaves the listing.\<close>

lemma ListMetas_same:
  assumes ok: "store_ok env st fs" "fs_wf fs'" and fr: "vm_frame st v fs fs'"
    and same: "\<And>zs. fs_get fs' (croot st @ v # zs) = fs_get fs (croot st @ v # zs)"
    and list: "ListMetas env st fs = Ok ms"
  shows "\<exists>ms'. ListMetas env st fs' = Ok ms' \<and> mset ms' = mset ms"
proof -
  have wf: "fs_wf fs" and rd: "reads_ok env" using ok(1) by (auto simp: store_ok_def)
  let ?d = "croot st @ [v]"
  have eq: "ReadMeta env st v fs' = ReadMeta env st v fs" if "fs_get fs ?d = Some NDir"
  proof -
    have "file_name v" using fs_wf_get(1) [OF wf that] by simp
    then show ?thesis using ReadMeta_cong [OF wf ok(2) rd _ that] same [of "[]"] same that by (simp add: vfile_def)
  qed
  obtain m where m: "fs_get fs ?d = Some NDir \<Longrightarrow> ReadMeta env st v fs \<in> {Err ErrNotFound, Ok m}"
    using ListMetas_ReadMeta [OF list ok(1)] by blast
  show ?thesis
  proof (rule ListMetas_frame [OF ok fr list, of m])
    assume "fs_get fs' ?d = Some NDir"
    then show "ReadMeta env st v fs' \<in> {Err ErrNotFound, Ok m}" using eq m same [of "[]"] by simp
  next
    fix ms' rest
    assume "ListMetas env st fs' = Ok ms'"
      "mset ms = rest + (if fs_get fs ?d = Some NDir then
          (case ReadMeta env st v fs of Ok m \<Rightarrow> {#m#} | Err _ \<Rightarrow> {#}) else {#})"
      "mset ms' = rest + (if fs_get fs' ?d = Some NDir then
          (case ReadMeta env st v fs' of Ok m \<Rightarrow> {#m#} | Err _ \<Rightarrow> {#}) else {#})"
    then show ?thesis using eq same [of "[]"] by simp
  qed
qed

section \<open>The interface of a store\<close>

text \<open>
  What the manager relies on (\<open>manager.Store\<close>): identifiers are independent of each other, what was
  saved is read and listed, and what was deleted is not.  A save that fails leaves the old listing
  or the new one.
\<close>

locale vm_store =
  fixes save :: "string \<Rightarrow> vm_config \<Rightarrow> vm_metadata \<Rightarrow> hooks_config \<Rightarrow> string gomap \<Rightarrow> 's \<Rightarrow> 's \<times> ('e, vm_paths) result"
    and read_meta :: "string \<Rightarrow> 's \<Rightarrow> ('e, vm_metadata) result"
    and list_metas :: "'s \<Rightarrow> ('e, vm_metadata list) result"
    and delete :: "string \<Rightarrow> bool \<Rightarrow> 's \<Rightarrow> 's \<times> ('e, unit) result"
    and place :: "string \<Rightarrow> vm_paths"
    and inv :: "'s \<Rightarrow> bool"
    and usable :: "string \<Rightarrow> bool"
    and absent :: 'e
  assumes save_inv: "save v c m h x s = (s', r) \<Longrightarrow> inv s \<Longrightarrow> usable v \<Longrightarrow> inv s'"
    and save_reads: "save v c m h x s = (s', Ok p) \<Longrightarrow> inv s \<Longrightarrow> usable v \<Longrightarrow> meta_wf m \<Longrightarrow>
          p = place v \<and> read_meta v s' = Ok (m\<lparr>meta_Paths := place v\<rparr>)"
    and save_lists: "save v c m h x s = (s', r) \<Longrightarrow> inv s \<Longrightarrow> usable v \<Longrightarrow> meta_wf m \<Longrightarrow>
          list_metas s = Ok ms \<Longrightarrow> read_meta v s = Err absent \<Longrightarrow>
          \<exists>ms'. list_metas s' = Ok ms' \<and>
            (mset ms' = mset ms \<or> mset ms' = add_mset (m\<lparr>meta_Paths := place v\<rparr>) (mset ms))"
    and delete_inv: "delete v k s = (s', u) \<Longrightarrow> inv s \<Longrightarrow> usable v \<Longrightarrow> inv s'"
    and delete_absent: "delete v k s = (s', Ok ()) \<Longrightarrow> inv s \<Longrightarrow> usable v \<Longrightarrow> read_meta v s' = Err absent"
    and delete_lists: "delete v k s = (s', Ok ()) \<Longrightarrow> inv s \<Longrightarrow> usable v \<Longrightarrow> list_metas s = Ok ms \<Longrightarrow>
          \<exists>ms'. list_metas s' = Ok ms' \<and>
            mset ms = mset ms' + (case read_meta v s of Ok m \<Rightarrow> {#m#} | Err _ \<Rightarrow> {#})"
begin

lemma save_delete_lists:
  assumes "save v c m h x s = (s1, Ok p)" "delete v k s1 = (s2, Ok ())" "inv s" "usable v" "meta_wf m"
    and "list_metas s = Ok ms" "read_meta v s = Err absent" "list_metas s1 = Ok ms1"
    and "mset ms1 = add_mset (m\<lparr>meta_Paths := place v\<rparr>) (mset ms)"
  shows "\<exists>ms'. list_metas s2 = Ok ms' \<and> mset ms' = mset ms"
  using delete_lists [OF assms(2) save_inv [OF assms(1,3,4)] assms(4,8)] save_reads [OF assms(1,3,4,5)] assms(9)
  by auto

end

text \<open>Uniqueness of addresses and ports does not depend on the order of a listing.\<close>

lemma mset_used_ips: "mset (used_ips ms) = filter_mset (\<lambda>x. x \<noteq> []) (image_mset meta_GuestIP (mset ms))"
  by (induction ms) (auto simp: used_ips_def)

lemma mset_used_ports: "mset (used_ports ms) = (\<Sum>m \<in># mset ms. mset (map pb_Host (meta_Ports m)))"
  by (induction ms) (auto simp: used_ports_def)

lemma unique_resources_mset: "mset ms = mset ms' \<Longrightarrow> unique_resources ms = unique_resources ms'"
  unfolding unique_resources_def
  by (metis mset_used_ips mset_used_ports mset_eq_imp_distinct_iff)

lemma unique_resources_sub:
  assumes "unique_resources ms" "mset ms = mset ms' + R"
  shows "unique_resources ms'"
proof -
  obtain xs where "mset xs = R" by (meson ex_mset)
  with assms have "unique_resources (ms' @ xs)" using unique_resources_mset [of ms "ms' @ xs"] by simp
  then show ?thesis by (auto simp: unique_resources_def used_ips_def used_ports_def)
qed

text \<open>A store together with an allocator that is asked against the store's listing.\<close>

locale provisioning = vm_store save read_meta list_metas delete place inv usable absent + resource_allocator alloc
  for save read_meta list_metas delete place inv usable absent
    and alloc :: "vm_metadata list \<Rightarrow> port_binding_request list \<Rightarrow> ('f, string \<times> port_binding list) result"
begin

lemma provision_unique:
  assumes "inv s" "usable v" "list_metas s = Ok ms" "unique_resources ms" "read_meta v s = Err absent"
    and "alloc ms reqs = Ok (meta_GuestIP m, meta_Ports m)" "meta_wf m"
    and "save v c m h x s = (s', r)"
  shows "\<exists>ms'. list_metas s' = Ok ms' \<and> unique_resources ms'"
proof -
  obtain ms' where l: "list_metas s' = Ok ms'"
    and m: "mset ms' = mset ms \<or> mset ms' = mset (m\<lparr>meta_Paths := place v\<rparr> # ms)"
    using save_lists [OF assms(8,1,2,7,3,5)] by auto
  have "unique_resources (m\<lparr>meta_Paths := place v\<rparr> # ms)"
    by (rule add_keeps_unique [OF assms(4,6)]) simp_all
  then have "unique_resources ms'" using m assms(4) unique_resources_mset by metis
  with l show ?thesis by blast
qed

lemma delete_unique:
  assumes "inv s" "usable v" "list_metas s = Ok ms" "unique_resources ms" "delete v k s = (s', Ok ())"
  shows "\<exists>ms'. list_metas s' = Ok ms' \<and> unique_resources ms'"
  using delete_lists [OF assms(5,1,2,3)] unique_resources_sub [OF assms(4)] by metis

end

interpretation fs_prov: provisioning
  "SaveVM env st" "ReadMeta env st" "ListMetas env st" "DeleteVM env st" "PathsFor st" "store_ok env st" ident
  ErrNotFound "Allocate a"
  for env st a
proof unfold_locales
  fix v c m h x s s' r
  assume run: "SaveVM env st v c m h x s = (s', r)" and ok: "store_ok env st s" "ident v"
  have wf: "fs_wf s" and ro: "roots_ok st" using ok(1) by (auto simp: store_ok_def)
  note e = SaveVM_effect [OF run wf ro identD(1) [OF ok(2)]]
  show "store_ok env st s'" using e ok(1) by (simp add: store_ok_def)
next
  fix v c m h x s s' p
  assume run: "SaveVM env st v c m h x s = (s', Ok p)" and ok: "store_ok env st s" "ident v" and m: "meta_wf m"
  have wf: "fs_wf s" and ro: "roots_ok st" and rd: "reads_ok env" using ok(1) by (auto simp: store_ok_def)
  note e = SaveVM_effect [OF run wf ro identD(1) [OF ok(2)]]
  have "meta_wf (m\<lparr>meta_Paths := PathsFor st v\<rparr>)" using m by (simp add: meta_wf_def)
  then show "p = PathsFor st v \<and> ReadMeta env st v s' = Ok (m\<lparr>meta_Paths := PathsFor st v\<rparr>)"
    using e ReadMeta_saved [OF _ rd identD(2,1) [OF ok(2)]] by blast
next
  fix v c m h x s s' r ms
  assume "SaveVM env st v c m h x s = (s', r)" "store_ok env st s" "ident v" "meta_wf m"
    "ListMetas env st s = Ok ms" "ReadMeta env st v s = Err ErrNotFound"
  from ListMetas_SaveVM [OF this]
  show "\<exists>ms'. ListMetas env st s' = Ok ms' \<and>
     (mset ms' = mset ms \<or> mset ms' = add_mset (m\<lparr>meta_Paths := PathsFor st v\<rparr>) (mset ms))" by blast
next
  fix v k s s' r
  assume "DeleteVM env st v k s = (s', r)" "store_ok env st s" "ident v"
  then show "store_ok env st s'"
    using DeleteVM_effect [of env st v k s s' r] identD(1) by (auto simp: store_ok_def shrinks_def)
next
  fix v k s s'
  assume "DeleteVM env st v k s = (s', Ok ())" "store_ok env st s" "ident v"
  then show "ReadMeta env st v s' = Err ErrNotFound" by (rule DeleteVM_gone)
next
  fix v k s s' ms
  assume "DeleteVM env st v k s = (s', Ok ())" "store_ok env st s" "ident v" "ListMetas env st s = Ok ms"
  then show "\<exists>ms'. ListMetas env st s' = Ok ms' \<and>
     mset ms = mset ms' + (case ReadMeta env st v s of Ok m \<Rightarrow> {#m#} | Err _ \<Rightarrow> {#})"
    by (rule ListMetas_DeleteVM)
qed

end
