(* ===== verification/Store_Spec.thy ===== *)
theory Store_Spec
  imports Store
begin

text \<open>
  The properties of the VM store of \<open>src/internal/store/fs_store.go\<close>: atomic writes, what is read
  back, isolation of VMs, success of a save, deletion, listing, quoting and the confinement of
  identifiers, with the sample data their witnesses use.
\<close>

section \<open>Saving succeeds\<close>

text \<open>An environment in which no call fails by itself and temporary names are new.\<close>

definition quiet :: "os_env \<Rightarrow> bool" where
  "quiet env \<longleftrightarrow>
     (\<forall>c p fs. \<not> os_fault env c p fs) \<and>
     (\<forall>fs d. fs_get fs (d @ [''.tmp-'' @ dec (os_tmp env fs)]) = None)"

text \<open>No file stands where a directory is needed.\<close>

definition unblocked :: "fs \<Rightarrow> string list \<Rightarrow> bool" where
  "unblocked fs p \<longleftrightarrow> (\<forall>q. prefix q p \<longrightarrow> fs_get fs q = None \<or> fs_get fs q = Some NDir)"

lemma unblocked_dirs_added: "unblocked fs p \<Longrightarrow> dirs_added d fs fs' \<Longrightarrow> unblocked fs' p"
  unfolding unblocked_def dirs_added_def by metis

lemma unblocked_prefix: "unblocked fs p \<Longrightarrow> prefix p' p \<Longrightarrow> unblocked fs p'"
  unfolding unblocked_def by (meson prefix_order.trans)

lemma unblocked_dir: "fs_wf fs \<Longrightarrow> fs_get fs d = Some NDir \<Longrightarrow> unblocked fs d"
  unfolding unblocked_def prefix_def
  by (metis append.right_neutral fs_wf_above)

lemma quiet_reads_ok: "quiet env \<Longrightarrow> reads_ok env"
  by (simp add: quiet_def reads_ok_def)

lemma mkdirs_Ok:
  assumes "quiet env"
  shows "unblocked fs (cur @ xs) \<Longrightarrow> \<exists>fs'. mkdirs env cur xs fs = (fs', Ok ())"
proof (induction xs arbitrary: cur fs)
  case (Cons x xs)
  let ?p = "cur @ [x]"
  have "fs_get fs ?p = None \<or> fs_get fs ?p = Some NDir"
    using Cons.prems by (auto simp: unblocked_def)
  then show ?case
  proof
    assume "fs_get fs ?p = Some NDir"
    then show ?thesis using Cons.IH [of fs ?p] Cons.prems by (simp add: Let_def)
  next
    assume n: "fs_get fs ?p = None"
    have "unblocked (fs_put ?p NDir fs) (?p @ xs)"
      using Cons.prems by (simp add: unblocked_def)
    then show ?thesis using Cons.IH [of "fs_put ?p NDir fs" ?p] n assms by (simp add: Let_def quiet_def)
  qed
qed simp

lemma os_MkdirAll_Ok:
  assumes "quiet env" "unblocked fs (resolve path)" "path \<noteq> []"
  shows "\<exists>fs'. os_MkdirAll env path fs = (fs', Ok ())"
  using mkdirs_Ok [OF assms(1), of fs "[]" "resolve path"] assms by (simp add: os_MkdirAll_def)

lemma writeAtomic_Ok:
  assumes q: "quiet env" and wf: "fs_wf fs" and d: "fs_get fs d = Some NDir" "fs_get fs (d @ [x]) \<noteq> Some NDir"
    and path: "resolve path = d @ [x]" "resolve (path_Dir path) = d" and x: "\<not> prefix ''.tmp-'' x"
  shows "\<exists>fs'. writeAtomic env path content fs = (fs', Ok ())"
proof -
  let ?n = "''.tmp-'' @ dec (os_tmp env fs)"
  define T where "T = d @ [?n]"
  have pd: "path_Dir path \<noteq> []" by (simp add: path_Dir_def)
  have m: "os_MkdirAll env (path_Dir path) fs = (fs, Ok ())"
    using mkdirs_existing [OF wf, of "[]" d] d path pd by (simp add: os_MkdirAll_def)
  have "CHR ''/'' \<notin> set (dec (os_tmp env fs))"
    using dec_char_digit [of "CHR ''/''" "os_tmp env fs"] by (auto simp: is_digit_def)
  then have fnm: "file_name ?n" by (simp add: file_name_def)
  define tmp where "tmp = path_Join [path_Dir path, ?n]"
  have rt: "resolve tmp = T" using resolve_path_Join [OF fnm] path by (simp add: tmp_def T_def)
  have none: "fs_get fs T = None" using q by (simp add: quiet_def T_def)
  have nf: "os_fault env c p f = False" for c p f using q by (simp add: quiet_def)
  have par: "parent_dir fs T = Ok ()" using parent_dir_Ok [OF wf, of T] d(1) by (simp add: T_def)
  let ?fs2 = "fs_put T (NFile (Raw [])) fs" and ?fs3 = "fs_put T (NFile content) (fs_put T (NFile (Raw [])) fs)"
  have c: "os_CreateTemp env (path_Dir path) fs = (?fs2, Ok tmp)"
    using none par rt unfolding os_CreateTemp_def Let_def tmp_def by (simp add: nf)
  have Tn: "T \<noteq> []" "list_all file_name T" using resolve_names [of tmp] rt by (simp_all add: T_def)
  have wf2: "fs_wf ?fs2" using wf Tn d(1) none by (intro fs_wf_put) (auto simp: T_def)
  have bt: "butlast T = d" "d \<noteq> T" by (simp_all add: T_def)
  have wf3: "fs_wf ?fs3" by (rule fs_wf_put [OF wf2]) (use Tn d(1) bt in auto)
  have w: "file_Write env tmp content ?fs2 = (?fs3, Ok ())" by (simp add: file_Write_def Let_def nf rt)
  have cl: "file_Close env tmp ?fs3 = Ok ()" by (simp add: file_Close_def nf)
  have l3: "lookup ?fs3 T = Ok (NFile content)" using lookup_Ok [OF wf3] Tn by simp
  then have ch: "os_Chmod env tmp ?fs3 = Ok ()" by (simp add: os_Chmod_def Let_def nf rt)
  have ne: "T \<noteq> d @ [x]" "d \<noteq> T" using x by (auto simp: T_def)
  then have "parent_dir ?fs3 (d @ [x]) = Ok ()" using parent_dir_Ok [OF wf3, of "d @ [x]"] d(1) Tn by simp
  then have "\<exists>fs4. os_Rename env tmp path ?fs3 = (fs4, Ok ())"
    using l3 d(2) ne Tn by (simp add: os_Rename_def Let_def nf rt path)
  then show ?thesis by (auto simp: writeAtomic_def m c w cl ch)
qed

lemma mkdir_each_Ok:
  assumes "quiet env" "fs_wf fs" "list_all (\<lambda>d. d \<noteq> [] \<and> unblocked fs (resolve d)) dirs"
  shows "\<exists>fs'. mkdir_each env dirs fs = (fs', Ok ())"
  using assms(2,3)
proof (induction dirs arbitrary: fs)
  case (Cons d dirs)
  obtain fs1 where m: "os_MkdirAll env d fs = (fs1, Ok ())"
    using os_MkdirAll_Ok [OF assms(1)] Cons.prems(2) by auto
  note s = os_MkdirAll_spec [OF m Cons.prems(1)]
  have "list_all (\<lambda>d. d \<noteq> [] \<and> unblocked fs1 (resolve d)) dirs"
    using Cons.prems(2) unblocked_dirs_added [OF _ s(2)] by (auto simp: list_all_iff)
  then show ?case using Cons.IH [OF s(1)] m by simp
qed simp

lemma SaveVM_Ok:
  assumes q: "quiet env" and wf: "fs_wf fs" and ro: "roots_ok st" and id: "ident vid"
    and free: "unblocked fs (croot st @ [vid])" "unblocked fs (rroot st @ [vid])" "unblocked fs (droot st @ [vid, ''logs''])"
    and files: "\<forall>x \<in> {''vm.json'', ''meta.json'', ''hooks.json'', ''env''}. fs_get fs (vfile st vid x) \<noteq> Some NDir"
  shows "\<exists>fs'. SaveVM env st vid cfg meta hooks vars fs = (fs', Ok (PathsFor st vid))"
proof -
  let ?P = "PathsFor st vid" and ?v = "vfile st vid" and ?d = "croot st @ [vid]"
  note fn = identD(1) [OF id]
  note pa = resolve_PathsFor [OF fn, of st, folded croot_def rroot_def droot_def]
  have lg: "pa_LogsDir ?P \<noteq> []" by (simp add: PathsFor_def Let_def path_Join_ne)
  have "unblocked fs (droot st @ [vid])" by (rule unblocked_prefix [OF free(3)]) simp
  then obtain fs1 where m: "mkdir_each env (save_dirs ?P) fs = (fs1, Ok ())"
    using mkdir_each_Ok [OF q wf, of "save_dirs ?P"] free pa PathsFor_ne(1-3) [OF fn, of st] lg by auto
  note e1 = mkdir_each_effect [OF m wf save_dirs_owned [OF fn] save_dirs_not_file [OF fn ro]]
  define I where "I fs \<longleftrightarrow> fs_wf fs \<and> fs_get fs ?d = Some NDir \<and>
    (\<forall>x \<in> {''vm.json'', ''meta.json'', ''hooks.json'', ''env''}. fs_get fs (?v x) \<noteq> Some NDir)" for fs
  have I1: "I fs1" using e1 files pa(1) unfolding I_def by (simp add: list_all_iff)
  have step: "\<exists>fs'. writeAtomic env path content f = (fs', Ok ()) \<and> I fs'"
    if "I f" "resolve path = ?v x" "resolve (path_Dir path) = ?d" "x \<in> {''vm.json'', ''meta.json'', ''hooks.json'', ''env''}"
    for path content f x
  proof -
    note th = that
    have x: "\<not> prefix ''.tmp-'' x" using that(4) by auto
    have p: "resolve path = ?d @ [x]" using th(2) by (simp add: vfile_def)
    obtain f' where w: "writeAtomic env path content f = (f', Ok ())"
      using writeAtomic_Ok [OF q _ _ _ p th(3) x, of f] th(1,4) by (auto simp: I_def vfile_def)
    note e = write_vm_file [OF w _ fn th(2,3) x]
    have wf': "fs_wf f" using th(1) by (simp add: I_def)
    have "fs_get f' ?d = Some NDir"
      using fs_wf_above [OF e(1) [OF wf'], of ?d "[x]"] e(3) [OF wf'] by (simp add: vfile_def)
    moreover have "fs_get f' (?v y) \<noteq> Some NDir" if "y \<in> {''vm.json'', ''meta.json'', ''hooks.json'', ''env''}" for y
      using e(3) [OF wf'] e(4) [OF wf', of y] that th(1) by (cases "y = x") (auto simp: I_def)
    ultimately show ?thesis using w e(1) [OF wf'] by (auto simp: I_def)
  qed
  note vp = vfile_paths [OF fn, of st] and vd = vfile_dirs [OF fn, of st]
  obtain fs2 where w2: "writeAtomic env (pa_VMConfigPath ?P) (JSONDoc (enc_config cfg)) fs1 = (fs2, Ok ())" "I fs2"
    using step [OF I1 vp(2) vd(2)] by auto
  obtain fs3 where w3: "writeAtomic env (pa_MetaPath ?P) (JSONDoc (enc_meta (meta\<lparr>meta_Paths := ?P\<rparr>))) fs2 = (fs3, Ok ())" "I fs3"
    using step [OF w2(2) vp(1) vd(1)] by auto
  obtain fs4 where w4: "(if hasHooks hooks then writeAtomic env (pa_HooksPath ?P) (JSONDoc (enc_hooks hooks)) fs3 else (fs3, Ok ())) = (fs4, Ok ())" "I fs4"
    using step [OF w3(2) vp(3) vd(3)] w3(2) by (cases "hasHooks hooks") auto
  obtain fs5 where w5: "(if length vars > 0 then writeEnvAtomic env (pa_EnvPath ?P) vars fs4 else (fs4, Ok ())) = (fs5, Ok ())"
    using step [OF w4(2) vp(4) vd(4)] by (cases "length vars > 0") (auto simp: writeEnvAtomic_def)
  show ?thesis unfolding SaveVM_def identD(2) [OF id] option.case Let_def writeJSONAtomic_def m and_then_simps w2(1) w3(1) w4(1) w5
    by blast
qed

section \<open>Sample data\<close>

text \<open>A temporary name that is longer than every name in use.\<close>

definition fresh_tmp :: "fs \<Rightarrow> nat" where
  "fresh_tmp fs = 10 ^ sum_list (map (\<lambda>(p, _). sum_list (map length p)) fs)"

definition quiet_env :: os_env where
  "quiet_env = \<lparr>os_fault = \<lambda>_ _ _. False, os_tmp = fresh_tmp, os_partial = \<lambda>b. b\<rparr>"

definition faulty_env :: "oscall \<Rightarrow> os_env" where
  "faulty_env c = quiet_env\<lparr>os_fault := \<lambda>c' _ _. c' = c\<rparr>"

definition sample_store :: fs_store where
  "sample_store = NewFSStore ''/etc/vm.d'' ''/var/lib'' ''/run'' ''/etc/hooks.d''"

definition sample_meta :: vm_metadata where
  "sample_meta = zero_meta\<lparr>meta_ID := ''vm1'', meta_GuestIP := ''172.30.0.2'',
     meta_Ports := [\<lparr>pb_Guest = 80, pb_Host = 20000, pb_Protocol = ''tcp''\<rparr>]\<rparr>"

definition sample_fs :: fs where
  "sample_fs = fst (SaveVM quiet_env sample_store ''vm1'' zero_config sample_meta zero_hooks [(''A'', ''b'')] [])"

lemma length_dec_power: "length (dec (10 ^ k)) = Suc k"
proof (induction k)
  case (Suc k)
  have "dec (10 ^ Suc k) = dec (10 ^ k) @ [digit_char 0]"
    using one_le_power [of "10 :: nat" k] by (subst dec.simps) simp
  with Suc show ?case by simp
qed (simp add: dec.simps)

lemma length_in_fs: "(p, n) \<in> set fs \<Longrightarrow> s \<in> set p \<Longrightarrow> length s \<le> sum_list (map (\<lambda>(p, _). sum_list (map length p)) fs)"
proof -
  assume "(p, n) \<in> set fs" "s \<in> set p"
  then have "length s \<le> sum_list (map length p)" "sum_list (map length p) \<in> set (map (\<lambda>(p, _). sum_list (map length p)) fs)"
    by (auto intro!: member_le_sum_list rev_image_eqI)
  then show ?thesis using member_le_sum_list order_trans by blast
qed

lemma quiet_quiet_env: "quiet quiet_env"
proof -
  have "fs_get fs (d @ [''.tmp-'' @ dec (fresh_tmp fs)]) = None" for fs d
  proof (rule ccontr)
    assume "fs_get fs (d @ [''.tmp-'' @ dec (fresh_tmp fs)]) \<noteq> None"
    then obtain n where "(d @ [''.tmp-'' @ dec (fresh_tmp fs)], n) \<in> set fs"
      by (auto simp: fs_get_def dest: map_of_SomeD)
    then have "length (''.tmp-'' @ dec (fresh_tmp fs)) \<le> sum_list (map (\<lambda>(p, _). sum_list (map length p)) fs)"
      by (rule length_in_fs) simp
    then show False by (simp add: fresh_tmp_def length_dec_power)
  qed
  then show ?thesis by (simp add: quiet_def quiet_env_def)
qed

lemma sample_roots: "roots_ok sample_store"
  by code_simp

lemma sample_store_ok: "store_ok quiet_env sample_store []"
  using quiet_reads_ok [OF quiet_quiet_env] by (simp add: store_ok_def sample_roots fs_wf_def)

lemma sample_ident: "ident ''vm1''" "ident ''vm2''"
  by code_simp+

lemma sample_meta_wf: "meta_wf sample_meta"
  by code_simp

lemma unblocked_Nil: "unblocked [] p"
  by (simp add: unblocked_def fs_get_def)

lemma sample_save:
  "SaveVM quiet_env sample_store ''vm1'' zero_config sample_meta zero_hooks [(''A'', ''b'')] [] =
     (sample_fs, Ok (PathsFor sample_store ''vm1''))"
  using SaveVM_Ok [OF quiet_quiet_env _ sample_roots sample_ident(1) unblocked_Nil unblocked_Nil unblocked_Nil,
      of zero_config sample_meta zero_hooks "[(''A'', ''b'')]"]
  by (auto simp: sample_fs_def fs_wf_def fs_get_def)

lemma sample_fs_ok: "store_ok quiet_env sample_store sample_fs"
  using fs_prov.save_inv [OF sample_save sample_store_ok sample_ident(1)] .

lemma sample_read:
  "ReadMeta quiet_env sample_store ''vm1'' sample_fs = Ok (sample_meta\<lparr>meta_Paths := PathsFor sample_store ''vm1''\<rparr>)"
  using fs_prov.save_reads [OF sample_save sample_store_ok sample_ident(1) sample_meta_wf] by simp

lemma sample_file: "fs_get sample_fs (vfile sample_store ''vm1'' ''meta.json'') \<noteq> None"
  using SaveVM_effect [OF sample_save _ sample_roots identD(1) [OF sample_ident(1)]] by (simp add: fs_wf_def)

section \<open>Properties\<close>

text \<open>
  C4: writing a file is atomic under every combination of failing system calls: the file has the
  new content when the call succeeds and what it had before when it fails; the file system stays
  well formed; and no other entry changes, except that missing directories above the file are made
  and that a failed call may leave its temporary file behind.
\<close>

theorem writeAtomic_atomic:
  assumes "fs_wf fs" "file_name x" "\<not> prefix ''.tmp-'' x"
    and "writeAtomic env (path_Join [dir, x]) content fs = (fs', r)"
  shows "fs_wf fs' \<and>
     fs_get fs' (resolve dir @ [x]) = (if r = Ok () then Some (NFile content) else fs_get fs (resolve dir @ [x])) \<and>
     (\<forall>q. q = resolve dir @ [x] \<or> (r \<noteq> Ok () \<and> (\<exists>y. q = resolve dir @ [''.tmp-'' @ y])) \<or>
          fs_get fs' q = fs_get fs q \<or>
          (prefix q (resolve dir) \<and> fs_get fs q = None \<and> fs_get fs' q = Some NDir))"
proof -
  note e = writeAtomic_effect [OF assms(4,1) resolve_path_Join [OF assms(2)] resolve_path_Dir [OF assms(2)] assms(3)]
  have "q = resolve dir @ [x] \<or> (r \<noteq> Ok () \<and> (\<exists>y. q = resolve dir @ [''.tmp-'' @ y])) \<or>
          fs_get fs' q = fs_get fs q \<or>
          (prefix q (resolve dir) \<and> fs_get fs q = None \<and> fs_get fs' q = Some NDir)" for q
    using e(6) [of q] e(5) [of q] e(4) unfolding prefix_def by (cases "r = Ok ()") metis+
  then show ?thesis using e(1,2,3) by auto
qed

theorem writeAtomic_atomic_witness:
  "\<exists>fs' r. writeAtomic (faulty_env CRename) (path_Join [''/e'', ''f'']) (Raw ''new'')
       [([''e''], NDir), ([''e'', ''f''], NFile (Raw ''old''))] = (fs', r) \<and>
     r \<noteq> Ok () \<and> fs_get fs' [''e'', ''f''] = Some (NFile (Raw ''old''))"
proof -
  let ?fs = "[([''e''], NDir), ([''e'', ''f''], NFile (Raw ''old''))]"
  obtain fs' r where run: "writeAtomic (faulty_env CRename) (path_Join [''/e'', ''f'']) (Raw ''new'') ?fs = (fs', r)"
    by fastforce
  have "r \<noteq> Ok ()"
  proof
    assume "r = Ok ()"
    with run obtain t fs3 fs4 where "os_Rename (faulty_env CRename) t (path_Join [''/e'', ''f'']) fs3 = (fs4, Ok ())"
      by (auto simp: writeAtomic_def split: prod.splits sum.splits)
    then show False by (simp add: os_Rename_def Let_def faulty_env_def)
  qed
  moreover have "fs_wf ?fs" by code_simp
  moreover have "resolve ''/e'' = [''e'']" by code_simp
  ultimately show ?thesis using run writeAtomic_atomic [OF _ _ _ run] by (auto simp: file_name_def fs_get_def)
qed





text \<open>
  Saving a VM succeeds when no system call fails by itself, no file stands in the place of one
  of its directories and no directory in the place of one of its files.
\<close>

theorem SaveVM_succeeds:
  assumes "quiet env" "fs_wf fs" "roots_ok st" "ident vid"
    and "unblocked fs (croot st @ [vid])" "unblocked fs (rroot st @ [vid])" "unblocked fs (droot st @ [vid, ''logs''])"
    and "\<forall>x \<in> {''vm.json'', ''meta.json'', ''hooks.json'', ''env''}. fs_get fs (vfile st vid x) \<noteq> Some NDir"
  shows "\<exists>fs'. SaveVM env st vid cfg meta hooks vars fs = (fs', Ok (PathsFor st vid))"
  using assms by (rule SaveVM_Ok)

theorem SaveVM_succeeds_witness:
  "\<exists>fs'. SaveVM quiet_env sample_store ''vm2'' zero_config sample_meta zero_hooks [] [] =
     (fs', Ok (PathsFor sample_store ''vm2''))"
  using SaveVM_succeeds [OF quiet_quiet_env _ sample_roots sample_ident(2) unblocked_Nil unblocked_Nil unblocked_Nil]
  by (simp add: fs_wf_def fs_get_def vfile_def)



text \<open>
  C10: the listing follows the changes: saving a VM that is not there adds exactly its metadata, and
  deleting one takes away exactly its metadata, as multisets of the listed VMs.
\<close>

theorem ListMetas_follows:
  assumes ok: "store_ok env st fs" "ident vid" and wf: "meta_wf meta" and list: "ListMetas env st fs = Ok ms"
  shows "(\<forall>fs' paths. SaveVM env st vid cfg meta hooks vars fs = (fs', Ok paths) \<and>
            ReadMeta env st vid fs = Err ErrNotFound \<longrightarrow>
            (\<exists>ms'. ListMetas env st fs' = Ok ms' \<and> mset ms' = add_mset (meta\<lparr>meta_Paths := paths\<rparr>) (mset ms))) \<and>
         (\<forall>fs' m. DeleteVM env st vid retainData fs = (fs', Ok ()) \<and> ReadMeta env st vid fs = Ok m \<longrightarrow>
            (\<exists>ms'. ListMetas env st fs' = Ok ms' \<and> mset ms = add_mset m (mset ms')))"
proof -
  have "\<exists>ms'. ListMetas env st fs' = Ok ms' \<and> mset ms' = add_mset (meta\<lparr>meta_Paths := paths\<rparr>) (mset ms)"
    if "SaveVM env st vid cfg meta hooks vars fs = (fs', Ok paths)" "ReadMeta env st vid fs = Err ErrNotFound" for fs' paths
    using ListMetas_SaveVM [OF that(1) ok wf list that(2)] fs_prov.save_reads [OF that(1) ok wf] by auto
  moreover have "\<exists>ms'. ListMetas env st fs' = Ok ms' \<and> mset ms = add_mset m (mset ms')"
    if "DeleteVM env st vid retainData fs = (fs', Ok ())" "ReadMeta env st vid fs = Ok m" for fs' m
    using ListMetas_DeleteVM [OF that(1) ok list] that(2) by auto
  ultimately show ?thesis by blast
qed

theorem ListMetas_follows_witness:
  "\<exists>ms'. ListMetas quiet_env sample_store sample_fs = Ok ms' \<and>
     mset ms' = {#sample_meta\<lparr>meta_Paths := PathsFor sample_store ''vm1''\<rparr>#}"
proof -
  have l: "ListMetas quiet_env sample_store [] = Ok []" by code_simp
  have r: "ReadMeta quiet_env sample_store ''vm1'' [] = Err ErrNotFound" by code_simp
  show ?thesis
    using ListMetas_follows [OF sample_store_ok sample_ident(1) sample_meta_wf l, of zero_config zero_hooks "[(''A'', ''b'')]"]
      sample_save r by auto
qed

text \<open>
  Reading a word the way a POSIX shell does (and systemd, for an \<open>EnvironmentFile\<close>): everything
  between single quotes stands for itself, outside of quotes a backslash protects one character.
\<close>

fun sh_read :: "bool \<Rightarrow> string \<Rightarrow> string option" where
  "sh_read True [] = None"
| "sh_read True (c # cs) =
     (if c = CHR 39 then sh_read False cs else map_option (\<lambda>w. c # w) (sh_read True cs))"
| "sh_read False [] = Some []"
| "sh_read False (c # cs) =
     (if c = CHR 39 then sh_read True cs
      else if c = CHR 92 then (case cs of [] \<Rightarrow> None | d # ds \<Rightarrow> map_option (\<lambda>w. d # w) (sh_read False ds))
      else map_option (\<lambda>w. c # w) (sh_read False cs))"

lemma sh_read_escaped:
  "sh_read True (ReplaceAll v (CHR 39) [CHR 39, CHR 92, CHR 39, CHR 39] @ [CHR 39] @ rest) =
     map_option (\<lambda>w. v @ w) (sh_read False rest)"
  by (induction v) (auto simp: ReplaceAll_def option.map_comp comp_def option.map_ident)

text \<open>
  C29: the quoting of environment values is right: a shell that reads the quoted form of a value, and
  any text after it, gets the value back unchanged, whatever characters it has.
\<close>

theorem shellEscape_roundtrip:
  "sh_read False (shellEscape v @ rest) = map_option (\<lambda>w. v @ w) (sh_read False rest)"
  using sh_read_escaped [of v rest] by (simp add: shellEscape_def)

lemma resolve_path_Join_dot: "resolve (path_Join [d, ''.'']) = resolve d"
proof (cases "d = []")
  case True
  have "resolve ''.'' = []" by (simp add: resolve_def clean_segs_def Split_def clean_step_def)
  then show ?thesis using True by (simp add: path_Join_def)
next
  case False
  then show ?thesis by (simp add: path_Join_def resolve_append Split_plain clean_step_def)
qed

text \<open>
  C28: an identifier that passes validation does not leave the roots: its configuration, run and data
  directories are the directory of that name in their root, with one exception.  The identifier
  consisting of a single dot passes validation too, and its directories are the roots themselves,
  which hold the directories of all VMs.
\<close>

theorem validateID_confined:
  assumes "validateID vid = None"
  shows "(let own = (if vid = ''.'' then [] else [vid]); P = PathsFor st vid
          in resolve (pa_ConfigDir P) = croot st @ own \<and> resolve (pa_RunDir P) = rroot st @ own \<and>
             resolve (pa_DataDir P) = droot st @ own \<and> resolve (pa_MetaPath P) = croot st @ own @ [''meta.json''])"
proof (cases "vid = ''.''")
  case True
  then show ?thesis
    by (simp add: PathsFor_def Let_def resolve_path_Join resolve_path_Join_dot croot_def rroot_def droot_def)
next
  case False
  then show ?thesis
    using resolve_PathsFor [OF valid_file_name [OF assms False], of st]
    by (simp add: Let_def croot_def rroot_def droot_def)
qed

theorem validateID_confined_witness:
  "validateID ''.'' = None \<and> resolve (pa_ConfigDir (PathsFor sample_store ''.'')) = [''etc'', ''vm.d'']"
proof -
  have v: "validateID ''.'' = None" by code_simp
  moreover have "croot sample_store = [''etc'', ''vm.d'']" by code_simp
  ultimately show ?thesis using validateID_confined [OF v, of sample_store] by (simp add: Let_def)
qed

end
