(* ===== verification/Lock.thy ===== *)
theory Lock
  imports Store_Spec
begin

text \<open>
  \<open>src/internal/lock/lock.go\<close>: advisory locks on files, taken without waiting.  The locks that are
  held are a list of files of the state; \<open>flock\<close> refuses a file that is in it.
\<close>

section \<open>Definitions\<close>

datatype lock_err = ErrAlreadyLocked | LockOs oserr

definition Acquire ::
  "os_env \<Rightarrow> string \<Rightarrow> fs \<Rightarrow> string list list \<Rightarrow> fs \<times> string list list \<times> (lock_err, string list) result" where
  "Acquire env path fs held =
     (case os_MkdirAll env (path_Dir path) fs of
        (fs1, Err e) \<Rightarrow> (fs1, held, Err (LockOs e))
      | (fs1, Ok _) \<Rightarrow>
     (case os_OpenCreate env path fs1 of
        (fs2, Err e) \<Rightarrow> (fs2, held, Err (LockOs e))
      | (fs2, Ok _) \<Rightarrow>
          if os_fault env CFlock (resolve path) fs2 then (fs2, held, Err (LockOs EIO))
          else if resolve path \<in> set held then (fs2, held, Err ErrAlreadyLocked)
          else (fs2, resolve path # held, Ok (resolve path))))"

text \<open>
  Releasing unlocks and closes the file.  When the unlock call fails the file is closed all the
  same, which gives the lock up.
\<close>

definition Release :: "os_env \<Rightarrow> string list \<Rightarrow> fs \<Rightarrow> string list list \<Rightarrow> string list list \<times> (lock_err, unit) result" where
  "Release env p fs held =
     (remove1 p held,
      if os_fault env CFlock p fs \<or> os_fault env CClose p fs then Err (LockOs EIO) else Ok ())"

section \<open>Lemmas\<close>

lemma Acquire_held:
  assumes "Acquire env path fs held = (fs', held', r)"
  shows "r = Ok p \<Longrightarrow> p = resolve path \<and> p \<notin> set held \<and> held' = p # held"
    and "r = Err e \<Longrightarrow> held' = held"
  using assms by (auto simp: Acquire_def split: prod.splits sum.splits if_splits)

text \<open>The only entries a lock attempt adds are the lock file and directories above it.\<close>

lemma Acquire_effect:
  assumes "Acquire env path fs held = (fs', held', r)" "fs_wf fs"
  shows "fs_wf fs'"
    and "q \<noteq> resolve path \<Longrightarrow> fs_get fs' q = fs_get fs q \<or>
           (prefix q (resolve (path_Dir path)) \<and> fs_get fs q = None \<and> fs_get fs' q = Some NDir)"
proof -
  obtain fs1 r1 where m: "os_MkdirAll env (path_Dir path) fs = (fs1, r1)" by fastforce
  note s = os_MkdirAll_spec [OF m assms(2)]
  obtain fs2 r2 where o: "os_OpenCreate env path fs1 = (fs2, r2)" by fastforce
  note e = os_OpenCreate_effect [OF o s(1)]
  have "fs' = fs1 \<or> fs' = fs2"
    using assms(1) m o by (auto simp: Acquire_def split: prod.splits sum.splits if_splits)
  then show "fs_wf fs'" "q \<noteq> resolve path \<Longrightarrow> fs_get fs' q = fs_get fs q \<or>
           (prefix q (resolve (path_Dir path)) \<and> fs_get fs q = None \<and> fs_get fs' q = Some NDir)"
    using s(1,2) e unfolding dirs_added_def by metis+
qed

section \<open>Several holders\<close>

text \<open>
  Any number of handlers take and release locks in any order.  A state has the file system, the
  locks that are held, and who holds which.
\<close>

record lock_sys =
  ls_fs :: fs
  ls_held :: "string list list"
  ls_owners :: "(nat \<times> string list) list"

inductive lock_step :: "os_env \<Rightarrow> lock_sys \<Rightarrow> lock_sys \<Rightarrow> bool" for env where
  lock_taken:
    "Acquire env path (ls_fs s) (ls_held s) = (fs', held', Ok p) \<Longrightarrow>
     lock_step env s \<lparr>ls_fs = fs', ls_held = held', ls_owners = (pid, p) # ls_owners s\<rparr>"
| lock_refused:
    "Acquire env path (ls_fs s) (ls_held s) = (fs', held', Err e) \<Longrightarrow>
     lock_step env s \<lparr>ls_fs = fs', ls_held = held', ls_owners = ls_owners s\<rparr>"
| lock_released:
    "(pid, p) \<in> set (ls_owners s) \<Longrightarrow> Release env p (ls_fs s) (ls_held s) = (held', r) \<Longrightarrow>
     lock_step env s \<lparr>ls_fs = ls_fs s, ls_held = held', ls_owners = remove1 (pid, p) (ls_owners s)\<rparr>"

inductive lock_reachable :: "os_env \<Rightarrow> lock_sys \<Rightarrow> bool" for env where
  lock_init: "lock_reachable env \<lparr>ls_fs = fs, ls_held = [], ls_owners = []\<rparr>"
| lock_next: "lock_reachable env s \<Longrightarrow> lock_step env s s' \<Longrightarrow> lock_reachable env s'"

definition lock_inv :: "lock_sys \<Rightarrow> bool" where
  "lock_inv s \<longleftrightarrow> distinct (ls_held s) \<and> mset (ls_held s) = mset (map snd (ls_owners s))"

lemma lock_step_inv:
  assumes "lock_step env s s'" "lock_inv s"
  shows "lock_inv s'"
  using assms(1)
proof (cases rule: lock_step.cases)
  case (lock_taken path fs' held' p pid)
  then show ?thesis using Acquire_held(1) [OF lock_taken(2), of p] assms(2) by (auto simp: lock_inv_def)
next
  case (lock_refused path fs' held' e)
  then show ?thesis using Acquire_held(2) [OF lock_refused(2), of e] assms(2) by (simp add: lock_inv_def)
next
  case (lock_released pid p held' r)
  then have "held' = remove1 p (ls_held s)" by (simp add: Release_def)
  moreover have "mset (map snd (remove1 (pid, p) (ls_owners s))) = mset (map snd (ls_owners s)) - {#p#}"
    using lock_released(2) by (simp add: image_mset_Diff)
  ultimately show ?thesis using assms(2) lock_released(1) by (simp add: lock_inv_def)
qed

lemma lock_reachable_inv: "lock_reachable env s \<Longrightarrow> lock_inv s"
proof (induction rule: lock_reachable.induct)
  case (lock_next s s')
  then show ?case using lock_step_inv by blast
qed (simp add: lock_inv_def)

section \<open>Properties\<close>

text \<open>
  C5: mutual exclusion: whatever lock attempts and releases have happened in whatever order, no file
  is locked by two holders, and an attempt on a file that has a holder does not succeed.
\<close>

theorem lock_mutual_exclusion:
  assumes "lock_reachable env s"
  shows "distinct (map snd (ls_owners s)) \<and>
     (\<forall>path pid fs' held' p. (pid, resolve path) \<in> set (ls_owners s) \<longrightarrow>
        Acquire env path (ls_fs s) (ls_held s) \<noteq> (fs', held', Ok p))"
proof -
  have inv: "distinct (ls_held s)" "mset (ls_held s) = mset (map snd (ls_owners s))"
    using lock_reachable_inv [OF assms] by (auto simp: lock_inv_def)
  have "set (ls_held s) = snd ` set (ls_owners s)" using inv(2) by (metis set_map set_mset_mset)
  then have "resolve path \<in> set (ls_held s)" if "(pid, resolve path) \<in> set (ls_owners s)" for pid path
    using that by force
  then show ?thesis
    using Acquire_held(1) inv mset_eq_imp_distinct_iff [OF inv(2)] by blast
qed

theorem lock_mutual_exclusion_witness:
  "\<exists>s. lock_reachable quiet_env s \<and> ls_owners s = [(7, [''l''])] \<and>
     (\<forall>fs' held' p. Acquire quiet_env ''/l'' (ls_fs s) (ls_held s) \<noteq> (fs', held', Ok p))"
proof -
  have run: "Acquire quiet_env ''/l'' [] [] = ([([''l''], NFile (Raw []))], [[''l'']], Ok [''l''])"
    by code_simp
  let ?s = "\<lparr>ls_fs = [([''l''], NFile (Raw []))], ls_held = [[''l'']], ls_owners = [(7, [''l''])]\<rparr>"
  have "lock_step quiet_env \<lparr>ls_fs = [], ls_held = [], ls_owners = []\<rparr> ?s"
    using lock_taken [of quiet_env "''/l''" "\<lparr>ls_fs = [], ls_held = [], ls_owners = []\<rparr>" _ _ _ 7] run by simp
  then have r: "lock_reachable quiet_env ?s" by (rule lock_next [OF lock_init])
  have "resolve ''/l'' = [''l'']" by code_simp
  then have "\<forall>fs' held' p. Acquire quiet_env ''/l'' (ls_fs ?s) (ls_held ?s) \<noteq> (fs', held', Ok p)"
    using lock_mutual_exclusion [OF r] by simp
  with r show ?thesis by (intro exI [of _ ?s]) simp
qed

end
