(* ===== verification/Systemd.thy ===== *)
theory Systemd
  imports Prelude
begin

text \<open>
  \<open>src/internal/systemd/client.go\<close>: the client that runs \<open>systemctl\<close>.  The program it runs is a
  parameter: a function of the units' state and the arguments that gives the new state and the
  outcome of the command, including a time out.
\<close>

section \<open>Definitions\<close>

text \<open>
  The outcome of \<open>cmd.Output()\<close>: success with the output, a non-zero exit (\<open>exec.ExitError\<close>) with
  output and error output, or another failure with both and its message.
\<close>

datatype exec_outcome = ExecOK string | ExecExit string string | ExecFail string string string

type_synonym 'u systemctl = "'u \<Rightarrow> string list \<Rightarrow> 'u \<times> exec_outcome"

datatype sd_err = SdUnavailable | SdUnitNotFound string | SdExit | SdFailed string

record exec_client =
  ec_systemctl :: string
  ec_unitPrefix :: string
  ec_available :: bool

record sd_status =
  sd_Available :: bool
  sd_Unit :: string
  sd_Active :: bool
  sd_ActiveState :: string
  sd_SubState :: string
  sd_MainPID :: int

text \<open>\<open>exec.LookPath\<close> is an argument: the path of a program, if there is one.\<close>

definition NewExecClient :: "(string \<Rightarrow> string option) \<Rightarrow> string \<Rightarrow> string \<Rightarrow> exec_client" where
  "NewExecClient lookPath systemctlPath unitPrefix =
     (case lookPath systemctlPath of
        None \<Rightarrow> \<lparr>ec_systemctl = systemctlPath, ec_unitPrefix = unitPrefix, ec_available = False\<rparr>
      | Some path \<Rightarrow> \<lparr>ec_systemctl = path, ec_unitPrefix = unitPrefix, ec_available = True\<rparr>)"

definition unitName :: "exec_client \<Rightarrow> string \<Rightarrow> string" where
  "unitName c vid = ec_unitPrefix c @ ''@'' @ vid @ ''.service''"

definition classify :: "string list \<Rightarrow> exec_outcome \<Rightarrow> (sd_err, string) result" where
  "classify args outcome =
     (let fullErrText = (\<lambda>out err. let e = TrimSpace err in if e = [] then TrimSpace out else e);
          known = (\<lambda>t. if Contains t ''System has not been booted with systemd'' \<or> Contains t ''Failed to connect to bus''
                       then Some SdUnavailable
                       else if Contains t ''Unit '' \<and> Contains t '' not found'' then Some (SdUnitNotFound t)
                       else None)
      in case outcome of
           ExecOK out \<Rightarrow> Ok out
         | ExecExit out err \<Rightarrow>
             (case known (fullErrText out err) of Some e \<Rightarrow> Err e | None \<Rightarrow> Err SdExit)
         | ExecFail out err msg \<Rightarrow>
             (case known (fullErrText out err) of
                Some e \<Rightarrow> Err e
              | None \<Rightarrow> Err (SdFailed (''systemctl '' @ Join args '' '' @ '' failed: '' @ msg))))"

definition run :: "'u systemctl \<Rightarrow> exec_client \<Rightarrow> string list \<Rightarrow> 'u \<Rightarrow> 'u \<times> (sd_err, string) result" where
  "run ctl c args u =
     (if \<not> ec_available c then (u, Err SdUnavailable)
      else case ctl u args of (u', outcome) \<Rightarrow> (u', classify args outcome))"

definition IsActive :: "'u systemctl \<Rightarrow> exec_client \<Rightarrow> string \<Rightarrow> 'u \<Rightarrow> 'u \<times> (sd_err, bool) result" where
  "IsActive ctl c vid u =
     (case run ctl c [''is-active'', ''--quiet'', unitName c vid] u of
        (u', Ok _) \<Rightarrow> (u', Ok True)
      | (u', Err SdUnavailable) \<Rightarrow> (u', Err SdUnavailable)
      | (u', Err SdExit) \<Rightarrow> (u', Ok False)
      | (u', Err e) \<Rightarrow> (u', Err e))"

definition sd_Start :: "'u systemctl \<Rightarrow> exec_client \<Rightarrow> string \<Rightarrow> 'u \<Rightarrow> 'u \<times> (sd_err, unit) result" where
  "sd_Start ctl c vid u =
     (case IsActive ctl c vid u of
        (u', Err e) \<Rightarrow> (u', Err e)
      | (u', Ok True) \<Rightarrow> (u', Ok ())
      | (u', Ok False) \<Rightarrow>
          (case run ctl c [''start'', unitName c vid] u' of
             (u'', Err e) \<Rightarrow> (u'', Err e)
           | (u'', Ok _) \<Rightarrow> (u'', Ok ())))"

definition sd_Stop :: "'u systemctl \<Rightarrow> exec_client \<Rightarrow> string \<Rightarrow> 'u \<Rightarrow> 'u \<times> (sd_err, unit) result" where
  "sd_Stop ctl c vid u =
     (case IsActive ctl c vid u of
        (u', Err e) \<Rightarrow> (u', Err e)
      | (u', Ok False) \<Rightarrow> (u', Ok ())
      | (u', Ok True) \<Rightarrow>
          (case run ctl c [''stop'', unitName c vid] u' of
             (u'', Err e) \<Rightarrow> (u'', Err e)
           | (u'', Ok _) \<Rightarrow> (u'', Ok ())))"

definition sd_Disable :: "'u systemctl \<Rightarrow> exec_client \<Rightarrow> string \<Rightarrow> 'u \<Rightarrow> 'u \<times> (sd_err, unit) result" where
  "sd_Disable ctl c vid u =
     (case run ctl c [''disable'', unitName c vid] u of
        (u', Err e) \<Rightarrow> (u', Err e)
      | (u', Ok _) \<Rightarrow> (u', Ok ()))"

text \<open>One line of the output of \<open>systemctl show\<close>.\<close>

definition status_line :: "sd_status \<Rightarrow> string \<Rightarrow> sd_status" where
  "status_line status line =
     (if line = [] then status
      else case SplitN2 line CHR ''='' of
             [k, v] \<Rightarrow>
               (let key = TrimSpace k; val = TrimSpace v
                in if key = ''MainPID'' then
                     (case Atoi val of Some pid \<Rightarrow> status\<lparr>sd_MainPID := pid\<rparr> | None \<Rightarrow> status)
                   else if key = ''ActiveState'' then status\<lparr>sd_ActiveState := val\<rparr>
                   else if key = ''SubState'' then status\<lparr>sd_SubState := val\<rparr>
                   else status)
           | _ \<Rightarrow> status)"

text \<open>The status is returned together with the error, as far as it was filled.\<close>

definition sd_Status :: "'u systemctl \<Rightarrow> exec_client \<Rightarrow> string \<Rightarrow> 'u \<Rightarrow> 'u \<times> sd_status \<times> sd_err option" where
  "sd_Status ctl c vid u =
     (let status = \<lparr>sd_Available = ec_available c, sd_Unit = unitName c vid, sd_Active = False,
                    sd_ActiveState = [], sd_SubState = [], sd_MainPID = 0\<rparr>
      in if \<not> ec_available c then (u, status, None)
         else case run ctl c [''show'', unitName c vid, ''--property=MainPID'', ''--property=ActiveState'', ''--property=SubState''] u of
                (u', Err e) \<Rightarrow> (u', status, Some e)
              | (u', Ok output) \<Rightarrow>
                  (let status' = foldl status_line status (Split (TrimSpace output) (CHR 10))
                   in (u', status'\<lparr>sd_Active := (sd_ActiveState status' = ''active'')\<rparr>, None)))"

section \<open>A service manager\<close>

text \<open>
  What the client relies on of \<open>systemctl\<close>: \<open>is-active\<close> tells by its exit status alone whether the
  unit is active and changes nothing; \<open>start\<close> and \<open>stop\<close>, when they succeed, leave the unit active
  or inactive and the others as they were.
\<close>

definition systemctl_laws :: "'u systemctl \<Rightarrow> ('u \<Rightarrow> string \<Rightarrow> bool) \<Rightarrow> bool" where
  "systemctl_laws ctl active \<longleftrightarrow>
     (\<forall>u n. ctl u [''is-active'', ''--quiet'', n] = (u, if active u n then ExecOK [] else ExecExit [] [])) \<and>
     (\<forall>u n u' out. ctl u [''start'', n] = (u', ExecOK out) \<longrightarrow> active u' n \<and> (\<forall>m. m \<noteq> n \<longrightarrow> active u' m = active u m)) \<and>
     (\<forall>u n u' out. ctl u [''stop'', n] = (u', ExecOK out) \<longrightarrow> \<not> active u' n \<and> (\<forall>m. m \<noteq> n \<longrightarrow> active u' m = active u m))"

section \<open>Lemmas\<close>

lemma classify_simps [simp]: "classify args (ExecOK out) = Ok out" "classify args (ExecExit [] []) = Err SdExit"
  by (simp_all add: classify_def Let_def)

lemma classify_Ok: "classify args outcome = Ok out \<longleftrightarrow> outcome = ExecOK out"
  by (cases outcome) (auto simp: classify_def Let_def split: option.splits)

lemma IsActive_laws:
  assumes "systemctl_laws ctl active" "ec_available c"
  shows "IsActive ctl c vid u = (u, Ok (active u (unitName c vid)))"
  using assms by (simp add: IsActive_def run_def systemctl_laws_def)

lemma run_Ok: "ec_available c \<Longrightarrow> run ctl c args u = (u', Ok out) \<longleftrightarrow> ctl u args = (u', ExecOK out)"
  by (auto simp: run_def classify_Ok split: prod.splits)

text \<open>The output of \<open>systemctl show\<close> for the three properties the client asks for.\<close>

definition show_output :: "int \<Rightarrow> string \<Rightarrow> string \<Rightarrow> string" where
  "show_output pid active sub =
     Join [''MainPID='' @ Itoa pid, ''ActiveState='' @ active, ''SubState='' @ sub] [CHR 10] @ [CHR 10]"

lemma TrimSpace_snoc:
  assumes "s \<noteq> []" "\<not> is_space (hd s)" "\<not> is_space (last s)" "is_space d"
  shows "TrimSpace (s @ [d]) = s"
proof -
  have "dropWhile is_space (s @ [d]) = s @ [d]" using assms(1,2) by (cases s) auto
  moreover have "dropWhile is_space (d # rev s) = rev s"
    using assms by (cases "rev s") (auto simp: hd_rev [symmetric])
  ultimately show ?thesis by (simp add: TrimSpace_def)
qed

lemma last_word: "\<forall>c \<in> set w. \<not> is_space c \<Longrightarrow> \<not> is_space d \<Longrightarrow> \<not> is_space (last (xs @ d # w))"
  by (cases "w = []") auto

lemma Itoa_chars: "c \<in> set (Itoa i) \<Longrightarrow> \<not> is_space c"
  using dec_char_digit is_digit_not_space by (auto simp: Itoa_def is_space_def split: if_splits)

lemma newline_space: "is_space (CHR 10)"
  by (simp add: is_space_def)

lemma status_lines:
  assumes "\<forall>c \<in> set active. \<not> is_space c" "\<forall>c \<in> set sub. \<not> is_space c"
  shows "Split (TrimSpace (show_output pid active sub)) (CHR 10) =
    [''MainPID='' @ Itoa pid, ''ActiveState='' @ active, ''SubState='' @ sub]"
proof -
  let ?ls = "[''MainPID='' @ Itoa pid, ''ActiveState='' @ active, ''SubState='' @ sub]"
  have ends: "\<not> is_space (hd (Join ?ls [CHR 10]))" by (simp add: is_space_def)
  have "\<not> is_space (last (Join ?ls [CHR 10]))"
    using last_word [OF assms(2), of "CHR ''=''" "Join (butlast ?ls) [CHR 10] @ [CHR 10] @ ''SubState''"]
    by (simp add: is_space_def)
  then have "TrimSpace (show_output pid active sub) = Join ?ls [CHR 10]"
    unfolding show_output_def by (intro TrimSpace_snoc ends) (simp_all add: newline_space)
  moreover have "\<forall>w \<in> set ?ls. CHR 10 \<notin> set w"
    using assms Itoa_chars [of "CHR 10" pid] newline_space by auto
  ultimately show ?thesis using Split_Join [of ?ls "CHR 10"] by simp
qed

lemma SplitN2_key: "d \<notin> set k \<Longrightarrow> SplitN2 (k @ d # v) d = [k, v]"
proof -
  assume "d \<notin> set k"
  then have "takeWhile (\<lambda>c. c \<noteq> d) (k @ d # v) = k" "dropWhile (\<lambda>c. c \<noteq> d) (k @ d # v) = d # v"
    by (induction k) auto
  then show ?thesis by (simp add: SplitN2_def)
qed

lemma status_line_simps:
  assumes "\<forall>c \<in> set v. \<not> is_space c"
  shows "status_line s (''ActiveState='' @ v) = s\<lparr>sd_ActiveState := v\<rparr>"
    and "status_line s (''SubState='' @ v) = s\<lparr>sd_SubState := v\<rparr>"
    and "int64 pid \<Longrightarrow> status_line s (''MainPID='' @ Itoa pid) = s\<lparr>sd_MainPID := pid\<rparr>"
proof -
  have t: "TrimSpace ''ActiveState'' = ''ActiveState''" "TrimSpace ''SubState'' = ''SubState''"
    "TrimSpace ''MainPID'' = ''MainPID''"
    by (rule TrimSpace_no_space; simp add: is_space_def)+
  have ti: "TrimSpace (Itoa pid) = Itoa pid" by (rule TrimSpace_no_space) (use Itoa_chars in blast)
  note tv = TrimSpace_no_space [OF assms]
  have k: "SplitN2 (''ActiveState='' @ v) CHR ''='' = [''ActiveState'', v]"
    "SplitN2 (''SubState='' @ v) CHR ''='' = [''SubState'', v]"
    "SplitN2 (''MainPID='' @ Itoa pid) CHR ''='' = [''MainPID'', Itoa pid]"
    using SplitN2_key [of "CHR ''=''" "''ActiveState''" v] SplitN2_key [of "CHR ''=''" "''SubState''" v]
      SplitN2_key [of "CHR ''=''" "''MainPID''" "Itoa pid"] by simp_all
  show "status_line s (''ActiveState='' @ v) = s\<lparr>sd_ActiveState := v\<rparr>"
    unfolding status_line_def k by (simp add: Let_def t tv)
  show "status_line s (''SubState='' @ v) = s\<lparr>sd_SubState := v\<rparr>"
    unfolding status_line_def k by (simp add: Let_def t tv)
  assume "int64 pid"
  then show "status_line s (''MainPID='' @ Itoa pid) = s\<lparr>sd_MainPID := pid\<rparr>"
    unfolding status_line_def k by (simp add: Let_def t ti Atoi_Itoa)
qed

lemma sd_Start_units:
  assumes "systemctl_laws ctl active" "ec_available c" "sd_Start ctl c vid u = (u', Ok ())"
  shows "active u' (unitName c vid) \<and> (\<forall>m. m \<noteq> unitName c vid \<longrightarrow> active u' m = active u m)"
proof (cases "active u (unitName c vid)")
  case True
  then show ?thesis using assms(3) by (auto simp: sd_Start_def IsActive_laws [OF assms(1,2)])
next
  case False
  obtain u1 r where r: "run ctl c [''start'', unitName c vid] u = (u1, r)" by fastforce
  with assms(3) False obtain out where "run ctl c [''start'', unitName c vid] u = (u', Ok out)"
    by (cases r) (auto simp: sd_Start_def IsActive_laws [OF assms(1,2)])
  then show ?thesis using assms(1) unfolding systemctl_laws_def run_Ok [OF assms(2)] by blast
qed

lemma sd_Stop_units:
  assumes "systemctl_laws ctl active" "ec_available c" "sd_Stop ctl c vid u = (u', Ok ())"
  shows "\<not> active u' (unitName c vid) \<and> (\<forall>m. m \<noteq> unitName c vid \<longrightarrow> active u' m = active u m)"
proof (cases "active u (unitName c vid)")
  case False
  then show ?thesis using assms(3) by (auto simp: sd_Stop_def IsActive_laws [OF assms(1,2)])
next
  case True
  obtain u1 r where r: "run ctl c [''stop'', unitName c vid] u = (u1, r)" by fastforce
  with assms(3) True obtain out where "run ctl c [''stop'', unitName c vid] u = (u', Ok out)"
    by (cases r) (auto simp: sd_Stop_def IsActive_laws [OF assms(1,2)])
  then show ?thesis using assms(1) unfolding systemctl_laws_def run_Ok [OF assms(2)] by blast
qed

section \<open>Properties\<close>

text \<open>
  With a service manager that keeps its promises, a successful start leaves the unit active and a
  successful stop leaves it inactive, neither touches another unit, and starting an active unit or
  stopping an inactive one succeeds and changes nothing.
\<close>

theorem start_stop_units:
  assumes laws: "systemctl_laws ctl active" and av: "ec_available c"
  shows "(\<forall>u'. sd_Start ctl c vid u = (u', Ok ()) \<longrightarrow>
            active u' (unitName c vid) \<and> (\<forall>m. m \<noteq> unitName c vid \<longrightarrow> active u' m = active u m)) \<and>
         (\<forall>u'. sd_Stop ctl c vid u = (u', Ok ()) \<longrightarrow>
            \<not> active u' (unitName c vid) \<and> (\<forall>m. m \<noteq> unitName c vid \<longrightarrow> active u' m = active u m)) \<and>
         (active u (unitName c vid) \<longrightarrow> sd_Start ctl c vid u = (u, Ok ())) \<and>
         (\<not> active u (unitName c vid) \<longrightarrow> sd_Stop ctl c vid u = (u, Ok ()))"
proof -
  have "active u (unitName c vid) \<Longrightarrow> sd_Start ctl c vid u = (u, Ok ())"
    "\<not> active u (unitName c vid) \<Longrightarrow> sd_Stop ctl c vid u = (u, Ok ())"
    by (simp_all add: sd_Start_def sd_Stop_def IsActive_laws [OF laws av])
  then show ?thesis using sd_Start_units [OF laws av] sd_Stop_units [OF laws av] by blast
qed

text \<open>A service manager whose state is the set of active units.\<close>

definition simple_systemctl :: "(string list) systemctl" where
  "simple_systemctl us args =
     (case args of
        [cmd, n] \<Rightarrow>
          if cmd = ''start'' then (n # us, ExecOK [])
          else if cmd = ''stop'' then (filter (\<lambda>m. m \<noteq> n) us, ExecOK [])
          else (us, ExecOK [])
      | [cmd, flag, n] \<Rightarrow> if cmd = ''is-active'' then (us, if n \<in> set us then ExecOK [] else ExecExit [] []) else (us, ExecOK [])
      | _ \<Rightarrow> (us, ExecOK []))"

lemma simple_systemctl_laws: "systemctl_laws simple_systemctl (\<lambda>us n. n \<in> set us)"
  by (auto simp: systemctl_laws_def simple_systemctl_def)

definition sample_client :: exec_client where
  "sample_client = NewExecClient (\<lambda>p. Some (''/usr/bin/'' @ p)) ''systemctl'' ''mergen''"

theorem start_stop_units_witness:
  "sd_Start simple_systemctl sample_client ''a'' [''mergen@a.service''] = ([''mergen@a.service''], Ok ()) \<and>
   (\<exists>u'. sd_Stop simple_systemctl sample_client ''a'' [''mergen@a.service''] = (u', Ok ()) \<and> ''mergen@a.service'' \<notin> set u')"
proof -
  have "ec_available sample_client" "unitName sample_client ''a'' = ''mergen@a.service''" by code_simp+
  moreover have "sd_Stop simple_systemctl sample_client ''a'' [''mergen@a.service''] = ([], Ok ())" by code_simp
  ultimately show ?thesis
    using start_stop_units [OF simple_systemctl_laws, of sample_client "''a''" "[''mergen@a.service'']"] by simp
qed

text \<open>
  The status the client reports is the one \<open>systemctl show\<close> prints: process number and states are
  read back from its output, and the unit counts as active exactly in the state \<open>active\<close>.
\<close>

theorem sd_Status_reads_back:
  assumes "ec_available c" "int64 pid" "\<forall>ch \<in> set active. \<not> is_space ch" "\<forall>ch \<in> set sub. \<not> is_space ch"
    and "ctl u [''show'', unitName c vid, ''--property=MainPID'', ''--property=ActiveState'', ''--property=SubState''] =
           (u', ExecOK (show_output pid active sub))"
  shows "sd_Status ctl c vid u =
    (u', \<lparr>sd_Available = True, sd_Unit = unitName c vid, sd_Active = (active = ''active''),
          sd_ActiveState = active, sd_SubState = sub, sd_MainPID = pid\<rparr>, None)"
  using assms
  by (simp add: sd_Status_def run_def status_lines status_line_simps Let_def del: append_Cons append_Nil)

theorem sd_Status_reads_back_witness:
  "sd_Status (\<lambda>u _. (u, ExecOK (show_output 42 ''active'' ''running''))) sample_client ''a'' () =
     ((), \<lparr>sd_Available = True, sd_Unit = ''mergen@a.service'', sd_Active = True,
           sd_ActiveState = ''active'', sd_SubState = ''running'', sd_MainPID = 42\<rparr>, None)"
proof -
  have s: "ec_available sample_client" "unitName sample_client ''a'' = ''mergen@a.service''" by code_simp+
  moreover have "int64 42" "\<forall>ch \<in> set ''active''. \<not> is_space ch" "\<forall>ch \<in> set ''running''. \<not> is_space ch"
    by (simp_all add: int64_def is_space_def)
  ultimately show ?thesis
    using sd_Status_reads_back [of sample_client 42 "''active''" "''running''"
        "\<lambda>u _. (u, ExecOK (show_output 42 ''active'' ''running''))" "()" "''a''" "()"] by simp
qed

end
