(* ===== verification/Hooks.thy ===== *)
theory Hooks
  imports Model
begin

text \<open>
  \<open>src/internal/hooks/runner.go\<close>: running the hooks of an event.  The outside world is a state of
  its own; sending an HTTP request and running a command are parameters that change it, and so is
  the template engine that renders the arguments of a command.  Time outs are failures of these
  parameters.
\<close>

section \<open>Definitions\<close>

datatype hook_err =
    UnsupportedType string
  | EmptyURL
  | EmptyCommand
  | TemplateErr string
  | HTTPErr string
  | HTTPStatus int
  | ExecErr string

record http_request =
  hr_Method :: string
  hr_URL :: string
  hr_Headers :: "string gomap"
  hr_Body :: json

record 'w hook_env =
  hk_http :: "http_request \<Rightarrow> 'w \<Rightarrow> 'w \<times> (string, int) result"
  hk_exec :: "string list \<Rightarrow> 'w \<Rightarrow> 'w \<times> (string, string) result"
  hk_render :: "string \<Rightarrow> hook_context \<Rightarrow> (string, string) result"

definition enc_hook_context :: "hook_context \<Rightarrow> json" where
  "enc_hook_context c =
     JObj ([(''id'', JStr (hx_ID c)),
            (''hostPorts'', JArr (map enc_int (hx_HostPorts c))),
            (''guestPorts'', JArr (map enc_int (hx_GuestPorts c))),
            (''guestIP'', JStr (hx_GuestIP c)),
            (''createdAt'', JTime (hx_CreatedAt c)),
            (''paths'', enc_paths (hx_Paths c))] @
           omit_map ''metadata'' (\<lambda>j. j) (hx_Metadata c))"

text \<open>
  \<open>http.Header.Set\<close> puts the key into its canonical form, unless it has a character that no
  header name has.
\<close>

definition header_char :: "char \<Rightarrow> bool" where
  "header_char c \<longleftrightarrow>
     is_digit c \<or> (97 \<le> (of_char c :: nat) \<and> (of_char c :: nat) \<le> 122) \<or>
     (65 \<le> (of_char c :: nat) \<and> (of_char c :: nat) \<le> 90) \<or>
     c \<in> set ''!#$%&*+-.^_|~'' \<or> c = CHR 39 \<or> c = CHR 96"

fun canonical_header :: "bool \<Rightarrow> string \<Rightarrow> string" where
  "canonical_header up [] = []"
| "canonical_header up (c # cs) =
     (if up then upper_char c else lower_char c) # canonical_header (c = CHR ''-'') cs"

definition header_key :: "string \<Rightarrow> string" where
  "header_key k = (if list_all header_char k then canonical_header True k else k)"

definition execHTTP ::
  "'w hook_env \<Rightarrow> hook_entry \<Rightarrow> hook_context \<Rightarrow> 'w \<Rightarrow> 'w \<times> (hook_err, unit) result" where
  "execHTTP env hook payload w =
     (if he_URL hook = [] then (w, Err EmptyURL)
      else
        let req = \<lparr>hr_Method = ''POST'', hr_URL = he_URL hook,
                   hr_Headers = map_puts (map (\<lambda>(k, v). (header_key k, v)) (he_Headers hook))
                                  [(''Content-Type'', ''application/json'')],
                   hr_Body = enc_hook_context payload\<rparr>
        in case hk_http env req w of
             (w', Err e) \<Rightarrow> (w', Err (HTTPErr e))
           | (w', Ok status) \<Rightarrow>
               if status < 200 \<or> status \<ge> 300 then (w', Err (HTTPStatus status)) else (w', Ok ()))"

definition renderTemplate :: "'w hook_env \<Rightarrow> string \<Rightarrow> hook_context \<Rightarrow> (hook_err, string) result" where
  "renderTemplate env input payload = map_err TemplateErr (hk_render env input payload)"

definition execCommand ::
  "'w hook_env \<Rightarrow> hook_entry \<Rightarrow> hook_context \<Rightarrow> 'w \<Rightarrow> 'w \<times> (hook_err, unit) result" where
  "execCommand env hook payload w =
     (if length (he_Cmd hook) = 0 then (w, Err EmptyCommand)
      else case mapM (\<lambda>part. renderTemplate env part payload) (he_Cmd hook) of
             Err e \<Rightarrow> (w, Err e)
           | Ok argv \<Rightarrow>
               (case hk_exec env argv w of
                  (w', Err e) \<Rightarrow> (w', Err (ExecErr e))
                | (w', Ok output) \<Rightarrow> (w', Ok ())))"

definition execute_hook ::
  "'w hook_env \<Rightarrow> hook_entry \<Rightarrow> hook_context \<Rightarrow> 'w \<Rightarrow> 'w \<times> (hook_err, unit) result" where
  "execute_hook env hook payload w =
     (let t = ToLower (TrimSpace (he_Type hook))
      in if t = ''http'' then execHTTP env hook payload w
         else if t = ''exec'' then execCommand env hook payload w
         else (w, Err (UnsupportedType (he_Type hook))))"

fun Run_loop ::
  "'w hook_env \<Rightarrow> hook_entry list \<Rightarrow> hook_context \<Rightarrow> hook_err list \<Rightarrow> 'w \<Rightarrow> 'w \<times> hook_err list" where
  "Run_loop env [] payload strictErrors w = (w, strictErrors)"
| "Run_loop env (hook # hooks) payload strictErrors w =
     (case execute_hook env hook payload w of
        (w', Err e) \<Rightarrow> Run_loop env hooks payload (if he_Strict hook then strictErrors @ [e] else strictErrors) w'
      | (w', Ok _) \<Rightarrow> Run_loop env hooks payload strictErrors w')"

definition Run ::
  "'w hook_env \<Rightarrow> hook_entry list \<Rightarrow> hook_context \<Rightarrow> 'w \<Rightarrow> 'w \<times> (hook_err list, unit) result" where
  "Run env hooks payload w =
     (case Run_loop env hooks payload [] w of
        (w', strictErrors) \<Rightarrow> (w', if length strictErrors > 0 then Err strictErrors else Ok ()))"

section \<open>Lemmas\<close>

text \<open>The results of all hooks, each run in the world the one before it left.\<close>

fun hook_results ::
  "'w hook_env \<Rightarrow> hook_entry list \<Rightarrow> hook_context \<Rightarrow> 'w \<Rightarrow> 'w \<times> (hook_entry \<times> (hook_err, unit) result) list" where
  "hook_results env [] payload w = (w, [])"
| "hook_results env (h # hs) payload w =
     (let (w1, r) = execute_hook env h payload w; (w2, rs) = hook_results env hs payload w1
      in (w2, (h, r) # rs))"

definition strict_failures :: "(hook_entry \<times> (hook_err, unit) result) list \<Rightarrow> hook_err list" where
  "strict_failures rs = concat (map (\<lambda>(h, r). case r of Err e \<Rightarrow> if he_Strict h then [e] else [] | Ok _ \<Rightarrow> []) rs)"

lemma Run_loop_results:
  "Run_loop env hooks payload acc w =
     (fst (hook_results env hooks payload w), acc @ strict_failures (snd (hook_results env hooks payload w)))"
  by (induction hooks arbitrary: acc w) (auto simp: strict_failures_def Let_def split: prod.splits sum.splits)

section \<open>Properties\<close>

text \<open>
  C37: a hook that fails does not keep the others from running: every hook is run once, in order, each
  in the world the one before it left; the run fails exactly when a strict hook failed, and reports
  the failures of the strict hooks in order and no other.
\<close>

theorem Run_runs_all:
  "(let (w', rs) = hook_results env hooks payload w
    in map fst rs = hooks \<and>
       Run env hooks payload w = (w', if strict_failures rs = [] then Ok () else Err (strict_failures rs)))"
proof -
  have "map fst (snd (hook_results env hooks payload w)) = hooks"
    by (induction hooks arbitrary: w) (simp_all add: Let_def case_prod_beta)
  then show ?thesis by (auto simp: Run_def Run_loop_results Let_def split: prod.splits)
qed

end
