(* ===== verification/Manager.thy ===== *)
theory Manager
  imports Firecracker Lock Systemd Hooks
begin

unbundle bit_operations_syntax

text \<open>
  \<open>src/internal/manager/service.go\<close>: the service behind the API.  It keeps no state of its own; its
  world is the file system of the store, the units of the service manager, the locks held by the
  handlers and the hook runs that were scheduled.  Each operation is a function of the service's
  configuration, its arguments and the world.  The time and the random bytes of a new identifier
  are arguments of \<open>CreateVM\<close>.
\<close>

section \<open>Definitions\<close>

record 'u world =
  w_fs :: fs
  w_units :: 'u
  w_held :: "string list list"
  w_hooks :: "(string \<times> hook_entry list \<times> hook_context) list"

record 'u service =
  sv_env :: os_env
  sv_store :: fs_store
  sv_ctl :: "'u systemctl"
  sv_client :: exec_client
  sv_hooks :: bool
  sv_alloc :: allocator

datatype invalid =
    RootFSRequired
  | KernelRequired
  | VCPUTooSmall
  | MemTooSmall
  | BadGuestPort int
  | BadHostPort int
  | BadHTTPPort int
  | PathMissing string oserr
  | PathIsDir string
  | AllocationErr alloc_error
  | IDEmpty

datatype mgr_err =
    ErrInvalidRequest invalid
  | MgrNotFound
  | ErrConflict
  | ErrUnavailable sd_err
  | StoreError store_err
  | SystemdError sd_err
  | LockError lock_err
  | OSError oserr
  | RandError

definition validateCreate :: "create_vm_request \<Rightarrow> invalid option" where
  "validateCreate req =
     (if TrimSpace (req_RootFS req) = [] then Some RootFSRequired
      else if TrimSpace (req_Kernel req) = [] then Some KernelRequired
      else if req_VCPU req \<le> 0 then Some VCPUTooSmall
      else if req_MemMiB req < 128 then Some MemTooSmall
      else
        case List.find (\<lambda>p. \<not> (0 < pbr_Guest p \<and> pbr_Guest p \<le> 65535) \<or>
                            \<not> (0 \<le> pbr_Host p \<and> pbr_Host p \<le> 65535)) (req_Ports req) of
          Some p \<Rightarrow>
            if pbr_Guest p \<le> 0 \<or> pbr_Guest p > 65535 then Some (BadGuestPort (pbr_Guest p))
            else Some (BadHostPort (pbr_Host p))
        | None \<Rightarrow>
            if req_HTTPPort req < 0 \<or> req_HTTPPort req > 65535 then Some (BadHTTPPort (req_HTTPPort req))
            else None)"

definition validatePathExists :: "os_env \<Rightarrow> string \<Rightarrow> fs \<Rightarrow> invalid option" where
  "validatePathExists env path fs =
     (case os_Stat env path fs of
        Err e \<Rightarrow> Some (PathMissing path e)
      | Ok NDir \<Rightarrow> Some (PathIsDir path)
      | Ok _ \<Rightarrow> None)"

text \<open>
  A version 4 UUID from 16 random bytes; \<open>None\<close> stands for a failure of the random source.
\<close>

definition newUUIDv4 :: "8 word list option \<Rightarrow> (mgr_err, string) result" where
  "newUUIDv4 random =
     (case random of
        None \<Rightarrow> Err RandError
      | Some raw0 \<Rightarrow>
          (let raw1 = raw0[6 := (raw0 ! 6 AND 0x0f) OR 0x40];
               raw = raw1[8 := (raw1 ! 8 AND 0x3f) OR 0x80]
           in Ok (hex_bytes (take 4 raw) @ ''-'' @ hex_bytes (take 2 (drop 4 raw)) @ ''-'' @
                  hex_bytes (take 2 (drop 6 raw)) @ ''-'' @ hex_bytes (take 2 (drop 8 raw)) @ ''-'' @
                  hex_bytes (take 6 (drop 10 raw)))))"

definition hooks_entry :: "string \<Rightarrow> hook_entry list gomap \<Rightarrow> hook_entry list" where
  "hooks_entry k m = (case map_of m k of None \<Rightarrow> [] | Some hs \<Rightarrow> hs)"

definition hooksFromMap :: "hook_entry list gomap \<Rightarrow> hooks_config" where
  "hooksFromMap hookMap =
     (if length hookMap = 0 then zero_hooks
      else \<lparr>hc_OnCreate = hooks_entry HookOnCreate hookMap, hc_OnDelete = hooks_entry HookOnDelete hookMap,
            hc_OnStart = hooks_entry HookOnStart hookMap, hc_OnStop = hooks_entry HookOnStop hookMap\<rparr>)"

definition hooksForEvent :: "hooks_config \<Rightarrow> string \<Rightarrow> hook_entry list" where
  "hooksForEvent cfg event =
     (if event = HookOnCreate then hc_OnCreate cfg
      else if event = HookOnDelete then hc_OnDelete cfg
      else if event = HookOnStart then hc_OnStart cfg
      else if event = HookOnStop then hc_OnStop cfg
      else [])"

definition hookContext :: "vm_metadata \<Rightarrow> hook_context" where
  "hookContext meta =
     \<lparr>hx_ID = meta_ID meta, hx_HostPorts = map pb_Host (meta_Ports meta),
      hx_GuestPorts = map pb_Guest (meta_Ports meta), hx_GuestIP = meta_GuestIP meta,
      hx_CreatedAt = meta_CreatedAt meta, hx_Paths = meta_Paths meta, hx_Metadata = meta_Metadata meta\<rparr>"

definition baseEnv :: "vm_metadata \<Rightarrow> vm_paths \<Rightarrow> string gomap \<Rightarrow> string gomap" where
  "baseEnv meta paths extra =
     (let env = map_puts
            [(''MGN_VM_ID'', meta_ID meta),
             (''MGN_CONFIG_DIR'', pa_ConfigDir paths),
             (''MGN_VM_JSON'', pa_VMConfigPath paths),
             (''MGN_META_JSON'', pa_MetaPath paths),
             (''MGN_HOOKS_JSON'', pa_HooksPath paths),
             (''MGN_RUN_DIR'', pa_RunDir paths),
             (''MGN_SOCKET_PATH'', pa_SocketPath paths),
             (''MGN_TAP_NAME'', meta_TapName meta),
             (''MGN_NETNS'', meta_NetNS meta),
             (''MGN_GUEST_IP'', meta_GuestIP meta),
             (''MGN_DATA_DIR'', pa_DataDir paths),
             (''MGN_LOG_DIR'', pa_LogsDir paths)] [];
          env1 = (if meta_HTTPPort meta > 0 then map_put ''MGN_HTTP_PORT'' (Itoa (meta_HTTPPort meta)) env else env);
          env2 = map_puts (map (\<lambda>p. (''MGN_PUBLISH_'' @ Itoa (pb_Guest p), Itoa (pb_Host p) @ ''/'' @ pb_Protocol p))
                             (meta_Ports meta)) env1
      in map_puts (filter (\<lambda>(k, v). TrimSpace k \<noteq> []) extra) env2)"

text \<open>\<open>RunAsync\<close> schedules a run unless there is no hook; the global hooks come first.\<close>

definition RunAsync :: "string \<Rightarrow> hook_entry list \<Rightarrow> hook_context \<Rightarrow> 'u world \<Rightarrow> 'u world" where
  "RunAsync event hooks payload w =
     (if length hooks = 0 then w else w\<lparr>w_hooks := w_hooks w @ [(event, hooks, payload)]\<rparr>)"

definition triggerHooks ::
  "'u service \<Rightarrow> string \<Rightarrow> vm_metadata \<Rightarrow> hooks_config option \<Rightarrow> 'u world \<Rightarrow> 'u world" where
  "triggerHooks svc event meta vmHooksOverride w =
     (if \<not> sv_hooks svc then w
      else
        let vmHooks =
              (case vmHooksOverride of
                 Some h \<Rightarrow> h
               | None \<Rightarrow>
                   (case ReadHooks (sv_env svc) (sv_store svc) (meta_ID meta) (w_fs w) of
                      Err _ \<Rightarrow> zero_hooks
                    | Ok h \<Rightarrow> h));
            globalHooks = fst (ReadGlobalHooks (sv_env svc) (sv_store svc) (w_fs w))
        in RunAsync event (hooksForEvent globalHooks event @ hooksForEvent vmHooks event) (hookContext meta) w)"

definition lockVM :: "'u service \<Rightarrow> string \<Rightarrow> 'u world \<Rightarrow> 'u world \<times> (mgr_err, string list) result" where
  "lockVM svc vid w =
     (case Acquire (sv_env svc) (pa_LockPath (PathsFor (sv_store svc) vid)) (w_fs w) (w_held w) of
        (fs', held', r) \<Rightarrow>
          (w\<lparr>w_fs := fs', w_held := held'\<rparr>,
           map_err (\<lambda>e. if e = ErrAlreadyLocked then ErrConflict else LockError e) r))"

definition unlockVM :: "'u service \<Rightarrow> string list \<Rightarrow> 'u world \<Rightarrow> 'u world" where
  "unlockVM svc p w = w\<lparr>w_held := fst (Release (sv_env svc) p (w_fs w) (w_held w))\<rparr>"

text \<open>The common beginning of an operation on one VM: the checks before its lock is taken.\<close>

definition check_exists :: "'u service \<Rightarrow> string \<Rightarrow> 'u world \<Rightarrow> (mgr_err, unit) result" where
  "check_exists svc vid w =
     (if TrimSpace vid = [] then Err (ErrInvalidRequest IDEmpty)
      else case Exists (sv_env svc) (sv_store svc) vid (w_fs w) of
             Err e \<Rightarrow> Err (StoreError e)
           | Ok False \<Rightarrow> Err MgrNotFound
           | Ok True \<Rightarrow> Ok ())"

definition with_lock ::
  "'u service \<Rightarrow> string \<Rightarrow> ('u world \<Rightarrow> 'u world \<times> (mgr_err, 'a) result) \<Rightarrow> 'u world \<Rightarrow> 'u world \<times> (mgr_err, 'a) result" where
  "with_lock svc vid body w =
     (case lockVM svc vid w of
        (w1, Err e) \<Rightarrow> (w1, Err e)
      | (w1, Ok p) \<Rightarrow> (case body w1 of (w2, r) \<Rightarrow> (unlockVM svc p w2, r)))"

definition dep_err :: "sd_err \<Rightarrow> mgr_err" where
  "dep_err e = (case e of SdUnavailable \<Rightarrow> ErrUnavailable e | SdUnitNotFound _ \<Rightarrow> ErrUnavailable e | _ \<Rightarrow> SystemdError e)"

definition on_event :: "'u service \<Rightarrow> string \<Rightarrow> string \<Rightarrow> 'u world \<Rightarrow> 'u world" where
  "on_event svc event vid w =
     (case ReadMeta (sv_env svc) (sv_store svc) vid (w_fs w) of
        Ok meta \<Rightarrow> triggerHooks svc event meta None w
      | Err _ \<Rightarrow> w)"

definition start_locked :: "'u service \<Rightarrow> string \<Rightarrow> 'u world \<Rightarrow> 'u world \<times> (mgr_err, unit) result" where
  "start_locked svc vid w =
     (case sd_Start (sv_ctl svc) (sv_client svc) vid (w_units w) of
        (u', Err e) \<Rightarrow> (w\<lparr>w_units := u'\<rparr>, Err (dep_err e))
      | (u', Ok _) \<Rightarrow> (on_event svc HookOnStart vid (w\<lparr>w_units := u'\<rparr>), Ok ()))"

definition StartVM :: "'u service \<Rightarrow> string \<Rightarrow> 'u world \<Rightarrow> 'u world \<times> (mgr_err, unit) result" where
  "StartVM svc vid w =
     (case check_exists svc vid w of
        Err e \<Rightarrow> (w, Err e)
      | Ok _ \<Rightarrow> with_lock svc vid (start_locked svc vid) w)"

definition stop_locked :: "'u service \<Rightarrow> string \<Rightarrow> 'u world \<Rightarrow> 'u world \<times> (mgr_err, unit) result" where
  "stop_locked svc vid w =
     (case sd_Stop (sv_ctl svc) (sv_client svc) vid (w_units w) of
        (u', Err e) \<Rightarrow> (w\<lparr>w_units := u'\<rparr>, Err (dep_err e))
      | (u', Ok _) \<Rightarrow> (on_event svc HookOnStop vid (w\<lparr>w_units := u'\<rparr>), Ok ()))"

definition StopVM :: "'u service \<Rightarrow> string \<Rightarrow> 'u world \<Rightarrow> 'u world \<times> (mgr_err, unit) result" where
  "StopVM svc vid w =
     (case check_exists svc vid w of
        Err e \<Rightarrow> (w, Err e)
      | Ok _ \<Rightarrow> with_lock svc vid (stop_locked svc vid) w)"

definition store_gone :: "store_err \<Rightarrow> mgr_err" where
  "store_gone e = (if e = ErrNotFound then MgrNotFound else StoreError e)"

definition delete_locked :: "'u service \<Rightarrow> string \<Rightarrow> bool \<Rightarrow> 'u world \<Rightarrow> 'u world \<times> (mgr_err, unit) result" where
  "delete_locked svc vid retainData w =
     (case ReadMeta (sv_env svc) (sv_store svc) vid (w_fs w) of
        Err e \<Rightarrow> (w, Err (store_gone e))
      | Ok meta \<Rightarrow>
          (let vmHooks = (case ReadHooks (sv_env svc) (sv_store svc) vid (w_fs w) of Ok h \<Rightarrow> h | Err _ \<Rightarrow> zero_hooks);
               u1 = fst (sd_Stop (sv_ctl svc) (sv_client svc) vid (w_units w));
               u2 = fst (sd_Disable (sv_ctl svc) (sv_client svc) vid u1)
           in case Store.DeleteVM (sv_env svc) (sv_store svc) vid retainData (w_fs w) of
                (fs', Err e) \<Rightarrow> (w\<lparr>w_units := u2, w_fs := fs'\<rparr>, Err (store_gone e))
              | (fs', Ok _) \<Rightarrow>
                  (triggerHooks svc HookOnDelete meta (Some vmHooks) (w\<lparr>w_units := u2, w_fs := fs'\<rparr>), Ok ())))"

definition DeleteVM :: "'u service \<Rightarrow> string \<Rightarrow> bool \<Rightarrow> 'u world \<Rightarrow> 'u world \<times> (mgr_err, unit) result" where
  "DeleteVM svc vid retainData w =
     (case check_exists svc vid w of
        Err e \<Rightarrow> (w, Err e)
      | Ok _ \<Rightarrow> with_lock svc vid (delete_locked svc vid retainData) w)"

definition new_metadata ::
  "create_vm_request \<Rightarrow> string \<Rightarrow> int \<Rightarrow> string \<Rightarrow> port_binding list \<Rightarrow> vm_paths \<Rightarrow> vm_metadata" where
  "new_metadata req vmID now guestIP ports paths =
     \<lparr>meta_ID = vmID, meta_CreatedAt = now, meta_RootFS = req_RootFS req, meta_Kernel = req_Kernel req,
      meta_DataDisk = req_DataDisk req, meta_Ports = ports, meta_HTTPPort = req_HTTPPort req,
      meta_GuestIP = guestIP, meta_TapName = TapName vmID, meta_NetNS = NetNSName vmID,
      meta_Metadata = req_Metadata req, meta_Tags = req_Tags req, meta_Paths = paths, meta_Hooks = req_Hooks req\<rparr>"

definition check_create :: "os_env \<Rightarrow> create_vm_request \<Rightarrow> fs \<Rightarrow> invalid option" where
  "check_create env req fs =
     (case validateCreate req of
        Some e \<Rightarrow> Some e
      | None \<Rightarrow>
     (case validatePathExists env (req_RootFS req) fs of
        Some e \<Rightarrow> Some e
      | None \<Rightarrow>
     (case validatePathExists env (req_Kernel req) fs of
        Some e \<Rightarrow> Some e
      | None \<Rightarrow>
          if TrimSpace (req_DataDisk req) \<noteq> [] then validatePathExists env (req_DataDisk req) fs else None)))"

definition CreateVM ::
  "'u service \<Rightarrow> int \<Rightarrow> 8 word list option \<Rightarrow> create_vm_request \<Rightarrow> 'u world \<Rightarrow> 'u world \<times> (mgr_err, string) result" where
  "CreateVM svc now random req w =
     (case check_create (sv_env svc) req (w_fs w) of
        Some e \<Rightarrow> (w, Err (ErrInvalidRequest e))
      | None \<Rightarrow>
     (case ListMetas (sv_env svc) (sv_store svc) (w_fs w) of
        Err e \<Rightarrow> (w, Err (StoreError e))
      | Ok metas \<Rightarrow>
     (case Allocate (sv_alloc svc) metas (req_Ports req) of
        Err e \<Rightarrow> (w, Err (ErrInvalidRequest (AllocationErr e)))
      | Ok (guestIP, ports) \<Rightarrow>
     (case newUUIDv4 random of
        Err e \<Rightarrow> (w, Err e)
      | Ok vmID \<Rightarrow>
          (let paths = PathsFor (sv_store svc) vmID;
               vmCfg = RenderVMConfig req (new_metadata req vmID now guestIP ports zero_paths);
               meta = new_metadata req vmID now guestIP ports paths;
               hooksCfg = hooksFromMap (req_Hooks req);
               env = baseEnv meta paths (req_ExtraEnv req)
           in case SaveVM (sv_env svc) (sv_store svc) vmID vmCfg meta hooksCfg env (w_fs w) of
                (fs', Err e) \<Rightarrow> (w\<lparr>w_fs := fs'\<rparr>, Err (StoreError e))
              | (fs', Ok _) \<Rightarrow>
                  (let w1 = triggerHooks svc HookOnCreate meta None (w\<lparr>w_fs := fs'\<rparr>)
                   in if req_AutoStart req then
                        (case StartVM svc vmID w1 of
                           (w2, Err e) \<Rightarrow> (w2, Err e)
                         | (w2, Ok _) \<Rightarrow> (w2, Ok vmID))
                      else (w1, Ok vmID)))))))"

text \<open>\<open>src/internal/firecracker/probe.go\<close>\<close>

definition SocketPresent :: "os_env \<Rightarrow> string \<Rightarrow> fs \<Rightarrow> (oserr, bool) result" where
  "SocketPresent env socketPath fs =
     (case os_Stat env socketPath fs of
        Err ENOENT \<Rightarrow> Ok False
      | Err e \<Rightarrow> Err e
      | Ok n \<Rightarrow> Ok (n = NSocket))"

definition GetVM :: "'u service \<Rightarrow> string \<Rightarrow> 'u world \<Rightarrow> 'u world \<times> (mgr_err, vm_summary) result" where
  "GetVM svc vid w =
     (if TrimSpace vid = [] then (w, Err (ErrInvalidRequest IDEmpty))
      else
        case ReadMeta (sv_env svc) (sv_store svc) vid (w_fs w) of
          Err e \<Rightarrow> (w, Err (store_gone e))
        | Ok meta \<Rightarrow>
            (case sd_Status (sv_ctl svc) (sv_client svc) vid (w_units w) of
               (u', status, err) \<Rightarrow>
                 if err \<noteq> None \<and> err \<noteq> Some SdUnavailable then (w\<lparr>w_units := u'\<rparr>, Err (SystemdError (the err)))
                 else
                   case SocketPresent (sv_env svc) (pa_SocketPath (meta_Paths meta)) (w_fs w) of
                     Err e \<Rightarrow> (w\<lparr>w_units := u'\<rparr>, Err (OSError e))
                   | Ok present \<Rightarrow>
                       (w\<lparr>w_units := u'\<rparr>,
                        Ok \<lparr>sum_ID = meta_ID meta, sum_CreatedAt = meta_CreatedAt meta,
                            sum_Systemd = \<lparr>ss_Available = sd_Available status, ss_Unit = sd_Unit status,
                              ss_Active = sd_Active status, ss_ActiveState = sd_ActiveState status,
                              ss_SubState = sd_SubState status, ss_MainPID = sd_MainPID status\<rparr>,
                            sum_Firecracker = \<lparr>fst_SocketPath = pa_SocketPath (meta_Paths meta), fst_SocketPresent = present\<rparr>,
                            sum_Network = \<lparr>ns_GuestIP = meta_GuestIP meta, ns_Ports = meta_Ports meta,
                              ns_TapName = meta_TapName meta, ns_NetNS = meta_NetNS meta\<rparr>,
                            sum_Paths = meta_Paths meta, sum_Metadata = meta_Metadata meta\<rparr>)))"

fun get_each :: "'u service \<Rightarrow> string list \<Rightarrow> 'u world \<Rightarrow> 'u world \<times> (mgr_err, vm_summary list) result" where
  "get_each svc [] w = (w, Ok [])"
| "get_each svc (vid # ids) w =
     (case GetVM svc vid w of
        (w1, Err e) \<Rightarrow> if e = MgrNotFound then get_each svc ids w1 else (w1, Err e)
      | (w1, Ok vm) \<Rightarrow>
          (case get_each svc ids w1 of
             (w2, Err e) \<Rightarrow> (w2, Err e)
           | (w2, Ok vms) \<Rightarrow> (w2, Ok (vm # vms))))"

text \<open>The list is sorted by descending creation time; the order among equal times is left open by the code.\<close>

definition ListVMs :: "'u service \<Rightarrow> 'u world \<Rightarrow> 'u world \<times> (mgr_err, vm_summary list) result" where
  "ListVMs svc w =
     (case ListVMIDs (sv_env svc) (sv_store svc) (w_fs w) of
        Err e \<Rightarrow> (w, Err (StoreError e))
      | Ok ids \<Rightarrow>
          (case get_each svc ids w of
             (w1, Err e) \<Rightarrow> (w1, Err e)
           | (w1, Ok result) \<Rightarrow> (w1, Ok (sort_key (\<lambda>vm. - sum_CreatedAt vm) result))))"

section \<open>Identifiers\<close>

definition uuid_char :: "char \<Rightarrow> bool" where
  "uuid_char c \<longleftrightarrow> c \<in> set ''0123456789abcdef-''"

lemma hex_char_uuid: "n < 16 \<Longrightarrow> uuid_char (hex_char n)"
proof -
  assume "n < 16"
  then have "n \<in> set [0..<16]" by simp
  moreover have "list_all (\<lambda>n. uuid_char (hex_char n)) [0..<16]" by code_simp
  ultimately show ?thesis by (simp only: list_all_iff)
qed

lemma hex_bytes_uuid: "list_all uuid_char (hex_bytes bs)"
proof -
  have "unat b div 16 < 16" for b :: "8 word"
  proof -
    have "unat b < 16 * 16" using unat_bound [of b] by simp
    then show ?thesis by (rule less_mult_imp_div_less)
  qed
  then show ?thesis by (induction bs) (auto simp: hex_bytes_def hex_byte_def hex_char_uuid)
qed

lemma uuid_char_simps: "\<not> uuid_char CHR ''/''" "\<not> uuid_char CHR ''.''" "uuid_char c \<Longrightarrow> \<not> is_space c"
  by (auto simp: uuid_char_def is_space_def)

lemma no_dots: "CHR ''.'' \<notin> set s \<Longrightarrow> \<not> Contains s ''..''"
  by (induction s) (auto simp: prefix_Cons)

lemma ident_uuid:
  assumes "list_all uuid_char v" "v \<noteq> []"
  shows "ident v"
proof -
  have *: "CHR ''/'' \<notin> set v" "CHR ''.'' \<notin> set v" using assms(1) uuid_char_simps by (auto simp: list_all_iff)
  have "TrimSpace v = v" using assms(1) uuid_char_simps(3) by (intro TrimSpace_no_space) (auto simp: list_all_iff)
  then show ?thesis using assms(2) * no_dots [OF *(2)] by (auto simp: ident_def validateID_def)
qed

lemma newUUIDv4_chars:
  assumes "newUUIDv4 (Some raw) = Ok v" "length raw = 16"
  shows "list_all uuid_char v" "length v = 36" "ident v" "v \<noteq> ''meta.json''"
proof -
  show c: "list_all uuid_char v"
    using assms(1) by (auto simp: newUUIDv4_def Let_def hex_bytes_uuid) (simp_all add: uuid_char_def)
  show l: "length v = 36" using assms by (auto simp: newUUIDv4_def Let_def)
  show "ident v" using ident_uuid [OF c] l by fastforce
  show "v \<noteq> ''meta.json''" using l by auto
qed

section \<open>The effect of the operations on the file system\<close>

lemma triggerHooks_same [simp]:
  "w_fs (triggerHooks svc ev m ov w) = w_fs w" "w_units (triggerHooks svc ev m ov w) = w_units w"
  "w_held (triggerHooks svc ev m ov w) = w_held w"
  by (simp_all add: triggerHooks_def RunAsync_def Let_def)

lemma on_event_same [simp]:
  "w_fs (on_event svc ev vid w) = w_fs w" "w_units (on_event svc ev vid w) = w_units w" "w_held (on_event svc ev vid w) = w_held w"
  by (auto simp: on_event_def split: sum.splits)

text \<open>Taking a lock adds at most the lock file and directories above it, none of them in the configuration root.\<close>

definition outside_config :: "fs_store \<Rightarrow> fs \<Rightarrow> fs \<Rightarrow> bool" where
  "outside_config st fs fs' \<longleftrightarrow>
     (\<exists>v. vm_frame st v fs fs') \<and> (\<forall>z zs. fs_get fs' (croot st @ z # zs) = fs_get fs (croot st @ z # zs))"

lemma outside_config_refl [simp]: "outside_config st fs fs"
  by (auto simp: outside_config_def)

lemma lockVM_fs:
  assumes run: "lockVM svc vid w = (w1, r)" and wf: "fs_wf (w_fs w)" and ro: "roots_ok (sv_store svc)" and fn: "file_name vid"
  shows "fs_wf (w_fs w1)" "outside_config (sv_store svc) (w_fs w) (w_fs w1)" "w_units w1 = w_units w"
proof -
  let ?st = "sv_store svc" and ?v = "vid @ ''.lock''"
  let ?p = "pa_LockPath (PathsFor ?st vid)"
  obtain fs' held' r' where a: "Acquire (sv_env svc) ?p (w_fs w) (w_held w) = (fs', held', r')"
    by (metis prod_cases3)
  then have w1: "w_fs w1 = fs'" "w_units w1 = w_units w" using run by (auto simp: lockVM_def)
  have fl: "file_name ?v" by (rule file_name_lock [OF fn])
  have p: "resolve ?p = rroot ?st @ [?v]" "resolve (path_Dir ?p) = rroot ?st"
    using fl by (simp_all add: PathsFor_def Let_def resolve_path_Join resolve_path_Dir rroot_def)
  note e = Acquire_effect [OF a wf, unfolded p]
  show "fs_wf (w_fs w1)" using e(1) w1 by simp
  have own: "owns ?st ?v (rroot ?st @ [?v])" by (simp add: owns_def)
  have "vm_frame ?st ?v (w_fs w) fs'"
    unfolding vm_frame_def using e(2) own by (metis (no_types, lifting))
  moreover have "fs_get fs' (croot ?st @ z # zs) = fs_get (w_fs w) (croot ?st @ z # zs)" for z zs
  proof -
    have par: "\<not> prefix (croot ?st) (rroot ?st)" "\<not> prefix (rroot ?st) (croot ?st)"
      using ro by (auto simp: roots_ok_def parallel_def)
    have "croot ?st @ z # zs \<noteq> rroot ?st @ [?v]"
    proof
      assume eq: "croot ?st @ z # zs = rroot ?st @ [?v]"
      have "prefix (croot ?st) (rroot ?st @ [?v])" unfolding eq [symmetric] by simp
      moreover have "prefix (rroot ?st) (rroot ?st @ [?v])" by simp
      ultimately show False using par prefix_same_cases by blast
    qed
    moreover have "\<not> prefix (croot ?st @ z # zs) (rroot ?st)" using par(1) append_prefixD by blast
    ultimately show ?thesis using e(2) by blast
  qed
  ultimately show "outside_config ?st (w_fs w) (w_fs w1)" "w_units w1 = w_units w"
    using w1 by (auto simp: outside_config_def)
qed

lemma ListMetas_outside:
  assumes "outside_config st fs fs'" "store_ok env st fs" "fs_wf fs'" "ListMetas env st fs = Ok ms"
  shows "\<exists>ms'. ListMetas env st fs' = Ok ms' \<and> mset ms' = mset ms"
  using ListMetas_same [OF assms(2,3) _ _ assms(4)] assms(1) by (auto simp: outside_config_def)

section \<open>The invariant of the service\<close>

text \<open>
  The store is usable, its configuration root has no stray metadata file, and the VMs it lists hold
  distinct addresses and distinct host ports.
\<close>

definition svc_inv :: "'u service \<Rightarrow> 'u world \<Rightarrow> bool" where
  "svc_inv svc w \<longleftrightarrow>
     store_ok (sv_env svc) (sv_store svc) (w_fs w) \<and>
     fs_get (w_fs w) (croot (sv_store svc) @ [''meta.json'']) = None \<and>
     (\<exists>ms. ListMetas (sv_env svc) (sv_store svc) (w_fs w) = Ok ms \<and> unique_resources ms)"

lemma svc_inv_same_fs: "svc_inv svc w \<Longrightarrow> w_fs w' = w_fs w \<Longrightarrow> svc_inv svc w'"
  by (simp add: svc_inv_def)

lemma svc_inv_outside:
  assumes "svc_inv svc w" "outside_config (sv_store svc) (w_fs w) (w_fs w')" "fs_wf (w_fs w')"
  shows "svc_inv svc w'"
proof -
  have ok: "store_ok (sv_env svc) (sv_store svc) (w_fs w)" using assms(1) by (simp add: svc_inv_def)
  then have ok': "store_ok (sv_env svc) (sv_store svc) (w_fs w')" using assms(3) by (simp add: store_ok_def)
  obtain ms where ms: "ListMetas (sv_env svc) (sv_store svc) (w_fs w) = Ok ms" "unique_resources ms"
    using assms(1) by (auto simp: svc_inv_def)
  obtain ms' where "ListMetas (sv_env svc) (sv_store svc) (w_fs w') = Ok ms'" "mset ms' = mset ms"
    using ListMetas_outside [OF assms(2) ok assms(3) ms(1)] by blast
  moreover have "unique_resources ms'" using ms(2) calculation(2) unique_resources_mset by metis
  moreover have "fs_get (w_fs w') (croot (sv_store svc) @ [''meta.json'']) = None"
    using assms(1,2) by (simp add: svc_inv_def outside_config_def)
  ultimately show ?thesis using ok' by (auto simp: svc_inv_def)
qed

text \<open>Under the invariant only identifiers that name a directory of their own exist.\<close>

lemma check_exists_ident:
  assumes "check_exists svc vid w = Ok ()" "svc_inv svc w"
  shows "ident vid"
proof -
  have ex: "Exists (sv_env svc) (sv_store svc) vid (w_fs w) = Ok True"
    using assms(1) by (auto simp: check_exists_def split: if_splits sum.splits bool.splits)
  then have v: "validateID vid = None" by (auto simp: Exists_def split: option.splits)
  have "vid \<noteq> ''.''"
  proof
    assume dot: "vid = ''.''"
    have wf: "fs_wf (w_fs w)" using assms(2) by (simp add: svc_inv_def store_ok_def)
    have "\<exists>n. os_Stat (sv_env svc) (pa_MetaPath (PathsFor (sv_store svc) vid)) (w_fs w) = Ok n"
      using ex v by (auto simp: Exists_def split: sum.splits oserr.splits)
    then have "fs_get (w_fs w) (resolve (pa_MetaPath (PathsFor (sv_store svc) vid))) \<noteq> None"
      using os_Stat_Ok [OF wf] by auto
    moreover have "resolve (pa_MetaPath (PathsFor (sv_store svc) vid)) = croot (sv_store svc) @ [''meta.json'']"
      using dot by (simp add: PathsFor_def Let_def resolve_path_Join resolve_path_Join_dot croot_def)
    ultimately show False using assms(2) by (simp add: svc_inv_def)
  qed
  with v show ?thesis by (simp add: ident_def)
qed

lemma svc_inv_store: "svc_inv svc w \<Longrightarrow> fs_wf (w_fs w)" "svc_inv svc w \<Longrightarrow> roots_ok (sv_store svc)"
  by (simp_all add: svc_inv_def store_ok_def)

text \<open>An operation under a lock keeps the invariant when its body does.\<close>

lemma with_lock_inv:
  assumes "with_lock svc vid body w = (w', r)" "svc_inv svc w" "ident vid"
    and body: "\<And>w1 w2 r. svc_inv svc w1 \<Longrightarrow> body w1 = (w2, r) \<Longrightarrow> svc_inv svc w2"
  shows "svc_inv svc w'"
proof -
  obtain w1 lr where l: "lockVM svc vid w = (w1, lr)" by fastforce
  note e = lockVM_fs [OF l svc_inv_store [OF assms(2)] identD(1) [OF assms(3)]]
  have inv1: "svc_inv svc w1" by (rule svc_inv_outside [OF assms(2) e(2,1)])
  show ?thesis
  proof (cases lr)
    case (Inl err)
    then show ?thesis using assms(1) l inv1 by (simp add: with_lock_def)
  next
    case (Inr p)
    obtain w2 r2 where b: "body w1 = (w2, r2)" by fastforce
    then have "w' = unlockVM svc p w2" using assms(1) l Inr by (simp add: with_lock_def)
    then show ?thesis using body [OF inv1 b] by (simp add: svc_inv_def unlockVM_def)
  qed
qed

lemma start_locked_fs: "start_locked svc vid w = (w', r) \<Longrightarrow> w_fs w' = w_fs w"
  by (auto simp: start_locked_def split: prod.splits sum.splits)

lemma stop_locked_fs: "stop_locked svc vid w = (w', r) \<Longrightarrow> w_fs w' = w_fs w"
  by (auto simp: stop_locked_def split: prod.splits sum.splits)

lemma StartVM_inv: "StartVM svc vid w = (w', r) \<Longrightarrow> svc_inv svc w \<Longrightarrow> svc_inv svc w'"
  using with_lock_inv [of svc vid "start_locked svc vid" w w' r] check_exists_ident [of svc vid w]
  by (auto simp: StartVM_def split: sum.splits dest: start_locked_fs intro: svc_inv_same_fs)

lemma StopVM_inv: "StopVM svc vid w = (w', r) \<Longrightarrow> svc_inv svc w \<Longrightarrow> svc_inv svc w'"
  using with_lock_inv [of svc vid "stop_locked svc vid" w w' r] check_exists_ident [of svc vid w]
  by (auto simp: StopVM_def split: sum.splits dest: stop_locked_fs intro: svc_inv_same_fs)

lemma delete_locked_fs:
  assumes "delete_locked svc vid k w = (w', r)"
  shows "w_fs w' = w_fs w \<or> (\<exists>r'. Store.DeleteVM (sv_env svc) (sv_store svc) vid k (w_fs w) = (w_fs w', r'))"
  using assms by (auto simp: delete_locked_def Let_def split: sum.splits prod.splits)

lemma delete_locked_inv:
  assumes "delete_locked svc vid k w = (w', r)" "svc_inv svc w" "ident vid"
  shows "svc_inv svc w'"
proof (cases "w_fs w' = w_fs w")
  case True
  then show ?thesis using assms(2) by (rule svc_inv_same_fs [rotated])
next
  case False
  let ?st = "sv_store svc" and ?env = "sv_env svc"
  obtain r' where del: "Store.DeleteVM ?env ?st vid k (w_fs w) = (w_fs w', r')"
    using delete_locked_fs [OF assms(1)] False by blast
  have ok: "store_ok ?env ?st (w_fs w)" using assms(2) by (simp add: svc_inv_def)
  obtain ms where ms: "ListMetas ?env ?st (w_fs w) = Ok ms" "unique_resources ms"
    using assms(2) by (auto simp: svc_inv_def)
  obtain ms' R where "ListMetas ?env ?st (w_fs w') = Ok ms'" "mset ms = mset ms' + R"
    using ListMetas_DeleteVM_any [OF del ok assms(3) ms(1)] by blast
  moreover have "unique_resources ms'" using unique_resources_sub [OF ms(2) calculation(2)] .
  moreover have "shrinks (vm_area ?st vid k) (w_fs w) (w_fs w')"
    using DeleteVM_effect [OF del svc_inv_store(1) [OF assms(2)] identD(1) [OF assms(3)]] by blast
  then have "fs_get (w_fs w') (croot ?st @ [''meta.json'']) = None"
    by (rule shrinks_None) (use assms(2) in \<open>simp add: svc_inv_def\<close>)
  ultimately show ?thesis using fs_prov.delete_inv [OF del ok assms(3)] by (auto simp: svc_inv_def)
qed

lemma DeleteVM_inv:
  assumes "DeleteVM svc vid k w = (w', r)" "svc_inv svc w"
  shows "svc_inv svc w'"
proof (cases "check_exists svc vid w")
  case (Inl e)
  then show ?thesis using assms by (simp add: DeleteVM_def)
next
  case (Inr u)
  then have id: "ident vid" using check_exists_ident assms(2) by simp
  have "with_lock svc vid (delete_locked svc vid k) w = (w', r)" using assms(1) Inr by (simp add: DeleteVM_def)
  then show ?thesis using with_lock_inv [OF _ assms(2) id] delete_locked_inv [OF _ _ id] by blast
qed

text \<open>Requests as they come from a JSON body, and allocators with ports of 64 bits.\<close>

definition req_wf :: "create_vm_request \<Rightarrow> bool" where
  "req_wf req \<longleftrightarrow>
     map_canon (req_Metadata req) \<and> map_canon (req_Tags req) \<and> map_canon (req_Hooks req) \<and>
     list_all (list_all hook_wf) (map snd (req_Hooks req))"

definition alloc_wf :: "allocator \<Rightarrow> bool" where
  "alloc_wf a \<longleftrightarrow> int64 (al_portStart a) \<and> int64 (al_portEnd a)"

lemma validateCreate_HTTPPort: "validateCreate req = None \<Longrightarrow> int64 (req_HTTPPort req)"
  by (auto simp: validateCreate_def int64_def split: if_splits option.splits)

lemma Allocate_ports_wf:
  assumes "Allocate a ms reqs = Ok (ip, bs)" "alloc_wf a"
  shows "list_all port_binding_wf bs"
proof -
  obtain bs' where m: "mset bs = mset bs'" and s: "list_all2 (serves a) reqs bs'"
    using allocatePorts_hosts [OF AllocateD(2) [OF assms(1)]] by blast
  have "port_binding_wf b" if "b \<in> set bs" for b
  proof -
    have "b \<in> set bs'" using m that by (metis set_mset_mset)
    then obtain q where "serves a q b" using s by (metis in_set_conv_nth list_all2_conv_all_nth)
    then show ?thesis using assms(2)
      by (auto simp: serves_def port_binding_wf_def alloc_wf_def int64_def split: if_splits)
  qed
  then show ?thesis by (simp add: list_all_iff)
qed

lemma CreateVM_cases:
  assumes "CreateVM svc now random req w = (w', r)"
  obtains (refused) e where "w' = w" "r = Err e"
      "(\<exists>i. e = ErrInvalidRequest i) \<or> (\<exists>s. e = StoreError s) \<or> e = RandError"
  | (saving) metas guestIP ports vmID fs' sr where
      "check_create (sv_env svc) req (w_fs w) = None"
      "ListMetas (sv_env svc) (sv_store svc) (w_fs w) = Ok metas"
      "Allocate (sv_alloc svc) metas (req_Ports req) = Ok (guestIP, ports)" "newUUIDv4 random = Ok vmID"
      "SaveVM (sv_env svc) (sv_store svc) vmID (RenderVMConfig req (new_metadata req vmID now guestIP ports zero_paths))
         (new_metadata req vmID now guestIP ports (PathsFor (sv_store svc) vmID)) (hooksFromMap (req_Hooks req))
         (baseEnv (new_metadata req vmID now guestIP ports (PathsFor (sv_store svc) vmID)) (PathsFor (sv_store svc) vmID) (req_ExtraEnv req))
         (w_fs w) = (fs', sr)"
      "(w_fs w' = fs' \<and> (r = Ok vmID \<or> (\<exists>e. r = Err (StoreError e)))) \<or>
       (\<exists>w1 r1. w_fs w1 = fs' \<and> StartVM svc vmID w1 = (w', r1) \<and>
          (r1 = Ok () \<and> r = Ok vmID \<or> (\<exists>e. r1 = Err e \<and> r = Err e)))"
      "\<And>e. sr = Err e \<Longrightarrow> r = Err (StoreError e)" "\<And>v. r = Ok v \<Longrightarrow> v = vmID"
proof (cases "check_create (sv_env svc) req (w_fs w)")
  case (Some e)
  then show thesis using assms by (auto simp: CreateVM_def intro: refused)
next
  case cc: None
  show thesis
  proof (cases "ListMetas (sv_env svc) (sv_store svc) (w_fs w)")
    case (Inl e)
    then show thesis using assms cc by (auto simp: CreateVM_def intro: refused)
  next
    case lm: (Inr metas)
    show thesis
    proof (cases "Allocate (sv_alloc svc) metas (req_Ports req)")
      case (Inl e)
      then show thesis using assms cc lm by (auto simp: CreateVM_def intro: refused)
    next
      case (Inr a)
      then obtain guestIP ports where al: "Allocate (sv_alloc svc) metas (req_Ports req) = Ok (guestIP, ports)"
        by (cases a) auto
      show thesis
      proof (cases "newUUIDv4 random")
        case (Inl e)
        then show thesis using refused [of e] assms cc lm al by (auto simp: CreateVM_def newUUIDv4_def Let_def split: option.splits)
      next
        case (Inr vmID)
        note d = assms [unfolded CreateVM_def cc lm al Inr option.case sum.case prod.case Let_def]
        show thesis
          using d
          by (intro saving [OF cc lm al Inr prod.collapse [symmetric]])
            (auto split: prod.splits sum.splits if_splits)
      qed
    qed
  qed
qed

text \<open>Sixteen random bytes whose identifier no stored VM has, or a failure of the random source.\<close>

definition fresh_random :: "'u service \<Rightarrow> 8 word list option \<Rightarrow> 'u world \<Rightarrow> bool" where
  "fresh_random svc random w \<longleftrightarrow>
     (case random of
        None \<Rightarrow> True
      | Some raw \<Rightarrow>
          length raw = 16 \<and>
          (case newUUIDv4 random of
             Err _ \<Rightarrow> True
           | Ok v \<Rightarrow> ReadMeta (sv_env svc) (sv_store svc) v (w_fs w) = Err ErrNotFound))"

lemma new_metadata_wf:
  assumes "req_wf req" "alloc_wf (sv_alloc svc)" "check_create env req fs = None"
    and "Allocate (sv_alloc svc) metas (req_Ports req) = Ok (ip, ports)"
  shows "meta_wf (new_metadata req v now ip ports paths)"
proof -
  have "int64 (req_HTTPPort req)"
    using assms(3) validateCreate_HTTPPort by (auto simp: check_create_def split: option.splits)
  then show ?thesis
    using assms(1) Allocate_ports_wf [OF assms(4,2)] by (simp add: meta_wf_def new_metadata_def req_wf_def)
qed

lemma CreateVM_inv:
  assumes run: "CreateVM svc now random req w = (w', r)" and inv: "svc_inv svc w"
    and wf: "req_wf req" "alloc_wf (sv_alloc svc)" and fresh: "fresh_random svc random w"
  shows "svc_inv svc w'"
  using run
proof (cases rule: CreateVM_cases)
  case refused
  then show ?thesis using inv by simp
next
  case (saving metas ip ports v fs' sr)
  let ?st = "sv_store svc" and ?env = "sv_env svc"
  let ?m = "new_metadata req v now ip ports (PathsFor ?st v)"
  have ok: "store_ok ?env ?st (w_fs w)" using inv by (simp add: svc_inv_def)
  obtain raw where raw: "random = Some raw" "length raw = 16" "ReadMeta ?env ?st v (w_fs w) = Err ErrNotFound"
    using fresh saving(4) by (auto simp: fresh_random_def newUUIDv4_def split: option.splits)
  note vid = newUUIDv4_chars [OF saving(4) [unfolded raw(1)] raw(2)]
  have u: "unique_resources metas" using inv saving(2) by (auto simp: svc_inv_def)
  have al: "Allocate (sv_alloc svc) metas (req_Ports req) = Ok (meta_GuestIP ?m, meta_Ports ?m)"
    using saving(3) by (simp add: new_metadata_def)
  note mw = new_metadata_wf [OF wf saving(1,3)]
  have "\<exists>ms'. ListMetas ?env ?st fs' = Ok ms' \<and> unique_resources ms'"
    by (rule fs_prov.provision_unique [OF ok vid(3) saving(2) u raw(3) al mw saving(5)])
  moreover have "store_ok ?env ?st fs'" by (rule fs_prov.save_inv [OF saving(5) ok vid(3)])
  moreover have "fs_get fs' (croot ?st @ [''meta.json'']) = None"
  proof -
    have "vm_frame ?st v (w_fs w) fs'"
      using SaveVM_effect [OF saving(5) svc_inv_store [OF inv] identD(1) [OF vid(3)]] by blast
    from vm_frame_other [OF this svc_inv_store(2) [OF inv] vid(4), of "[]"]
    show ?thesis using inv by (simp add: svc_inv_def)
  qed
  ultimately have inv': "svc_inv svc w1" if "w_fs w1 = fs'" for w1
    using that by (simp add: svc_inv_def)
  show ?thesis using saving(6) inv' StartVM_inv by blast
qed

section \<open>Sequences of operations\<close>

text \<open>
  The service handles one request after the other, starting on a host whose configuration root has
  no VM yet.
\<close>

inductive svc_step :: "'u service \<Rightarrow> 'u world \<Rightarrow> 'u world \<Rightarrow> bool" for svc where
  step_create: "req_wf req \<Longrightarrow> fresh_random svc random w \<Longrightarrow> svc_step svc w (fst (CreateVM svc now random req w))"
| step_start: "svc_step svc w (fst (StartVM svc vid w))"
| step_stop: "svc_step svc w (fst (StopVM svc vid w))"
| step_delete: "svc_step svc w (fst (DeleteVM svc vid retainData w))"
| step_get: "svc_step svc w (fst (GetVM svc vid w))"
| step_list: "svc_step svc w (fst (ListVMs svc w))"

inductive svc_reachable :: "'u service \<Rightarrow> 'u world \<Rightarrow> bool" for svc where
  svc_init:
    "store_ok (sv_env svc) (sv_store svc) fs \<Longrightarrow> ListMetas (sv_env svc) (sv_store svc) fs = Ok [] \<Longrightarrow>
     fs_get fs (croot (sv_store svc) @ [''meta.json'']) = None \<Longrightarrow>
     svc_reachable svc \<lparr>w_fs = fs, w_units = u, w_held = held, w_hooks = []\<rparr>"
| svc_next: "svc_reachable svc w \<Longrightarrow> svc_step svc w w' \<Longrightarrow> svc_reachable svc w'"

lemma GetVM_fs: "GetVM svc vid w = (w', r) \<Longrightarrow> w_fs w' = w_fs w"
  by (auto simp: GetVM_def split: if_splits sum.splits prod.splits)

lemma get_each_fs: "get_each svc ids w = (w', r) \<Longrightarrow> w_fs w' = w_fs w"
proof (induction ids arbitrary: w r)
  case (Cons vid ids)
  obtain w1 r1 where g: "GetVM svc vid w = (w1, r1)" by fastforce
  obtain w2 r2 where e: "get_each svc ids w1 = (w2, r2)" by fastforce
  have "w' = w1 \<or> w' = w2" using Cons.prems g e by (auto split: sum.splits if_splits)
  then show ?case using GetVM_fs [OF g] Cons.IH [of w1 r2] e by auto
qed simp

lemma ListVMs_fs: "ListVMs svc w = (w', r) \<Longrightarrow> w_fs w' = w_fs w"
  by (auto simp: ListVMs_def split: sum.splits prod.splits dest: get_each_fs)

lemma svc_step_inv:
  assumes "svc_step svc w w'" "svc_inv svc w" "alloc_wf (sv_alloc svc)"
  shows "svc_inv svc w'"
  using assms(1)
proof (cases rule: svc_step.cases)
  case (step_create req random now)
  then show ?thesis using CreateVM_inv [OF prod.collapse [symmetric] assms(2) _ assms(3)] by blast
next
  case (step_start vid)
  then show ?thesis using StartVM_inv [OF prod.collapse [symmetric] assms(2)] by blast
next
  case (step_stop vid)
  then show ?thesis using StopVM_inv [OF prod.collapse [symmetric] assms(2)] by blast
next
  case (step_delete vid k)
  then show ?thesis using DeleteVM_inv [OF prod.collapse [symmetric] assms(2)] by blast
next
  case (step_get vid)
  then show ?thesis using svc_inv_same_fs [OF assms(2)] GetVM_fs [OF prod.collapse [symmetric]] by blast
next
  case step_list
  then show ?thesis using svc_inv_same_fs [OF assms(2)] ListVMs_fs [OF prod.collapse [symmetric]] by blast
qed

lemma svc_reachable_inv: "svc_reachable svc w \<Longrightarrow> alloc_wf (sv_alloc svc) \<Longrightarrow> svc_inv svc w"
proof (induction rule: svc_reachable.induct)
  case (svc_init fs u held)
  then show ?case by (simp add: svc_inv_def unique_resources_def used_ips_def used_ports_def)
next
  case (svc_next w w')
  then show ?case using svc_step_inv by blast
qed

end
