(* ===== verification/Manager_Spec.thy ===== *)
theory Manager_Spec
  imports Manager
begin

text \<open>
  The properties of the service of \<open>src/internal/manager/service.go\<close>: what every sequence of
  requests keeps, the behaviour of each operation, what a held lock prevents, and the interleavings
  that the per-VM lock does not cover.
\<close>

section \<open>Sample data\<close>

definition sample_service :: "(string list) service" where
  "sample_service =
     \<lparr>sv_env = quiet_env, sv_store = sample_store, sv_ctl = simple_systemctl, sv_client = sample_client,
      sv_hooks = True, sv_alloc = sample_allocator\<rparr>"

text \<open>A host with a root file system image and a kernel, and no VM.\<close>

definition host_fs :: fs where
  "host_fs = [([''rootfs''], NFile (Raw ''r'')), ([''kernel''], NFile (Raw ''k''))]"

definition sample_world :: "(string list) world" where
  "sample_world = \<lparr>w_fs = host_fs, w_units = [], w_held = [], w_hooks = []\<rparr>"

definition sample_request :: create_vm_request where
  "sample_request =
     \<lparr>req_RootFS = ''/rootfs'', req_Kernel = ''/kernel'', req_DataDisk = [], req_VCPU = 1, req_MemMiB = 128,
      req_Ports = [\<lparr>pbr_Guest = 80, pbr_Host = 0, pbr_Protocol = []\<rparr>], req_HTTPPort = 80, req_Metadata = [],
      req_AutoStart = False, req_BootArgs = [], req_ExtraEnv = [], req_Tags = [], req_Hooks = []\<rparr>"

definition sample_bytes :: "8 word list" where
  "sample_bytes = replicate 16 7"

definition sample_vm_id :: string where
  "sample_vm_id = ''07070707-0707-4707-8707-070707070707''"

lemma sample_uuid: "newUUIDv4 (Some sample_bytes) = Ok sample_vm_id"
  by code_simp

lemma sample_alloc_wf: "alloc_wf (sv_alloc sample_service)"
  by code_simp

lemma sample_req_wf: "req_wf sample_request"
  by code_simp

lemma sample_world_ok: "store_ok (sv_env sample_service) (sv_store sample_service) (w_fs sample_world)"
proof -
  have "fs_wf host_fs" by code_simp
  then show ?thesis
    using quiet_reads_ok [OF quiet_quiet_env] sample_roots
    by (simp add: store_ok_def sample_service_def sample_world_def)
qed

lemma sample_world_list: "ListMetas (sv_env sample_service) (sv_store sample_service) (w_fs sample_world) = Ok []"
  by code_simp

lemma sample_reachable: "svc_reachable sample_service sample_world"
proof -
  have "fs_get host_fs (croot (sv_store sample_service) @ [''meta.json'']) = None" by code_simp
  then show ?thesis
    using svc_init [of sample_service host_fs "[]" "[]"] sample_world_ok sample_world_list by (simp add: sample_world_def)
qed

lemma sample_fresh: "fresh_random sample_service (Some sample_bytes) sample_world"
proof -
  have "ReadMeta (sv_env sample_service) (sv_store sample_service) sample_vm_id (w_fs sample_world) = Err ErrNotFound"
    by code_simp
  then show ?thesis by (simp add: fresh_random_def sample_uuid sample_bytes_def [THEN arg_cong [where f = length]])
qed

section \<open>Creating a VM\<close>

lemma unblocked_code: "unblocked fs p \<longleftrightarrow> list_all (\<lambda>q. fs_get fs q = None \<or> fs_get fs q = Some NDir) (prefixes p)"
  by (auto simp: unblocked_def list_all_iff in_set_prefixes)

text \<open>The place of a VM in the file system is free.\<close>

definition vm_free :: "fs_store \<Rightarrow> string \<Rightarrow> fs \<Rightarrow> bool" where
  "vm_free st vid fs \<longleftrightarrow>
     unblocked fs (croot st @ [vid]) \<and> unblocked fs (rroot st @ [vid]) \<and> unblocked fs (droot st @ [vid, ''logs'']) \<and>
     (\<forall>x \<in> {''vm.json'', ''meta.json'', ''hooks.json'', ''env''}. fs_get fs (vfile st vid x) \<noteq> Some NDir)"

lemma CreateVM_saves:
  assumes "check_create (sv_env svc) req (w_fs w) = None"
    and "ListMetas (sv_env svc) (sv_store svc) (w_fs w) = Ok metas"
    and "Allocate (sv_alloc svc) metas (req_Ports req) = Ok (ip, ports)" "newUUIDv4 random = Ok v"
    and "quiet (sv_env svc)" "fs_wf (w_fs w)" "roots_ok (sv_store svc)" "ident v" "vm_free (sv_store svc) v (w_fs w)"
    and "\<not> req_AutoStart req"
  shows "\<exists>w'. CreateVM svc now random req w = (w', Ok v) \<and> w_units w' = w_units w \<and> w_held w' = w_held w \<and>
     vm_frame (sv_store svc) v (w_fs w) (w_fs w') \<and> fs_get (w_fs w') (vfile (sv_store svc) v ''meta.json'') \<noteq> None"
proof -
  let ?m = "new_metadata req v now ip ports (PathsFor (sv_store svc) v)"
  obtain fs' where s: "SaveVM (sv_env svc) (sv_store svc) v (RenderVMConfig req (new_metadata req v now ip ports zero_paths)) ?m
      (hooksFromMap (req_Hooks req)) (baseEnv ?m (PathsFor (sv_store svc) v) (req_ExtraEnv req)) (w_fs w) =
      (fs', Ok (PathsFor (sv_store svc) v))"
    using SaveVM_Ok [OF assms(5-8)] assms(9) unfolding vm_free_def by blast
  then show ?thesis using SaveVM_effect [OF s assms(6,7) identD(1) [OF assms(8)]] assms(1-4,10)
    by (simp add: CreateVM_def Let_def)
qed

lemma sample_created:
  "\<exists>w'. CreateVM sample_service 5 (Some sample_bytes) sample_request sample_world = (w', Ok sample_vm_id) \<and>
     w_units w' = w_units sample_world \<and> w_held w' = w_held sample_world \<and>
     vm_frame (sv_store sample_service) sample_vm_id (w_fs sample_world) (w_fs w') \<and>
     fs_get (w_fs w') (vfile (sv_store sample_service) sample_vm_id ''meta.json'') \<noteq> None"
proof (rule CreateVM_saves)
  show "check_create (sv_env sample_service) sample_request (w_fs sample_world) = None" by code_simp
  show "ListMetas (sv_env sample_service) (sv_store sample_service) (w_fs sample_world) = Ok []" by (rule sample_world_list)
  show "Allocate (sv_alloc sample_service) [] (req_Ports sample_request) =
      Ok (''172.30.0.2'', [\<lparr>pb_Guest = 80, pb_Host = 20000, pb_Protocol = ''tcp''\<rparr>])" by code_simp
  show "ident sample_vm_id" by code_simp
  show "vm_free (sv_store sample_service) sample_vm_id (w_fs sample_world)"
    unfolding vm_free_def unblocked_code by code_simp
qed (use sample_uuid sample_world_ok quiet_quiet_env in \<open>simp_all add: store_ok_def sample_service_def sample_request_def\<close>)

text \<open>Changes outside of the configuration root leave what is read of a VM.\<close>

lemma ReadMeta_outside:
  assumes "outside_config st fs fs'" "fs_wf fs" "fs_wf fs'" "reads_ok env" "file_name vid" "ReadMeta env st vid fs = Ok m"
  shows "ReadMeta env st vid fs' = Ok m"
proof -
  have same: "fs_get fs' (croot st @ z # zs) = fs_get fs (croot st @ z # zs)" for z zs
    using assms(1) by (simp add: outside_config_def)
  have "\<exists>b. os_ReadFile env (pa_MetaPath (PathsFor st vid)) fs = Ok b"
    using assms(6) by (auto simp: ReadMeta_def readJSON_def split: option.splits sum.splits)
  then have "fs_get fs (vfile st vid ''meta.json'') \<noteq> None"
    using os_ReadFile_Ok [OF assms(2)] vfile_paths(1) [OF assms(5)] by auto
  then have "fs_get fs (croot st @ [vid]) = Some NDir"
    using fs_wf_above [OF assms(2), of "croot st @ [vid]" "[''meta.json'']"] by (auto simp: vfile_def)
  then show ?thesis
    using ReadMeta_cong [OF assms(2,3,4,5)] same [of vid "[]"] same [of vid "[''meta.json'']"] assms(6) by (simp add: vfile_def)
qed

lemma with_lock_fs:
  assumes "with_lock svc vid body w = (w', r)" "fs_wf (w_fs w)" "roots_ok (sv_store svc)" "file_name vid"
    and "\<And>w1 w2 r. body w1 = (w2, r) \<Longrightarrow> w_fs w2 = w_fs w1"
  shows "fs_wf (w_fs w')" "outside_config (sv_store svc) (w_fs w) (w_fs w')"
proof -
  obtain w1 lr where l: "lockVM svc vid w = (w1, lr)" by fastforce
  note e = lockVM_fs [OF l assms(2-4)]
  obtain w2 r2 where b: "body w1 = (w2, r2)" by fastforce
  have "w_fs w' = w_fs w1"
    using assms(1) l b assms(5) [OF b] by (auto simp: with_lock_def unlockVM_def split: sum.splits)
  then show "fs_wf (w_fs w')" "outside_config (sv_store svc) (w_fs w) (w_fs w')" using e by auto
qed

lemma StartVM_fs:
  assumes "StartVM svc vid w = (w', r)" "fs_wf (w_fs w)" "roots_ok (sv_store svc)" "file_name vid"
  shows "fs_wf (w_fs w')" "outside_config (sv_store svc) (w_fs w) (w_fs w')"
proof -
  have "w' = w \<or> with_lock svc vid (start_locked svc vid) w = (w', r)"
    using assms(1) by (auto simp: StartVM_def split: sum.splits)
  then show "fs_wf (w_fs w')" "outside_config (sv_store svc) (w_fs w) (w_fs w')"
    using with_lock_fs [OF _ assms(2-4) start_locked_fs] assms(2) by auto
qed

section \<open>Properties of sequences of requests\<close>

text \<open>
  Whatever requests the service has handled one after the other, and whatever system calls failed
  on the way, the store can be listed and no two stored VMs share a guest address or a host port.
\<close>

theorem service_resources_unique:
  assumes "svc_reachable svc w" "alloc_wf (sv_alloc svc)"
  shows "store_ok (sv_env svc) (sv_store svc) (w_fs w) \<and>
     (\<exists>metas. ListMetas (sv_env svc) (sv_store svc) (w_fs w) = Ok metas \<and>
        distinct (filter (\<lambda>ip. ip \<noteq> []) (map meta_GuestIP metas)) \<and>
        distinct (concat (map (\<lambda>m. map pb_Host (meta_Ports m)) metas)))"
  using svc_reachable_inv [OF assms]
  by (auto simp: svc_inv_def unique_resources_def used_ips_def used_ports_def)

theorem service_resources_unique_witness:
  "\<exists>w metas. CreateVM sample_service 5 (Some sample_bytes) sample_request sample_world = (w, Ok sample_vm_id) \<and>
     ListMetas (sv_env sample_service) (sv_store sample_service) (w_fs w) = Ok metas \<and>
     distinct (concat (map (\<lambda>m. map pb_Host (meta_Ports m)) metas))"
proof -
  obtain w where w: "CreateVM sample_service 5 (Some sample_bytes) sample_request sample_world = (w, Ok sample_vm_id)"
    using sample_created by blast
  have "svc_reachable sample_service w"
    using svc_next [OF sample_reachable step_create [OF sample_req_wf sample_fresh, of 5]] w by simp
  from service_resources_unique [OF this sample_alloc_wf] w show ?thesis by blast
qed

section \<open>Properties of CreateVM\<close>

lemma validateCreate_port: "validateCreate req = None \<Longrightarrow> req_HTTPPort req \<le> 65535"
  by (auto simp: validateCreate_def split: if_splits option.splits)

text \<open>What is known of a VM that was created.\<close>

lemma CreateVM_created:
  assumes run: "CreateVM svc now random req w = (w', Ok vmID)" and inv: "svc_inv svc w"
    and wf: "req_wf req" "alloc_wf (sv_alloc svc)" and fresh: "fresh_random svc random w"
  shows "\<exists>metas ip ports.
     ListMetas (sv_env svc) (sv_store svc) (w_fs w) = Ok metas \<and>
     ip \<notin> set (map meta_GuestIP metas) \<and> set (map pb_Host ports) \<inter> set (used_ports metas) = {} \<and>
     ReadMeta (sv_env svc) (sv_store svc) vmID (w_fs w) = Err ErrNotFound \<and>
     ReadMeta (sv_env svc) (sv_store svc) vmID (w_fs w') =
       Ok (new_metadata req vmID now ip ports (PathsFor (sv_store svc) vmID)) \<and>
     list_all uuid_char vmID \<and> ident vmID \<and> req_HTTPPort req \<le> 65535"
  using run
proof (cases rule: CreateVM_cases)
  case (saving metas ip ports v fs' sr)
  let ?st = "sv_store svc" and ?env = "sv_env svc"
  let ?m = "new_metadata req v now ip ports (PathsFor ?st v)"
  have ok: "store_ok ?env ?st (w_fs w)" using inv by (simp add: svc_inv_def)
  then have s: "fs_wf (w_fs w)" "reads_ok ?env" "roots_ok ?st" by (auto simp: store_ok_def)
  obtain raw where raw: "random = Some raw" "length raw = 16" "ReadMeta ?env ?st v (w_fs w) = Err ErrNotFound"
    using fresh saving(4) by (auto simp: fresh_random_def newUUIDv4_def split: option.splits)
  note vid = newUUIDv4_chars [OF saving(4) [unfolded raw(1)] raw(2)]
  note mw = new_metadata_wf [OF wf saving(1,3)]
  have v: "vmID = v" using saving(8) by blast
  obtain p where "sr = Ok p" using saving(7) by (cases sr) auto
  then have "ReadMeta ?env ?st v fs' = Ok (?m\<lparr>meta_Paths := PathsFor ?st v\<rparr>)"
    using fs_prov.save_reads [OF saving(5) [unfolded \<open>sr = Ok p\<close>] ok vid(3) mw] by blast
  then have rd: "ReadMeta ?env ?st v fs' = Ok ?m" by (simp add: new_metadata_def)
  have wf': "fs_wf fs'" using fs_prov.save_inv [OF saving(5) ok vid(3)] by (simp add: store_ok_def)
  have "ReadMeta ?env ?st v (w_fs w') = Ok ?m"
  proof (cases "w_fs w' = fs'")
    case True
    then show ?thesis using rd by simp
  next
    case False
    then obtain w1 r1 where w1: "w_fs w1 = fs'" "StartVM svc v w1 = (w', r1)" using saving(6) by blast
    note e = StartVM_fs [OF w1(2) _ s(3) identD(1) [OF vid(3)], unfolded w1(1), OF wf']
    show ?thesis by (rule ReadMeta_outside [OF e(2) wf' e(1) s(2) identD(1) [OF vid(3)] rd])
  qed
  moreover have "ip \<notin> set (map meta_GuestIP metas)"
    by (rule allocateGuestIP_OkD [OF AllocateD(1) [OF saving(3)]]) (auto simp: used_ips_def)
  moreover have "req_HTTPPort req \<le> 65535"
    using saving(1) validateCreate_port by (auto simp: check_create_def split: option.splits)
  ultimately show ?thesis using saving(2) net_alloc.ports_fresh [OF saving(3)] raw(3) v vid by blast
qed simp



lemma StartVM_not_invalid: "TrimSpace v \<noteq> [] \<Longrightarrow> snd (StartVM svc v w) \<noteq> Err (ErrInvalidRequest e)"
  by (auto simp: StartVM_def check_exists_def with_lock_def lockVM_def map_err_def start_locked_def dep_err_def
      split: sum.splits prod.splits bool.splits if_splits sd_err.splits)

lemma newUUIDv4_not_blank: "newUUIDv4 random = Ok v \<Longrightarrow> TrimSpace v \<noteq> []"
proof -
  assume "newUUIDv4 random = Ok v"
  then have "CHR ''-'' \<in> set v" by (auto simp: newUUIDv4_def Let_def split: option.splits)
  moreover have "\<not> is_space CHR ''-''" by (simp add: is_space_def)
  ultimately show ?thesis unfolding TrimSpace_eq_Nil_iff by blast
qed

lemma CreateVM_invalid_same:
  assumes "CreateVM svc now random req w = (w', Err (ErrInvalidRequest e))"
  shows "w' = w"
  using assms
proof (cases rule: CreateVM_cases)
  case (saving metas ip ports v fs' sr)
  then obtain w1 where "StartVM svc v w1 = (w', Err (ErrInvalidRequest e))" by auto
  then show ?thesis using StartVM_not_invalid [OF newUUIDv4_not_blank [OF saving(4)], of svc w1 e] by simp
qed simp

lemma validateCreate_refuses:
  assumes "TrimSpace (req_RootFS req) = [] \<or> TrimSpace (req_Kernel req) = [] \<or> req_VCPU req \<le> 0 \<or> req_MemMiB req < 128 \<or>
     (\<exists>p \<in> set (req_Ports req). pbr_Guest p \<le> 0 \<or> pbr_Guest p > 65535 \<or> pbr_Host p < 0 \<or> pbr_Host p > 65535) \<or>
     req_HTTPPort req < 0 \<or> req_HTTPPort req > 65535"
  shows "\<exists>e. validateCreate req = Some e"
proof (rule ccontr)
  assume "\<not> ?thesis"
  then have "validateCreate req = None" by simp
  then show False using assms
    by (auto simp: validateCreate_def find_None_iff split: if_splits option.splits)
qed

text \<open>
  C18: a request that is refused leaves no trace: when \<open>CreateVM\<close> answers that the request is invalid,
  the files, the units, the locks and the scheduled hooks are what they were; and a request without
  root file system or kernel, with no CPU or less than 128 MiB, or with a port out of range is
  always refused so.
\<close>

theorem CreateVM_refusal_clean:
  "(CreateVM svc now random req w = (w', Err (ErrInvalidRequest e)) \<longrightarrow> w' = w) \<and>
   (TrimSpace (req_RootFS req) = [] \<or> TrimSpace (req_Kernel req) = [] \<or> req_VCPU req \<le> 0 \<or> req_MemMiB req < 128 \<or>
    (\<exists>p \<in> set (req_Ports req). pbr_Guest p \<le> 0 \<or> pbr_Guest p > 65535 \<or> pbr_Host p < 0 \<or> pbr_Host p > 65535) \<or>
    req_HTTPPort req < 0 \<or> req_HTTPPort req > 65535 \<longrightarrow>
      (\<exists>e. CreateVM svc now random req w = (w, Err (ErrInvalidRequest e))))"
proof (rule conjI; rule impI)
  assume "CreateVM svc now random req w = (w', Err (ErrInvalidRequest e))"
  then show "w' = w" by (rule CreateVM_invalid_same)
next
  assume "TrimSpace (req_RootFS req) = [] \<or> TrimSpace (req_Kernel req) = [] \<or> req_VCPU req \<le> 0 \<or> req_MemMiB req < 128 \<or>
    (\<exists>p \<in> set (req_Ports req). pbr_Guest p \<le> 0 \<or> pbr_Guest p > 65535 \<or> pbr_Host p < 0 \<or> pbr_Host p > 65535) \<or>
    req_HTTPPort req < 0 \<or> req_HTTPPort req > 65535"
  from validateCreate_refuses [OF this] show "\<exists>e. CreateVM svc now random req w = (w, Err (ErrInvalidRequest e))"
    by (auto simp: CreateVM_def check_create_def)
qed

theorem CreateVM_refusal_clean_witness:
  "\<exists>e. CreateVM sample_service 5 None (sample_request\<lparr>req_MemMiB := 64\<rparr>) sample_world = (sample_world, Err (ErrInvalidRequest e))"
  using CreateVM_refusal_clean [of sample_service 5 None "sample_request\<lparr>req_MemMiB := 64\<rparr>" sample_world] by simp

section \<open>Locks\<close>

lemma path_Dir_ne [simp]: "path_Dir p \<noteq> []"
  by (simp add: path_Dir_def)

lemma Acquire_quiet:
  assumes "quiet env" "fs_wf fs" "path_Dir path \<noteq> []" "path \<noteq> []" "resolve path = d @ [x]" "resolve (path_Dir path) = d"
    and "unblocked fs d" "fs_get fs (d @ [x]) = None \<or> (\<exists>b. fs_get fs (d @ [x]) = Some (NFile b))"
  shows "\<exists>fs'. Acquire env path fs held =
    (fs', if d @ [x] \<in> set held then (held, Err ErrAlreadyLocked) else ((d @ [x]) # held, Ok (d @ [x])))"
proof -
  obtain fs1 where m: "os_MkdirAll env (path_Dir path) fs = (fs1, Ok ())"
    using os_MkdirAll_Ok [OF assms(1) _ assms(3)] assms(6,7) by auto
  note s = os_MkdirAll_spec [OF m assms(2), unfolded assms(6)]
  have nf: "os_fault env c p f = False" for c p f using assms(1) by (simp add: quiet_def)
  have e: "fs_get fs1 (d @ [x]) = fs_get fs (d @ [x])"
    using dirs_added_off [OF s(2)] by (simp add: prefix_def)
  have "parent_dir fs1 (d @ [x]) = Ok ()" using parent_dir_Ok [OF s(1)] s(3) by simp
  moreover have "lookup fs1 (d @ [x]) = (case fs_get fs1 (d @ [x]) of None \<Rightarrow> Err ENOENT | Some n \<Rightarrow> Ok n)"
    using lookup_in_dir [OF s(1)] s(3) by simp
  ultimately have "\<exists>fs2. os_OpenCreate env path fs1 = (fs2, Ok ())"
    using assms(4,8) unfolding e os_OpenCreate_def Let_def assms(5) by (auto simp: nf)
  then show ?thesis using m by (auto simp: Acquire_def nf assms(5))
qed

lemma lockVM_quiet:
  assumes "quiet (sv_env svc)" "fs_wf (w_fs w)" "file_name vid"
    and "unblocked (w_fs w) (rroot (sv_store svc))"
    and "fs_get (w_fs w) (rroot (sv_store svc) @ [vid @ ''.lock'']) = None \<or>
         (\<exists>b. fs_get (w_fs w) (rroot (sv_store svc) @ [vid @ ''.lock'']) = Some (NFile b))"
  shows "\<exists>w1. lockVM svc vid w =
    (w1, if rroot (sv_store svc) @ [vid @ ''.lock''] \<in> set (w_held w) then Err ErrConflict
         else Ok (rroot (sv_store svc) @ [vid @ ''.lock'']))"
proof -
  let ?p = "pa_LockPath (PathsFor (sv_store svc) vid)"
  have fl: "file_name (vid @ ''.lock'')" by (rule file_name_lock [OF assms(3)])
  have p: "resolve ?p = rroot (sv_store svc) @ [vid @ ''.lock'']" "resolve (path_Dir ?p) = rroot (sv_store svc)"
    "path_Dir ?p \<noteq> []" "?p \<noteq> []"
    using fl by (simp_all add: PathsFor_def Let_def resolve_path_Join resolve_path_Dir rroot_def path_Join_ne)
  from Acquire_quiet [OF assms(1,2) p(3,4,1,2) assms(4,5), of "w_held w"]
  show ?thesis by (auto simp: lockVM_def)
qed

lemma lockVM_held:
  assumes "lockVM svc vid w = (w1, r)"
  shows "r = Ok p \<Longrightarrow> p \<notin> set (w_held w) \<and> w_held w1 = p # w_held w \<and> p = resolve (pa_LockPath (PathsFor (sv_store svc) vid))"
    and "r = Err e \<Longrightarrow> w_held w1 = w_held w" and "w_units w1 = w_units w" "w_hooks w1 = w_hooks w"
proof -
  obtain fs' held' r' where a: "Acquire (sv_env svc) (pa_LockPath (PathsFor (sv_store svc) vid)) (w_fs w) (w_held w) = (fs', held', r')"
    by (metis prod_cases3)
  then have w1: "w1 = w\<lparr>w_fs := fs', w_held := held'\<rparr>"
    and r: "r = map_err (\<lambda>e. if e = ErrAlreadyLocked then ErrConflict else LockError e) r'"
    using assms by (auto simp: lockVM_def)
  note h = Acquire_held [OF a]
  show "r = Ok p \<Longrightarrow> p \<notin> set (w_held w) \<and> w_held w1 = p # w_held w \<and> p = resolve (pa_LockPath (PathsFor (sv_store svc) vid))"
    using h(1) w1 r by auto
  show "r = Err e \<Longrightarrow> w_held w1 = w_held w" using h(2) w1 r by (cases r') auto
  show "w_units w1 = w_units w" "w_hooks w1 = w_hooks w" using w1 by simp_all
qed

text \<open>An operation under a lock gives the lock back, whatever its body returns.\<close>

lemma with_lock_cases:
  assumes "with_lock svc vid body w = (w', r)" and held: "\<And>w1 w2 r. body w1 = (w2, r) \<Longrightarrow> w_held w2 = w_held w1"
  obtains (locked) e where "r = Err e" "lockVM svc vid w = (w', Err e)" "w_held w' = w_held w" "w_units w' = w_units w" "w_hooks w' = w_hooks w"
  | (ran) w1 w2 p where "lockVM svc vid w = (w1, Ok p)" "w_units w1 = w_units w" "w_hooks w1 = w_hooks w" "body w1 = (w2, r)"
      "w' = w2\<lparr>w_held := w_held w\<rparr>"
proof -
  obtain w1 lr where l: "lockVM svc vid w = (w1, lr)" by fastforce
  note h = lockVM_held [OF l]
  show thesis
  proof (cases lr)
    case (Inl e)
    then have "w' = w1" "r = Err e" using assms(1) l by (auto simp: with_lock_def)
    then show thesis using locked [of e] l h Inl by blast
  next
    case (Inr p)
    obtain w2 r2 where b: "body w1 = (w2, r2)" by fastforce
    then have "r2 = r" "w' = unlockVM svc p w2" using assms(1) l Inr by (auto simp: with_lock_def)
    moreover have "w_held w2 = p # w_held w" using held [OF b] h(1) Inr by simp
    ultimately show thesis using ran l h(3,4) b Inr by (simp add: unlockVM_def Release_def)
  qed
qed

lemma on_event_hooks: "\<exists>hs. w_hooks (on_event svc ev vid w) = w_hooks w @ hs"
  by (auto simp: on_event_def triggerHooks_def RunAsync_def Let_def split: sum.splits)

lemma start_locked_held: "start_locked svc vid w = (w', r) \<Longrightarrow> w_held w' = w_held w"
  by (auto simp: start_locked_def split: prod.splits sum.splits)

lemma stop_locked_held: "stop_locked svc vid w = (w', r) \<Longrightarrow> w_held w' = w_held w"
  by (auto simp: stop_locked_def split: prod.splits sum.splits)

lemma delete_locked_held: "delete_locked svc vid k w = (w', r) \<Longrightarrow> w_held w' = w_held w"
  by (auto simp: delete_locked_def Let_def split: prod.splits sum.splits)

text \<open>What a VM owns under one root has nothing to do with the other roots.\<close>

lemma roots_pairwise:
  assumes "roots_ok st" "x \<in> {croot st, rroot st, droot st}" "y \<in> {croot st, rroot st, droot st}"
  shows "y = x \<or> y \<parallel> x"
  using assms by (auto simp: roots_ok_def parallel_commute)

lemma owns_root:
  assumes "roots_ok st" "x \<in> {croot st, rroot st, droot st}"
  shows "prefix q x \<Longrightarrow> \<not> owns st vid q"
    and "z \<noteq> vid \<Longrightarrow> \<not> owns st vid (x @ z # zs)"
    and "y \<in> {croot st, rroot st, droot st} \<Longrightarrow> \<not> prefix (x @ z # zs) y"
proof -
  have no: "\<not> prefix (y @ [vid]) q" if "y \<in> {croot st, rroot st, droot st}" "prefix q x" for y q
  proof
    assume p: "prefix (y @ [vid]) q"
    then have "prefix y x" using that(2) by (meson append_prefixD prefix_order.trans)
    then have "y = x" using roots_pairwise [OF assms that(1)] by (auto simp: parallel_def)
    then show False using prefix_length_le [OF p] prefix_length_le [OF that(2)] by simp
  qed
  then show "prefix q x \<Longrightarrow> \<not> owns st vid q" by (simp add: owns_def)
  have "\<not> prefix (y @ [vid]) (x @ z # zs)" if "y \<in> {croot st, rroot st, droot st}" "z \<noteq> vid" for y
  proof
    assume p: "prefix (y @ [vid]) (x @ z # zs)"
    have "prefix x (x @ z # zs)" by simp
    then have "y = x"
      using roots_pairwise [OF assms that(1)] prefix_same_cases [OF append_prefixD [OF p] \<open>prefix x (x @ z # zs)\<close>] by (auto simp: parallel_def)
    then show False using p that(2) by simp
  qed
  then show "z \<noteq> vid \<Longrightarrow> \<not> owns st vid (x @ z # zs)" by (simp add: owns_def)
  assume y: "y \<in> {croot st, rroot st, droot st}"
  show "\<not> prefix (x @ z # zs) y"
  proof
    assume p: "prefix (x @ z # zs) y"
    then have "y = x" using roots_pairwise [OF assms y] append_prefixD [OF p] by (auto simp: parallel_def)
    then show False using prefix_length_le [OF p] by simp
  qed
qed

lemma vm_frame_run:
  assumes "vm_frame st vid fs fs'" "roots_ok st"
  shows "unblocked fs (rroot st) \<Longrightarrow> unblocked fs' (rroot st)"
    and "z \<noteq> vid \<Longrightarrow> fs_get fs' (rroot st @ z # zs) = fs_get fs (rroot st @ z # zs)"
proof -
  have x: "rroot st \<in> {croot st, rroot st, droot st}" by simp
  note o = owns_root [OF assms(2) x]
  show "unblocked fs (rroot st) \<Longrightarrow> unblocked fs' (rroot st)"
    using assms(1) o(1) unfolding unblocked_def vm_frame_def by metis
  show "z \<noteq> vid \<Longrightarrow> fs_get fs' (rroot st @ z # zs) = fs_get fs (rroot st @ z # zs)"
    using assms(1) o(2,3) unfolding vm_frame_def by blast
qed

lemma Exists_file:
  assumes "fs_wf fs" "reads_ok env" "ident vid" "fs_get fs (vfile st vid ''meta.json'') = Some n"
  shows "Exists env st vid fs = Ok True"
proof -
  have "os_Stat env (pa_MetaPath (PathsFor st vid)) fs = Ok n"
    using os_Stat_Ok [OF assms(1)] assms(2,4) vfile_paths(1) [OF identD(1) [OF assms(3)]] by (simp add: reads_ok_def)
  then show ?thesis using identD(2) [OF assms(3)] by (simp add: Exists_def)
qed

section \<open>Starting a VM\<close>

text \<open>
  C19: a VM that exists can be started: when no system call fails by itself, the VM's lock is free and
  the service manager carries out its commands, \<open>StartVM\<close> succeeds, the VM's unit is active and the
  others are as they were, and the lock is free again.
\<close>

theorem StartVM_succeeds:
  assumes q: "quiet (sv_env svc)" and inv: "svc_inv svc w" and id: "ident vid"
    and ex: "Exists (sv_env svc) (sv_store svc) vid (w_fs w) = Ok True"
    and dir: "unblocked (w_fs w) (rroot (sv_store svc))"
    and lockfile: "fs_get (w_fs w) (rroot (sv_store svc) @ [vid @ ''.lock'']) = None \<or>
               (\<exists>b. fs_get (w_fs w) (rroot (sv_store svc) @ [vid @ ''.lock'']) = Some (NFile b))"
    and free: "rroot (sv_store svc) @ [vid @ ''.lock''] \<notin> set (w_held w)"
    and laws: "systemctl_laws (sv_ctl svc) active" "ec_available (sv_client svc)"
    and works: "\<forall>u n. \<exists>u' out. sv_ctl svc u [''start'', n] = (u', ExecOK out)"
  shows "\<exists>w'. StartVM svc vid w = (w', Ok ()) \<and> active (w_units w') (unitName (sv_client svc) vid) \<and>
     (\<forall>n. n \<noteq> unitName (sv_client svc) vid \<longrightarrow> active (w_units w') n = active (w_units w) n) \<and>
     w_held w' = w_held w"
proof -
  let ?n = "unitName (sv_client svc) vid" and ?l = "rroot (sv_store svc) @ [vid @ ''.lock'']"
  have wf: "fs_wf (w_fs w)" using inv by (rule svc_inv_store)
  have fn: "file_name vid" using id by (rule identD)
  have "TrimSpace vid \<noteq> []" using id by (auto simp: ident_def validateID_def split: if_splits)
  then have chk: "check_exists svc vid w = Ok ()" using ex by (simp add: check_exists_def)
  obtain w1 where l: "lockVM svc vid w = (w1, Ok ?l)"
    using lockVM_quiet [OF q wf fn dir lockfile] free by auto
  note h = lockVM_held [OF l]
  have "\<exists>u'. sd_Start (sv_ctl svc) (sv_client svc) vid (w_units w1) = (u', Ok ())"
  proof (cases "active (w_units w1) ?n")
    case True
    then show ?thesis using IsActive_laws [OF laws] by (simp add: sd_Start_def)
  next
    case False
    obtain u' out where "sv_ctl svc (w_units w1) [''start'', ?n] = (u', ExecOK out)" using works by blast
    then have "run (sv_ctl svc) (sv_client svc) [''start'', ?n] (w_units w1) = (u', Ok out)"
      unfolding run_Ok [OF laws(2)] .
    then show ?thesis using IsActive_laws [OF laws] False by (simp add: sd_Start_def)
  qed
  then obtain u' where u: "sd_Start (sv_ctl svc) (sv_client svc) vid (w_units w1) = (u', Ok ())" by blast
  let ?w2 = "on_event svc HookOnStart vid (w1\<lparr>w_units := u'\<rparr>)"
  have "start_locked svc vid w1 = (?w2, Ok ())" using u by (simp add: start_locked_def)
  then have r: "StartVM svc vid w = (unlockVM svc ?l ?w2, Ok ())"
    using chk l by (simp add: StartVM_def with_lock_def)
  moreover have "w_held (unlockVM svc ?l ?w2) = w_held w" using h(1) by (simp add: unlockVM_def Release_def)
  moreover have "w_units (unlockVM svc ?l ?w2) = u'" by (simp add: unlockVM_def)
  ultimately show ?thesis
    using sd_Start_units [OF laws u] h(3) by auto
qed


lemma sample_laws: "systemctl_laws (sv_ctl sample_service) (\<lambda>us n. n \<in> set us)" "ec_available (sv_client sample_service)"
  "\<forall>u n. \<exists>u' out. sv_ctl sample_service u [''start'', n] = (u', ExecOK out)"
proof -
  show "ec_available (sv_client sample_service)" by code_simp
qed (simp_all add: sample_service_def simple_systemctl_laws simple_systemctl_def)

lemma sample_quiet: "quiet (sv_env sample_service)"
  using quiet_quiet_env by (simp add: sample_service_def)

text \<open>The sample VM, once created, can be started.\<close>

lemma sample_created_state:
  obtains w where "CreateVM sample_service 5 (Some sample_bytes) sample_request sample_world = (w, Ok sample_vm_id)"
    and "w_held w = []" "svc_inv sample_service w"
    and "Exists (sv_env sample_service) (sv_store sample_service) sample_vm_id (w_fs w) = Ok True"
    and "unblocked (w_fs w) (rroot (sv_store sample_service))"
    and "fs_get (w_fs w) (rroot (sv_store sample_service) @ [sample_vm_id @ ''.lock'']) = None"
proof -
  let ?st = "sv_store sample_service" and ?v = sample_vm_id
  obtain w where w: "CreateVM sample_service 5 (Some sample_bytes) sample_request sample_world = (w, Ok ?v)"
    "w_held w = w_held sample_world" "vm_frame ?st ?v (w_fs sample_world) (w_fs w)"
    "fs_get (w_fs w) (vfile ?st ?v ''meta.json'') \<noteq> None"
    using sample_created by blast
  have inv: "svc_inv sample_service w"
    using CreateVM_inv [OF w(1) svc_reachable_inv [OF sample_reachable sample_alloc_wf]]
      sample_req_wf sample_alloc_wf sample_fresh by blast
  have ro: "roots_ok ?st" using inv by (rule svc_inv_store)
  have id: "ident ?v" by code_simp
  have ex: "Exists (sv_env sample_service) ?st ?v (w_fs w) = Ok True"
    using Exists_file [OF svc_inv_store(1) [OF inv] quiet_reads_ok [OF sample_quiet] id] w(4) by auto
  have dir: "unblocked (w_fs w) (rroot ?st)"
  proof (rule vm_frame_run(1) [OF w(3) ro])
    show "unblocked (w_fs sample_world) (rroot ?st)" unfolding unblocked_code by code_simp
  qed
  have "fs_get (w_fs sample_world) (rroot ?st @ [?v @ ''.lock'']) = None" by code_simp
  then have "fs_get (w_fs w) (rroot ?st @ [?v @ ''.lock'']) = None"
    using vm_frame_run(2) [OF w(3) ro, of "?v @ ''.lock''" "[]"] by simp
  then show thesis using that [OF w(1) _ inv ex dir] w(2) by (simp add: sample_world_def)
qed

lemma sample_vm_ident: "ident sample_vm_id"
  by code_simp

theorem StartVM_succeeds_witness:
  "\<exists>w w'. CreateVM sample_service 5 (Some sample_bytes) sample_request sample_world = (w, Ok sample_vm_id) \<and>
     StartVM sample_service sample_vm_id w = (w', Ok ()) \<and>
     unitName (sv_client sample_service) sample_vm_id \<in> set (w_units w') \<and> w_held w' = []"
  by (rule sample_created_state)
    (use StartVM_succeeds [OF sample_quiet _ sample_vm_ident _ _ _ _ sample_laws] in fastforce)

section \<open>Operations on a locked VM\<close>

text \<open>
  C20: while another handler holds the lock of a VM, starting, stopping and deleting it are refused
  as a conflict: no unit changes, no hook is scheduled, the locks stay as they are and nothing under
  the configuration root is touched.
\<close>

theorem locked_VM_conflict:
  assumes q: "quiet (sv_env svc)" and inv: "svc_inv svc w" and id: "ident vid"
    and ex: "Exists (sv_env svc) (sv_store svc) vid (w_fs w) = Ok True"
    and dir: "unblocked (w_fs w) (rroot (sv_store svc))"
    and lockfile: "fs_get (w_fs w) (rroot (sv_store svc) @ [vid @ ''.lock'']) = None \<or>
               (\<exists>b. fs_get (w_fs w) (rroot (sv_store svc) @ [vid @ ''.lock'']) = Some (NFile b))"
    and held: "rroot (sv_store svc) @ [vid @ ''.lock''] \<in> set (w_held w)"
    and op: "op \<in> {StartVM svc vid, StopVM svc vid, DeleteVM svc vid keep}"
  shows "\<exists>w'. op w = (w', Err ErrConflict) \<and> w_units w' = w_units w \<and> w_hooks w' = w_hooks w \<and>
     w_held w' = w_held w \<and> outside_config (sv_store svc) (w_fs w) (w_fs w')"
proof -
  have wf: "fs_wf (w_fs w)" "roots_ok (sv_store svc)" using inv by (auto intro: svc_inv_store)
  have fn: "file_name vid" using id by (rule identD)
  have "TrimSpace vid \<noteq> []" using id by (auto simp: ident_def validateID_def split: if_splits)
  then have chk: "check_exists svc vid w = Ok ()" using ex by (simp add: check_exists_def)
  obtain w1 where l: "lockVM svc vid w = (w1, Err ErrConflict)"
    using lockVM_quiet [OF q wf(1) fn dir lockfile] held by auto
  have "op w = (w1, Err ErrConflict)"
    using op chk l by (auto simp: StartVM_def StopVM_def DeleteVM_def with_lock_def)
  then show ?thesis using lockVM_held(2-4) [OF l] lockVM_fs(2) [OF l wf fn] by simp
qed


theorem locked_VM_conflict_witness:
  "\<exists>w w'. svc_inv sample_service w \<and> DeleteVM sample_service sample_vm_id False w = (w', Err ErrConflict) \<and> w_hooks w' = w_hooks w"
proof (rule sample_created_state)
  fix w :: "(string list) world"
  let ?l = "rroot (sv_store sample_service) @ [sample_vm_id @ ''.lock'']"
  let ?w = "w\<lparr>w_held := [?l]\<rparr>"
  assume w: "svc_inv sample_service w" "Exists (sv_env sample_service) (sv_store sample_service) sample_vm_id (w_fs w) = Ok True"
    "unblocked (w_fs w) (rroot (sv_store sample_service))" "fs_get (w_fs w) ?l = None"
  have inv: "svc_inv sample_service ?w" by (rule svc_inv_same_fs [OF w(1)]) simp
  then show ?thesis
    using locked_VM_conflict [OF sample_quiet inv sample_vm_ident, of "DeleteVM sample_service sample_vm_id False" False] w(2-4)
    by auto
qed

section \<open>Deleting a VM\<close>

lemma delete_locked_Ok:
  assumes "delete_locked svc vid k w = (w', Ok ())"
  shows "\<exists>m. ReadMeta (sv_env svc) (sv_store svc) vid (w_fs w) = Ok m \<and>
     Store.DeleteVM (sv_env svc) (sv_store svc) vid k (w_fs w) = (w_fs w', Ok ())"
  using assms by (auto simp: delete_locked_def Let_def split: sum.splits prod.splits)

text \<open>
  C12: a VM that was deleted is gone from the service: its metadata is not found any more and a listing
  has exactly the other VMs; a delete that fails at any point leaves a store that can be listed and
  that lists at most the VMs it listed before; and in every case the lock is given back.
\<close>

theorem DeleteVM_unlists:
  assumes run: "DeleteVM svc vid keep w = (w', r)" and inv: "svc_inv svc w"
    and metas: "ListMetas (sv_env svc) (sv_store svc) (w_fs w) = Ok metas"
  shows "w_held w' = w_held w \<and>
     (\<exists>metas'. ListMetas (sv_env svc) (sv_store svc) (w_fs w') = Ok metas' \<and> mset metas' \<subseteq># mset metas \<and>
        (r = Ok () \<longrightarrow> ReadMeta (sv_env svc) (sv_store svc) vid (w_fs w') = Err ErrNotFound \<and>
           (\<exists>m. mset metas = add_mset m (mset metas'))))"
proof (cases "check_exists svc vid w")
  case (Inl e)
  then show ?thesis using run metas by (auto simp: DeleteVM_def)
next
  case (Inr u)
  let ?st = "sv_store svc" and ?env = "sv_env svc"
  have id: "ident vid" using check_exists_ident Inr inv by simp
  have wl: "with_lock svc vid (delete_locked svc vid keep) w = (w', r)" using run Inr by (simp add: DeleteVM_def)
  show ?thesis
  proof (rule with_lock_cases [OF wl])
    show "w_held w2 = w_held w1" if "delete_locked svc vid keep w1 = (w2, r)" for w1 w2 r
      using that by (rule delete_locked_held)
  next
    fix e
    assume locked: "r = Err e" "lockVM svc vid w = (w', Err e)" "w_held w' = w_held w"
    note l = lockVM_fs [OF locked(2) svc_inv_store [OF inv] identD(1) [OF id]]
    obtain ms' where "ListMetas ?env ?st (w_fs w') = Ok ms'" "mset ms' = mset metas"
      using ListMetas_outside [OF l(2) _ l(1) metas] inv by (auto simp: svc_inv_def)
    then show ?thesis using locked by auto
  next
    fix w1 w2 p
    assume ran: "lockVM svc vid w = (w1, Ok p)" "w_units w1 = w_units w" "w_hooks w1 = w_hooks w"
      "delete_locked svc vid keep w1 = (w2, r)" "w' = w2\<lparr>w_held := w_held w\<rparr>"
    note l = lockVM_fs [OF ran(1) svc_inv_store [OF inv] identD(1) [OF id]]
    have ok: "store_ok ?env ?st (w_fs w)" "store_ok ?env ?st (w_fs w1)"
      using inv l(1) by (auto simp: svc_inv_def store_ok_def)
    obtain ms1 where ms1: "ListMetas ?env ?st (w_fs w1) = Ok ms1" "mset ms1 = mset metas"
      using ListMetas_outside [OF l(2) ok(1) l(1) metas] by blast
    have fs: "w_fs w' = w_fs w2" using ran(5) by simp
    show ?thesis
    proof (cases "r = Ok ()")
      case True
      obtain m where d: "ReadMeta ?env ?st vid (w_fs w1) = Ok m" "Store.DeleteVM ?env ?st vid keep (w_fs w1) = (w_fs w2, Ok ())"
        using delete_locked_Ok ran(4) True by blast
      obtain ms' where "ListMetas ?env ?st (w_fs w2) = Ok ms'" "mset ms1 = add_mset m (mset ms')"
        using fs_prov.delete_lists [OF d(2) ok(2) id ms1(1)] d(1) by auto
      then show ?thesis using fs_prov.delete_absent [OF d(2) ok(2) id] fs ms1(2) ran(5) by auto
    next
      case False
      consider "w_fs w2 = w_fs w1" | r' where "Store.DeleteVM ?env ?st vid keep (w_fs w1) = (w_fs w2, r')"
        using delete_locked_fs [OF ran(4)] by blast
      then have "\<exists>ms'. ListMetas ?env ?st (w_fs w2) = Ok ms' \<and> mset ms' \<subseteq># mset ms1"
        using ms1(1) ListMetas_DeleteVM_any [OF _ ok(2) id ms1(1)] by cases fastforce+
      then show ?thesis using False fs ms1(2) ran(5) by auto
    qed
  qed
qed

theorem DeleteVM_unlists_witness:
  "\<exists>w w' r metas'. CreateVM sample_service 5 (Some sample_bytes) sample_request sample_world = (w, Ok sample_vm_id) \<and>
     DeleteVM sample_service sample_vm_id False w = (w', r) \<and>
     ListMetas (sv_env sample_service) (sv_store sample_service) (w_fs w') = Ok metas' \<and> w_held w' = []"
proof (rule sample_created_state)
  fix w
  assume w: "CreateVM sample_service 5 (Some sample_bytes) sample_request sample_world = (w, Ok sample_vm_id)"
    "w_held w = []" "svc_inv sample_service w"
  obtain w' r where d: "DeleteVM sample_service sample_vm_id False w = (w', r)" by fastforce
  then show ?thesis using DeleteVM_unlists [OF d w(3)] w by (auto simp: svc_inv_def)
qed

end
