(* ===== verification/Config.thy ===== *)
theory Config
  imports Prelude
begin

text \<open>
  \<open>src/internal/config/config.go\<close>: the configuration of the daemon, read from its environment.
\<close>

section \<open>Definitions\<close>

text \<open>The value of a 64-bit integer after an operation that may overflow.\<close>

definition wrap64 :: "int \<Rightarrow> int" where
  "wrap64 i = (i + 2 ^ 63) mod 2 ^ 64 - 2 ^ 63"

definition second :: int where
  "second = 1000000000"

record config =
  cf_HTTPAddr :: string
  cf_ConfigRoot :: string
  cf_DataRoot :: string
  cf_RunRoot :: string
  cf_GlobalHooksDir :: string
  cf_UnitPrefix :: string
  cf_SystemctlPath :: string
  cf_CommandTimeout :: int
  cf_ShutdownTimeout :: int
  cf_PortStart :: int
  cf_PortEnd :: int
  cf_GuestCIDR :: string
  cf_LogLevel :: string
  cf_LogFormat :: string

text \<open>The environment of the process: \<open>os.LookupEnv\<close> is the lookup in the list of its variables.\<close>

type_synonym environ = "string gomap"

definition getEnv :: "environ \<Rightarrow> string \<Rightarrow> string \<Rightarrow> string" where
  "getEnv vars key fallback =
     (case map_of vars key of
        Some value \<Rightarrow> if value \<noteq> [] then value else fallback
      | None \<Rightarrow> fallback)"

definition getEnvInt :: "environ \<Rightarrow> string \<Rightarrow> int \<Rightarrow> int" where
  "getEnvInt vars key fallback =
     (case map_of vars key of
        Some value \<Rightarrow>
          if value \<noteq> [] then (case Atoi value of Some parsed \<Rightarrow> parsed | None \<Rightarrow> fallback) else fallback
      | None \<Rightarrow> fallback)"

definition FromEnv :: "environ \<Rightarrow> config" where
  "FromEnv vars =
     \<lparr>cf_HTTPAddr = getEnv vars ''MGR_HTTP_ADDR'' '':8080'',
      cf_ConfigRoot = getEnv vars ''MGR_CONFIG_ROOT'' ''/etc/mergen/vm.d'',
      cf_DataRoot = getEnv vars ''MGR_DATA_ROOT'' ''/var/lib/mergen'',
      cf_RunRoot = getEnv vars ''MGR_RUN_ROOT'' ''/run/mergen'',
      cf_GlobalHooksDir = getEnv vars ''MGR_GLOBAL_HOOKS_DIR'' ''/etc/mergen/hooks.d'',
      cf_UnitPrefix = getEnv vars ''MGR_UNIT_PREFIX'' ''mergen'',
      cf_SystemctlPath = getEnv vars ''MGR_SYSTEMCTL_PATH'' ''systemctl'',
      cf_CommandTimeout = wrap64 (getEnvInt vars ''MGR_COMMAND_TIMEOUT_SECONDS'' 10 * second),
      cf_ShutdownTimeout = wrap64 (getEnvInt vars ''MGR_SHUTDOWN_TIMEOUT_SECONDS'' 15 * second),
      cf_PortStart = getEnvInt vars ''MGR_PORT_START'' 20000,
      cf_PortEnd = getEnvInt vars ''MGR_PORT_END'' 40000,
      cf_GuestCIDR = getEnv vars ''MGR_GUEST_CIDR'' ''172.30.0.0/24'',
      cf_LogLevel = getEnv vars ''MGR_LOG_LEVEL'' ''info'',
      cf_LogFormat = getEnv vars ''MGR_LOG_FORMAT'' ''console''\<rparr>"

section \<open>Lemmas\<close>

lemma wrap64_int64 [simp]: "int64 (wrap64 i)"
proof -
  have "0 \<le> (i + 2 ^ 63) mod 2 ^ 64" "(i + 2 ^ 63) mod 2 ^ 64 < (2 ^ 64 :: int)" by simp_all
  then show ?thesis unfolding int64_def wrap64_def by simp
qed

lemma wrap64_id: "int64 i \<Longrightarrow> wrap64 i = i"
  unfolding int64_def wrap64_def by (subst mod_pos_pos_trivial) auto

lemma Atoi_int64: "Atoi s = Some i \<Longrightarrow> int64 i"
  by (auto simp: Atoi_def int64_def Let_def split: if_splits option.splits list.splits)

lemma Atoi_Nil: "Atoi [] = None"
  by code_simp

lemma Itoa_nonempty: "Itoa i \<noteq> []"
  by (simp add: Itoa_def)

lemma getEnv_nonempty: "fallback \<noteq> [] \<Longrightarrow> getEnv vars key fallback \<noteq> []"
  by (auto simp: getEnv_def split: option.splits)

lemma getEnvInt_int64: "int64 fallback \<Longrightarrow> int64 (getEnvInt vars key fallback)"
  by (auto simp: getEnvInt_def dest: Atoi_int64 split: option.splits)

lemma FromEnv_ports: "int64 (cf_PortStart (FromEnv vars))" "int64 (cf_PortEnd (FromEnv vars))"
proof -
  have "int64 20000" "int64 40000" by (simp_all add: int64_def)
  then show "int64 (cf_PortStart (FromEnv vars))" "int64 (cf_PortEnd (FromEnv vars))"
    by (simp_all add: FromEnv_def getEnvInt_int64)
qed

lemma FromEnv_paths:
  "cf_HTTPAddr (FromEnv vars) \<noteq> []" "cf_ConfigRoot (FromEnv vars) \<noteq> []" "cf_DataRoot (FromEnv vars) \<noteq> []"
  "cf_RunRoot (FromEnv vars) \<noteq> []" "cf_UnitPrefix (FromEnv vars) \<noteq> []" "cf_SystemctlPath (FromEnv vars) \<noteq> []"
  "cf_GuestCIDR (FromEnv vars) \<noteq> []"
  by (simp_all add: FromEnv_def getEnv_nonempty)

section \<open>Properties\<close>

text \<open>
  Whatever the environment holds, the configuration is usable by the components built from it: no
  path, prefix or address is empty, the ports are 64-bit integers, and a variable that is absent or
  empty, or that should be a number and is none, gives the default.  A time limit is the number of
  seconds asked for exactly when that many nanoseconds fit into 64 bits.
\<close>

theorem FromEnv_usable:
  "cf_HTTPAddr (FromEnv vars) \<noteq> [] \<and> cf_ConfigRoot (FromEnv vars) \<noteq> [] \<and> cf_DataRoot (FromEnv vars) \<noteq> [] \<and>
   cf_RunRoot (FromEnv vars) \<noteq> [] \<and> cf_UnitPrefix (FromEnv vars) \<noteq> [] \<and> cf_SystemctlPath (FromEnv vars) \<noteq> [] \<and>
   cf_GuestCIDR (FromEnv vars) \<noteq> [] \<and>
   int64 (cf_PortStart (FromEnv vars)) \<and> int64 (cf_PortEnd (FromEnv vars)) \<and> int64 (cf_CommandTimeout (FromEnv vars)) \<and>
   (\<forall>s. cf_PortStart (FromEnv [(''MGR_PORT_START'', s)]) = (case Atoi s of Some p \<Rightarrow> p | None \<Rightarrow> 20000)) \<and>
   (\<forall>i. int64 i \<longrightarrow> (cf_CommandTimeout (FromEnv [(''MGR_COMMAND_TIMEOUT_SECONDS'', Itoa i)]) = i * second) = int64 (i * second))"
proof (intro conjI allI impI)
  fix s
  show "cf_PortStart (FromEnv [(''MGR_PORT_START'', s)]) = (case Atoi s of Some p \<Rightarrow> p | None \<Rightarrow> 20000)"
    by (cases "s = []") (simp_all add: FromEnv_def getEnvInt_def Atoi_Nil)
next
  fix i :: int
  assume "int64 i"
  then have "cf_CommandTimeout (FromEnv [(''MGR_COMMAND_TIMEOUT_SECONDS'', Itoa i)]) = wrap64 (i * second)"
    by (simp add: FromEnv_def getEnvInt_def Atoi_Itoa Itoa_nonempty)
  then show "(cf_CommandTimeout (FromEnv [(''MGR_COMMAND_TIMEOUT_SECONDS'', Itoa i)]) = i * second) = int64 (i * second)"
    using wrap64_int64 [of "i * second"] wrap64_id by metis
qed (simp_all add: FromEnv_ports FromEnv_paths, simp_all add: FromEnv_def)

theorem FromEnv_usable_witness:
  "cf_CommandTimeout (FromEnv [(''MGR_COMMAND_TIMEOUT_SECONDS'', Itoa 30)]) = 30 * second"
proof -
  have "int64 30" "int64 (30 * second)" by (simp_all add: int64_def second_def)
  then show ?thesis using FromEnv_usable by blast
qed

end
