(* ===== verification/API.thy ===== *)
theory API
  imports Manager_Spec Config
begin

text \<open>
  The HTTP interface: the router of \<open>src/third_party/echo/echo.go\<close>, the handlers of
  \<open>src/internal/api/handler.go\<close> and the wiring of \<open>src/cmd/mergend/main.go\<close>.  A response carries the
  error value where the code sends its text.
\<close>

section \<open>The router\<close>

definition normalizePath :: "string \<Rightarrow> string" where
  "normalizePath path =
     (if path = [] then ''/''
      else
        let p = (if HasPrefix path ''/'' then path else ''/'' @ path)
        in if length p > 1 \<and> HasSuffix p ''/'' then TrimSuffix p ''/'' else p)"

definition joinPath :: "string \<Rightarrow> string \<Rightarrow> string" where
  "joinPath pre sub =
     (if pre = ''/'' then normalizePath sub
      else normalizePath (TrimSuffix pre ''/'' @ ''/'' @ TrimPrefix sub ''/''))"

definition splitPath :: "string \<Rightarrow> string list" where
  "splitPath path =
     (if path = ''/'' then []
      else
        let clean = TrimChar path CHR ''/''
        in if clean = [] then [] else Split clean CHR ''/'')"

fun match_each :: "string list \<Rightarrow> string list \<Rightarrow> string gomap \<Rightarrow> string gomap option" where
  "match_each (segment # segments) (value # values) params =
     (if HasPrefix segment '':'' then
        (let key = TrimPrefix segment '':''
         in match_each segments values (if key \<noteq> [] then map_put key value params else params))
      else if segment \<noteq> value then None
      else match_each segments values params)"
| "match_each _ _ params = Some params"

definition matchSegments :: "string list \<Rightarrow> string list \<Rightarrow> string gomap option" where
  "matchSegments routeSegments requestSegments =
     (if length routeSegments \<noteq> length requestSegments then None
      else match_each routeSegments requestSegments [])"

record 'h route =
  rt_method :: string
  rt_pattern :: string
  rt_segments :: "string list"
  rt_handler :: 'h

definition add_route :: "string \<Rightarrow> string \<Rightarrow> 'h \<Rightarrow> 'h route list \<Rightarrow> 'h route list" where
  "add_route method path h routes =
     (let normalized = normalizePath path
      in routes @ [\<lparr>rt_method = method, rt_pattern = normalized, rt_segments = splitPath normalized, rt_handler = h\<rparr>])"

text \<open>The first route that matches, with its parameters.\<close>

fun find_route :: "'h route list \<Rightarrow> string \<Rightarrow> string \<Rightarrow> ('h \<times> string gomap) option" where
  "find_route [] method path = None"
| "find_route (rt # routes) method path =
     (if rt_method rt \<noteq> method then find_route routes method path
      else case matchSegments (rt_segments rt) (splitPath path) of
             None \<Rightarrow> find_route routes method path
           | Some params \<Rightarrow> Some (rt_handler rt, params))"

section \<open>Requests and responses\<close>

text \<open>A body is absent, does not start with a JSON value, or starts with one.\<close>

datatype api_body = NoBody | BadJSON | JSONBody json

record api_request =
  ar_Method :: string
  ar_Path :: string
  ar_Query :: "(string \<times> string) list"
  ar_Body :: api_body

datatype api_err = EmptyBody | DecodeErr "json_error option" | ParseBoolErr string | ServiceErr mgr_err

datatype resp_body = RespJSON json | RespError string api_err | RespText string

record response =
  rp_Status :: int
  rp_Body :: resp_body

section \<open>Decoding a request\<close>

text \<open>With \<open>DisallowUnknownFields\<close> a member that selects no field is an error, in nested structs too.\<close>

definition dec_strict ::
  "string list \<Rightarrow> (string \<times> json \<Rightarrow> 'r \<Rightarrow> (json_error, 'r) result) \<Rightarrow> json \<Rightarrow> 'r \<Rightarrow> (json_error, 'r) result" where
  "dec_strict names f =
     dec_struct (\<lambda>m r. if field_key names (fst m) = None then Err (UnknownField (fst m)) else f m r)"

fun dec_port_request_member :: "string \<times> json \<Rightarrow> port_binding_request \<Rightarrow> (json_error, port_binding_request) result" where
  "dec_port_request_member (k, j) p =
     (let f = field_key [''guest'', ''host'', ''protocol''] k in
      if f = Some ''guest'' then dec_field dec_int j (pbr_Guest p) (\<lambda>v. p\<lparr>pbr_Guest := v\<rparr>)
      else if f = Some ''host'' then dec_field dec_int j (pbr_Host p) (\<lambda>v. p\<lparr>pbr_Host := v\<rparr>)
      else if f = Some ''protocol'' then dec_field dec_str j (pbr_Protocol p) (\<lambda>v. p\<lparr>pbr_Protocol := v\<rparr>)
      else Ok p)"

definition dec_port_request :: "json \<Rightarrow> port_binding_request \<Rightarrow> (json_error, port_binding_request) result" where
  "dec_port_request = dec_strict [''guest'', ''host'', ''protocol''] dec_port_request_member"

definition dec_hook_strict :: "json \<Rightarrow> hook_entry \<Rightarrow> (json_error, hook_entry) result" where
  "dec_hook_strict = dec_strict [''type'', ''url'', ''cmd'', ''timeoutMs'', ''headers'', ''strict''] dec_hook_member"

definition zero_port_request :: port_binding_request where
  "zero_port_request = \<lparr>pbr_Guest = 0, pbr_Host = 0, pbr_Protocol = []\<rparr>"

definition zero_request :: create_vm_request where
  "zero_request =
     \<lparr>req_RootFS = [], req_Kernel = [], req_DataDisk = [], req_VCPU = 0, req_MemMiB = 0, req_Ports = [], req_HTTPPort = 0,
      req_Metadata = [], req_AutoStart = False, req_BootArgs = [], req_ExtraEnv = [], req_Tags = [], req_Hooks = []\<rparr>"

definition request_fields :: "string list" where
  "request_fields =
     [''rootfs'', ''kernel'', ''dataDisk'', ''vcpu'', ''memMiB'', ''ports'', ''httpPort'', ''metadata'', ''autoStart'',
      ''bootArgs'', ''extraEnv'', ''tags'', ''hooks'']"

fun dec_request_member :: "string \<times> json \<Rightarrow> create_vm_request \<Rightarrow> (json_error, create_vm_request) result" where
  "dec_request_member (k, j) r =
     (let f = field_key request_fields k in
      if f = Some ''rootfs'' then dec_field dec_str j (req_RootFS r) (\<lambda>v. r\<lparr>req_RootFS := v\<rparr>)
      else if f = Some ''kernel'' then dec_field dec_str j (req_Kernel r) (\<lambda>v. r\<lparr>req_Kernel := v\<rparr>)
      else if f = Some ''dataDisk'' then dec_field dec_str j (req_DataDisk r) (\<lambda>v. r\<lparr>req_DataDisk := v\<rparr>)
      else if f = Some ''vcpu'' then dec_field dec_int j (req_VCPU r) (\<lambda>v. r\<lparr>req_VCPU := v\<rparr>)
      else if f = Some ''memMiB'' then dec_field dec_int j (req_MemMiB r) (\<lambda>v. r\<lparr>req_MemMiB := v\<rparr>)
      else if f = Some ''ports'' then dec_field (dec_list dec_port_request zero_port_request) j (req_Ports r) (\<lambda>v. r\<lparr>req_Ports := v\<rparr>)
      else if f = Some ''httpPort'' then dec_field dec_int j (req_HTTPPort r) (\<lambda>v. r\<lparr>req_HTTPPort := v\<rparr>)
      else if f = Some ''metadata'' then dec_field (dec_map dec_any JNull) j (req_Metadata r) (\<lambda>v. r\<lparr>req_Metadata := v\<rparr>)
      else if f = Some ''autoStart'' then dec_field dec_bool j (req_AutoStart r) (\<lambda>v. r\<lparr>req_AutoStart := v\<rparr>)
      else if f = Some ''bootArgs'' then dec_field dec_str j (req_BootArgs r) (\<lambda>v. r\<lparr>req_BootArgs := v\<rparr>)
      else if f = Some ''extraEnv'' then dec_field (dec_map dec_str []) j (req_ExtraEnv r) (\<lambda>v. r\<lparr>req_ExtraEnv := v\<rparr>)
      else if f = Some ''tags'' then dec_field (dec_map dec_str []) j (req_Tags r) (\<lambda>v. r\<lparr>req_Tags := v\<rparr>)
      else if f = Some ''hooks'' then
        dec_field (dec_map (dec_list dec_hook_strict zero_hook) []) j (req_Hooks r) (\<lambda>v. r\<lparr>req_Hooks := v\<rparr>)
      else Ok r)"

definition dec_request :: "json \<Rightarrow> create_vm_request \<Rightarrow> (json_error, create_vm_request) result" where
  "dec_request = dec_strict request_fields dec_request_member"

definition Bind :: "api_body \<Rightarrow> (api_err, create_vm_request) result" where
  "Bind body =
     (case body of
        NoBody \<Rightarrow> Err EmptyBody
      | BadJSON \<Rightarrow> Err (DecodeErr None)
      | JSONBody j \<Rightarrow> map_err (\<lambda>e. DecodeErr (Some e)) (dec_request j zero_request))"

text \<open>\<open>strconv.ParseBool\<close>\<close>

definition ParseBool :: "string \<Rightarrow> bool option" where
  "ParseBool s =
     (if s \<in> set [''1'', ''t'', ''T'', ''TRUE'', ''true'', ''True''] then Some True
      else if s \<in> set [''0'', ''f'', ''F'', ''FALSE'', ''false'', ''False''] then Some False
      else None)"

definition parseBool :: "string \<Rightarrow> (api_err, bool) result" where
  "parseBool value =
     (if value = [] then Ok False
      else case ParseBool value of Some b \<Rightarrow> Ok b | None \<Rightarrow> Err (ParseBoolErr value))"

definition QueryParam :: "api_request \<Rightarrow> string \<Rightarrow> string" where
  "QueryParam r name = (case map_of (ar_Query r) name of Some v \<Rightarrow> v | None \<Rightarrow> [])"

definition Param :: "string gomap \<Rightarrow> string \<Rightarrow> string" where
  "Param params name = (case map_of params name of Some v \<Rightarrow> v | None \<Rightarrow> [])"

section \<open>Encoding a response\<close>

definition enc_systemd :: "systemd_state \<Rightarrow> json" where
  "enc_systemd s =
     JObj ([(''available'', JBool (ss_Available s)), (''unit'', JStr (ss_Unit s)), (''active'', JBool (ss_Active s))] @
           omit_str ''activeState'' (ss_ActiveState s) @ omit_str ''subState'' (ss_SubState s) @
           omit_int ''mainPID'' (ss_MainPID s))"

definition enc_firecracker :: "firecracker_state \<Rightarrow> json" where
  "enc_firecracker s =
     JObj [(''socketPath'', JStr (fst_SocketPath s)), (''socketPresent'', JBool (fst_SocketPresent s))]"

definition enc_network :: "network_state \<Rightarrow> json" where
  "enc_network s =
     JObj [(''guestIP'', JStr (ns_GuestIP s)), (''ports'', JArr (map enc_port_binding (ns_Ports s))),
           (''tapName'', JStr (ns_TapName s)), (''netns'', JStr (ns_NetNS s))]"

definition enc_summary :: "vm_summary \<Rightarrow> json" where
  "enc_summary s =
     JObj ([(''id'', JStr (sum_ID s)), (''createdAt'', JTime (sum_CreatedAt s)),
            (''systemd'', enc_systemd (sum_Systemd s)), (''firecracker'', enc_firecracker (sum_Firecracker s)),
            (''network'', enc_network (sum_Network s)), (''paths'', enc_paths (sum_Paths s))] @
           omit_map ''metadata'' (\<lambda>j. j) (sum_Metadata s))"

section \<open>The handlers\<close>

definition json_response :: "int \<Rightarrow> json \<Rightarrow> response" where
  "json_response status j = \<lparr>rp_Status = status, rp_Body = RespJSON j\<rparr>"

definition errorResponse :: "int \<Rightarrow> string \<Rightarrow> api_err \<Rightarrow> response" where
  "errorResponse status code e = \<lparr>rp_Status = status, rp_Body = RespError code e\<rparr>"

definition writeServiceError :: "mgr_err \<Rightarrow> response" where
  "writeServiceError e =
     (case e of
        ErrInvalidRequest _ \<Rightarrow> errorResponse 400 ''bad_request'' (ServiceErr e)
      | MgrNotFound \<Rightarrow> errorResponse 404 ''not_found'' (ServiceErr e)
      | ErrConflict \<Rightarrow> errorResponse 409 ''conflict'' (ServiceErr e)
      | ErrUnavailable _ \<Rightarrow> errorResponse 503 ''dependency_unavailable'' (ServiceErr e)
      | _ \<Rightarrow> errorResponse 500 ''internal_error'' (ServiceErr e))"

definition respond :: "('a \<Rightarrow> response) \<Rightarrow> 'w \<times> (mgr_err, 'a) result \<Rightarrow> 'w \<times> response" where
  "respond f wr = (case wr of (w, Err e) \<Rightarrow> (w, writeServiceError e) | (w, Ok x) \<Rightarrow> (w, f x))"

definition status_body :: "string \<Rightarrow> string \<Rightarrow> json" where
  "status_body vid status = JObj [(''id'', JStr vid), (''status'', JStr status)]"

definition h_createVM :: "'u service \<Rightarrow> int \<Rightarrow> 8 word list option \<Rightarrow> api_request \<Rightarrow> 'u world \<Rightarrow> 'u world \<times> response" where
  "h_createVM svc now random r w =
     (case Bind (ar_Body r) of
        Err e \<Rightarrow> (w, errorResponse 400 ''bad_request'' e)
      | Ok req \<Rightarrow> respond (\<lambda>vid. json_response 201 (status_body vid ''created'')) (CreateVM svc now random req w))"

definition h_startVM :: "'u service \<Rightarrow> string gomap \<Rightarrow> 'u world \<Rightarrow> 'u world \<times> response" where
  "h_startVM svc params w =
     (let vid = Param params ''id''
      in respond (\<lambda>_. json_response 200 (status_body vid ''started'')) (StartVM svc vid w))"

definition h_stopVM :: "'u service \<Rightarrow> string gomap \<Rightarrow> 'u world \<Rightarrow> 'u world \<times> response" where
  "h_stopVM svc params w =
     (let vid = Param params ''id''
      in respond (\<lambda>_. json_response 200 (status_body vid ''stopped'')) (StopVM svc vid w))"

definition h_deleteVM :: "'u service \<Rightarrow> api_request \<Rightarrow> string gomap \<Rightarrow> 'u world \<Rightarrow> 'u world \<times> response" where
  "h_deleteVM svc r params w =
     (let vid = Param params ''id''
      in case parseBool (QueryParam r ''retainData'') of
           Err e \<Rightarrow> (w, errorResponse 400 ''bad_request'' e)
         | Ok retainData \<Rightarrow>
             respond (\<lambda>_. json_response 200 (status_body vid ''deleted'')) (DeleteVM svc vid retainData w))"

definition h_getVM :: "'u service \<Rightarrow> string gomap \<Rightarrow> 'u world \<Rightarrow> 'u world \<times> response" where
  "h_getVM svc params w =
     (let vid = Param params ''id''
      in respond (\<lambda>vm. json_response 200 (enc_summary vm)) (GetVM svc vid w))"

definition h_listVMs :: "'u service \<Rightarrow> 'u world \<Rightarrow> 'u world \<times> response" where
  "h_listVMs svc w =
     respond (\<lambda>vms. json_response 200 (JObj [(''items'', JArr (map enc_summary vms))])) (ListVMs svc w)"

datatype endpoint = Healthz | CreateEP | StartEP | StopEP | DeleteEP | GetEP | ListEP

text \<open>The routes in the order in which \<open>main\<close> and \<open>Register\<close> add them.\<close>

definition Register :: "endpoint route list \<Rightarrow> endpoint route list" where
  "Register e =
     (let g = normalizePath ''/v1'';
          e1 = add_route ''POST'' (joinPath g ''/vms'') CreateEP e;
          e2 = add_route ''POST'' (joinPath g ''/vms/:id/start'') StartEP e1;
          e3 = add_route ''POST'' (joinPath g ''/vms/:id/stop'') StopEP e2;
          e4 = add_route ''DELETE'' (joinPath g ''/vms/:id'') DeleteEP e3;
          e5 = add_route ''GET'' (joinPath g ''/vms/:id'') GetEP e4
      in add_route ''GET'' (joinPath g ''/vms'') ListEP e5)"

definition daemon_routes :: "endpoint route list" where
  "daemon_routes = Register (add_route ''GET'' ''/healthz'' Healthz [])"

definition call_handler ::
  "'u service \<Rightarrow> int \<Rightarrow> 8 word list option \<Rightarrow> api_request \<Rightarrow> endpoint \<Rightarrow> string gomap \<Rightarrow> 'u world \<Rightarrow> 'u world \<times> response" where
  "call_handler svc now random r ep params w =
     (case ep of
        Healthz \<Rightarrow> (w, json_response 200 (JObj [(''status'', JStr ''ok'')]))
      | CreateEP \<Rightarrow> h_createVM svc now random r w
      | StartEP \<Rightarrow> h_startVM svc params w
      | StopEP \<Rightarrow> h_stopVM svc params w
      | DeleteEP \<Rightarrow> h_deleteVM svc r params w
      | GetEP \<Rightarrow> h_getVM svc params w
      | ListEP \<Rightarrow> h_listVMs svc w)"

definition ServeHTTP ::
  "'u service \<Rightarrow> int \<Rightarrow> 8 word list option \<Rightarrow> api_request \<Rightarrow> 'u world \<Rightarrow> 'u world \<times> response" where
  "ServeHTTP svc now random r w =
     (case find_route daemon_routes (ar_Method r) (normalizePath (ar_Path r)) of
        None \<Rightarrow> (w, \<lparr>rp_Status = 404, rp_Body = RespText ''404 page not found''\<rparr>)
      | Some (ep, params) \<Rightarrow> call_handler svc now random r ep params w)"

text \<open>The service that \<open>main\<close> builds from the configuration; \<open>None\<close> when the base directories cannot be made.\<close>

definition bootstrap ::
  "os_env \<Rightarrow> 'u systemctl \<Rightarrow> (string \<Rightarrow> string option) \<Rightarrow> config \<Rightarrow> fs \<Rightarrow> fs \<times> 'u service option" where
  "bootstrap env ctl lookPath cfg fs =
     (let st = NewFSStore (cf_ConfigRoot cfg) (cf_DataRoot cfg) (cf_RunRoot cfg) (cf_GlobalHooksDir cfg)
      in case EnsureBaseDirs env st fs of
           (fs', Err _) \<Rightarrow> (fs', None)
         | (fs', Ok _) \<Rightarrow>
             (fs', Some \<lparr>sv_env = env, sv_store = st, sv_ctl = ctl,
                         sv_client = NewExecClient lookPath (cf_SystemctlPath cfg) (cf_UnitPrefix cfg),
                         sv_hooks = True,
                         sv_alloc = NewAllocator (cf_PortStart cfg) (cf_PortEnd cfg) (cf_GuestCIDR cfg)\<rparr>))"

section \<open>Decoded requests\<close>

lemma foldM_inv:
  assumes "foldM f xs s = Ok s'" "P s" "\<And>x s s'. f x s = Ok s' \<Longrightarrow> P s \<Longrightarrow> P s'"
  shows "P s'"
  using foldM_invariant [where P = P, OF assms(1,2)] assms(3) by blast

lemma mapM_all:
  assumes "mapM f xs = Ok ys" "\<And>x y. f x = Ok y \<Longrightarrow> P y"
  shows "list_all P ys"
  using assms(1)
proof (induction xs arbitrary: ys)
  case (Cons x xs)
  then show ?case using assms(2) by (auto split: sum.splits)
qed simp

lemma foldM_fails:
  assumes "x \<in> set xs" "\<And>s. \<exists>e. f x s = Err e"
  shows "\<exists>e. foldM f xs s = Err e"
  using assms(1)
proof (induction xs arbitrary: s)
  case (Cons y ys)
  show ?case
  proof (cases "f y s")
    case (Inr s1)
    then show ?thesis using Cons assms(2) [of s] by auto
  qed simp
qed simp

lemma dec_field_Ok: "dec_field d j old upd = Ok r \<longleftrightarrow> (\<exists>v. d j old = Ok v \<and> r = upd v)"
  by (auto simp: dec_field_def split: sum.splits)

lemma dec_int_int64: "dec_int j old = Ok i \<Longrightarrow> int64 old \<Longrightarrow> int64 i"
  by (auto simp: dec_int_def dest: Atoi_int64 split: json.splits option.splits)

lemma dec_map_canon:
  assumes "dec_map d z j old = Ok m" "map_canon old"
  shows "map_canon m"
proof (cases j)
  case (JObj ms)
  then have "foldM (\<lambda>(k, j) m. dec_field d j z (\<lambda>v. map_put k v m)) ms old = Ok m" using assms(1) by (simp add: dec_map_def)
  then show ?thesis
    by (rule foldM_inv [where P = map_canon]) (use assms(2) in \<open>auto simp: dec_field_Ok \<close>)
qed (use assms in \<open>auto simp: dec_map_def map_canon_def\<close>)

lemma map_put_values: "list_all P (map snd m) \<Longrightarrow> P v \<Longrightarrow> list_all P (map snd (map_put k v m))"
  by (induction k v m rule: map_put.induct) auto

lemma dec_map_values:
  assumes "dec_map d z j old = Ok m" "list_all P (map snd old)" "\<And>j v. d j z = Ok v \<Longrightarrow> P v"
  shows "list_all P (map snd m)"
proof (cases j)
  case (JObj ms)
  then have "foldM (\<lambda>(k, j) m. dec_field d j z (\<lambda>v. map_put k v m)) ms old = Ok m" using assms(1) by (simp add: dec_map_def)
  then show ?thesis
  proof (rule foldM_inv [where P = "\<lambda>m. list_all P (map snd m)"])
    fix x s s'
    assume "(case x of (k, j) \<Rightarrow> \<lambda>m. dec_field d j z (\<lambda>v. map_put k v m)) s = Ok s'" "list_all P (map snd s)"
    then show "list_all P (map snd s')"
      using assms(3) map_put_values [where P = P] by (fastforce simp: dec_field_Ok simp del: list.map_comp split: prod.splits)
  qed (rule assms(2))
qed (use assms in \<open>auto simp: dec_map_def\<close>)

lemma dec_strict_inv:
  assumes "dec_strict names f j old = Ok r" "P old" "\<And>m s s'. f m s = Ok s' \<Longrightarrow> P s \<Longrightarrow> P s'"
  shows "P r"
proof (cases j)
  case (JObj ms)
  let ?f = "\<lambda>m r. if field_key names (fst m) = None then Err (UnknownField (fst m)) else f m r"
  have "foldM ?f ms old = Ok r" using assms(1) JObj by (simp add: dec_strict_def dec_struct_def)
  then show ?thesis
  proof (rule foldM_inv [where P = P])
    fix m s s'
    assume "?f m s = Ok s'" "P s"
    then show "P s'" using assms(3) by (auto split: if_splits)
  qed (rule assms(2))
qed (use assms in \<open>auto simp: dec_strict_def dec_struct_def\<close>)

lemma dec_hook_member_wf:
  assumes "dec_hook_member m h = Ok h'" "hook_wf h"
  shows "hook_wf h'"
  using assms
  by (cases m) (auto simp: hook_wf_def Let_def dec_field_Ok dest: dec_int_int64 dec_map_canon split: if_splits)

lemma dec_hooks_wf: "dec_list dec_hook_strict zero_hook j [] = Ok hs \<Longrightarrow> list_all hook_wf hs"
proof -
  assume a: "dec_list dec_hook_strict zero_hook j [] = Ok hs"
  have z: "hook_wf zero_hook" by (simp add: hook_wf_def zero_hook_def map_canon_def int64_def)
  have "hook_wf h" if "dec_hook_strict j zero_hook = Ok h" for j h
    by (rule dec_strict_inv [where P = hook_wf, OF that [unfolded dec_hook_strict_def] z dec_hook_member_wf])
  then have "list_all hook_wf hs" if "mapM (\<lambda>j. dec_hook_strict j zero_hook) js = Ok hs" for js
    using mapM_all [OF that] by blast
  then show ?thesis using a by (cases j) (auto simp: dec_list_def)
qed

lemma dec_request_member_wf:
  assumes "dec_request_member m r = Ok r'" "req_wf r"
  shows "req_wf r'"
proof -
  obtain k j where m: "m = (k, j)" by fastforce
  have hs: "list_all (list_all hook_wf) (map snd v)"
    if "dec_map (dec_list dec_hook_strict zero_hook) [] j (req_Hooks r) = Ok v" for v
    by (rule dec_map_values [OF that _ dec_hooks_wf]) (use assms(2) in \<open>simp_all add: req_wf_def\<close>)
  show ?thesis
    using assms hs unfolding m
    by (auto simp: req_wf_def Let_def dec_field_Ok simp del: list.map_comp dest: dec_map_canon split: if_splits)
qed

lemma Bind_req_wf: "Bind body = Ok req \<Longrightarrow> req_wf req"
proof -
  assume "Bind body = Ok req"
  then obtain j where "dec_strict request_fields dec_request_member j zero_request = Ok req"
    by (auto simp: Bind_def dec_request_def map_err_def split: api_body.splits sum.splits)
  moreover have "req_wf zero_request" by (simp add: req_wf_def zero_request_def map_canon_def)
  ultimately show ?thesis using dec_strict_inv [where P = req_wf] dec_request_member_wf by blast
qed


definition sample_body :: json where
  "sample_body =
     JObj [(''rootfs'', JStr ''/rootfs''), (''kernel'', JStr ''/kernel''), (''vcpu'', JNum ''1''), (''memMiB'', JNum ''128''),
           (''ports'', JArr [JObj [(''guest'', JNum ''80'')]]), (''httpPort'', JNum ''80'')]"

lemma sample_bound: "Bind (JSONBody sample_body) = Ok sample_request"
  by code_simp


section \<open>Routing\<close>

lemma TrimChar_inside: "s \<noteq> [] \<Longrightarrow> hd s \<noteq> d \<Longrightarrow> last s \<noteq> d \<Longrightarrow> TrimChar (d # s) d = s"
proof -
  assume a: "s \<noteq> []" "hd s \<noteq> d" "last s \<noteq> d"
  have "dropWhile (\<lambda>c. c = d) s = s" using a(1,2) by (cases s) auto
  moreover have "dropWhile (\<lambda>c. c = d) (rev s) = rev s"
    using a by (cases "rev s") (auto simp: hd_rev [symmetric])
  ultimately show ?thesis by (simp add: TrimChar_def)
qed

lemma last_not_suffix: "s \<noteq> [] \<Longrightarrow> last s \<noteq> d \<Longrightarrow> \<not> HasSuffix s [d]"
  by (cases s rule: rev_cases) (auto simp: HasSuffix_def)

text \<open>A path made of segments is split into them again.\<close>

lemma splitPath_segments:
  assumes "xs \<noteq> []" "\<forall>x \<in> set xs. x \<noteq> [] \<and> CHR ''/'' \<notin> set x"
  shows "splitPath (normalizePath (''/'' @ Join xs ''/'')) = xs"
proof -
  let ?j = "Join xs ''/''"
  have ne: "?j \<noteq> []" using assms Join_ne by blast
  obtain x ys where xs: "xs = x # ys" using assms(1) by (cases xs) auto
  have x: "x \<noteq> []" "CHR ''/'' \<notin> set x" using assms(2) xs by auto
  have "hd ?j = hd x" using xs x(1) by (cases ys) auto
  then have h: "hd ?j \<noteq> CHR ''/''" using x hd_in_set by metis
  obtain zs y where xs': "xs = zs @ [y]" using assms(1) rev_exhaust by blast
  have y: "y \<noteq> []" "CHR ''/'' \<notin> set y" using assms(2) xs' by auto
  have "last ?j = last y" using y(1) unfolding xs' Join_snoc by auto
  then have l: "last ?j \<noteq> CHR ''/''" using y last_in_set by metis
  have n: "normalizePath (''/'' @ ?j) = ''/'' @ ?j"
    using last_not_suffix [of "''/'' @ ?j" "CHR ''/''"] ne l by (simp add: normalizePath_def HasPrefix_def Let_def)
  have "Split ?j CHR ''/'' = xs" using Split_Join [OF assms(1)] assms(2) by blast
  then show ?thesis using TrimChar_inside [OF ne h l] ne unfolding n by (simp add: splitPath_def Let_def)
qed

lemma daemon_routes_eq:
  "map (\<lambda>rt. (rt_method rt, rt_segments rt, rt_handler rt)) daemon_routes =
     [(''GET'', [''healthz''], Healthz), (''POST'', [''v1'', ''vms''], CreateEP),
      (''POST'', [''v1'', ''vms'', '':id'', ''start''], StartEP), (''POST'', [''v1'', ''vms'', '':id'', ''stop''], StopEP),
      (''DELETE'', [''v1'', ''vms'', '':id''], DeleteEP), (''GET'', [''v1'', ''vms'', '':id''], GetEP),
      (''GET'', [''v1'', ''vms''], ListEP)]"
  by code_simp

lemma find_route_map:
  "find_route rts m p =
     (case List.find (\<lambda>(m', segs, h). m' = m \<and> matchSegments segs (splitPath p) \<noteq> None)
             (map (\<lambda>rt. (rt_method rt, rt_segments rt, rt_handler rt)) rts) of
        None \<Rightarrow> None
      | Some (m', segs, h) \<Rightarrow> Some (h, the (matchSegments segs (splitPath p))))"
  by (induction rts) (auto split: option.splits)

definition vm_path :: "string list \<Rightarrow> string" where
  "vm_path xs = ''/'' @ Join (''v1'' # ''vms'' # xs) ''/''"

lemma vm_routes:
  assumes "vid \<noteq> []" "CHR ''/'' \<notin> set vid"
  shows "find_route daemon_routes ''POST'' (normalizePath (vm_path [vid, ''start''])) = Some (StartEP, [(''id'', vid)])"
    and "find_route daemon_routes ''POST'' (normalizePath (vm_path [vid, ''stop''])) = Some (StopEP, [(''id'', vid)])"
    and "find_route daemon_routes ''DELETE'' (normalizePath (vm_path [vid])) = Some (DeleteEP, [(''id'', vid)])"
    and "find_route daemon_routes ''GET'' (normalizePath (vm_path [vid])) = Some (GetEP, [(''id'', vid)])"
proof -
  have s: "splitPath (normalizePath (vm_path xs)) = ''v1'' # ''vms'' # xs"
    if "\<forall>x \<in> set xs. x \<noteq> [] \<and> CHR ''/'' \<notin> set x" for xs
    unfolding vm_path_def by (rule splitPath_segments) (use that in auto)
  have "\<forall>x \<in> set [vid, ''start'']. x \<noteq> [] \<and> CHR ''/'' \<notin> set x" "\<forall>x \<in> set [vid, ''stop'']. x \<noteq> [] \<and> CHR ''/'' \<notin> set x"
    "\<forall>x \<in> set [vid]. x \<noteq> [] \<and> CHR ''/'' \<notin> set x" using assms by auto
  note sp = this [THEN s]
  show "find_route daemon_routes ''POST'' (normalizePath (vm_path [vid, ''start''])) = Some (StartEP, [(''id'', vid)])"
    "find_route daemon_routes ''POST'' (normalizePath (vm_path [vid, ''stop''])) = Some (StopEP, [(''id'', vid)])"
    "find_route daemon_routes ''DELETE'' (normalizePath (vm_path [vid])) = Some (DeleteEP, [(''id'', vid)])"
    "find_route daemon_routes ''GET'' (normalizePath (vm_path [vid])) = Some (GetEP, [(''id'', vid)])"
    unfolding find_route_map daemon_routes_eq sp
    by (simp_all add: matchSegments_def HasPrefix_def TrimPrefix_def)
qed

text \<open>
  A request for one VM reaches the operation it names with exactly the identifier of its path,
  and its answer is the operation's: success is 200, and the errors are 400 for an invalid request,
  404 for a missing VM, 409 for a locked one, 503 for a service manager that cannot be used, and 500
  for the rest.
\<close>

theorem ServeHTTP_dispatch:
  assumes "vid \<noteq> []" "CHR ''/'' \<notin> set vid"
  shows "ServeHTTP svc now random \<lparr>ar_Method = ''POST'', ar_Path = vm_path [vid, ''start''], ar_Query = q, ar_Body = b\<rparr> w =
           (case StartVM svc vid w of
              (w', Ok _) \<Rightarrow> (w', json_response 200 (status_body vid ''started''))
            | (w', Err e) \<Rightarrow> (w', writeServiceError e)) \<and>
         ServeHTTP svc now random \<lparr>ar_Method = ''POST'', ar_Path = vm_path [vid, ''stop''], ar_Query = q, ar_Body = b\<rparr> w =
           (case StopVM svc vid w of
              (w', Ok _) \<Rightarrow> (w', json_response 200 (status_body vid ''stopped''))
            | (w', Err e) \<Rightarrow> (w', writeServiceError e)) \<and>
         ServeHTTP svc now random \<lparr>ar_Method = ''GET'', ar_Path = vm_path [vid], ar_Query = q, ar_Body = b\<rparr> w =
           (case GetVM svc vid w of
              (w', Ok vm) \<Rightarrow> (w', json_response 200 (enc_summary vm))
            | (w', Err e) \<Rightarrow> (w', writeServiceError e)) \<and>
         ServeHTTP svc now random \<lparr>ar_Method = ''DELETE'', ar_Path = vm_path [vid], ar_Query = [(''retainData'', v)], ar_Body = b\<rparr> w =
           (case parseBool v of
              Err e \<Rightarrow> (w, errorResponse 400 ''bad_request'' e)
            | Ok keep \<Rightarrow>
                (case DeleteVM svc vid keep w of
                   (w', Ok _) \<Rightarrow> (w', json_response 200 (status_body vid ''deleted''))
                 | (w', Err e) \<Rightarrow> (w', writeServiceError e))) \<and>
         rp_Status (writeServiceError e) =
           (case e of ErrInvalidRequest _ \<Rightarrow> 400 | MgrNotFound \<Rightarrow> 404 | ErrConflict \<Rightarrow> 409 | ErrUnavailable _ \<Rightarrow> 503 | _ \<Rightarrow> 500)"
proof -
  have "rp_Status (writeServiceError e) =
           (case e of ErrInvalidRequest _ \<Rightarrow> 400 | MgrNotFound \<Rightarrow> 404 | ErrConflict \<Rightarrow> 409 | ErrUnavailable _ \<Rightarrow> 503 | _ \<Rightarrow> 500)"
    by (cases e) (simp_all add: writeServiceError_def errorResponse_def)
  then show ?thesis
    using vm_routes [OF assms]
    by (auto simp: ServeHTTP_def call_handler_def h_startVM_def h_stopVM_def h_getVM_def h_deleteVM_def Param_def QueryParam_def
        respond_def split: sum.splits prod.splits)
qed

theorem ServeHTTP_dispatch_witness:
  "ServeHTTP sample_service 5 None
     \<lparr>ar_Method = ''DELETE'', ar_Path = vm_path [''vm-1''], ar_Query = [(''retainData'', ''maybe'')], ar_Body = NoBody\<rparr> sample_world =
   (sample_world, errorResponse 400 ''bad_request'' (ParseBoolErr ''maybe''))"
proof -
  have "parseBool ''maybe'' = Err (ParseBoolErr ''maybe'')" by code_simp
  then show ?thesis using ServeHTTP_dispatch [where vid = "''vm-1''" and v = "''maybe''" and w = sample_world and svc = sample_service
        and now = 5 and random = None and b = NoBody] by simp
qed


section \<open>The interface and the service\<close>

lemma respond_fst: "fst (respond f x) = fst x"
  by (auto simp: respond_def split: prod.splits sum.splits)



section \<open>Refused requests\<close>

lemma check_exists_errors: "with_lock svc vid body w = (w', Err (ErrInvalidRequest e)) \<Longrightarrow>
    (\<And>w1 w2. body w1 \<noteq> (w2, Err (ErrInvalidRequest e))) \<Longrightarrow> False"
  by (auto simp: with_lock_def lockVM_def map_err_def split: sum.splits prod.splits if_splits)

lemma locked_not_invalid:
  "start_locked svc vid w \<noteq> (w', Err (ErrInvalidRequest e))"
  "stop_locked svc vid w \<noteq> (w', Err (ErrInvalidRequest e))"
  "delete_locked svc vid k w \<noteq> (w', Err (ErrInvalidRequest e))"
  by (auto simp: start_locked_def stop_locked_def delete_locked_def dep_err_def store_gone_def Let_def
      split: sum.splits prod.splits sd_err.splits if_splits)

lemma with_lock_not_invalid:
  "with_lock svc vid (start_locked svc vid) w \<noteq> (w', Err (ErrInvalidRequest e))"
  "with_lock svc vid (stop_locked svc vid) w \<noteq> (w', Err (ErrInvalidRequest e))"
  "with_lock svc vid (delete_locked svc vid k) w \<noteq> (w', Err (ErrInvalidRequest e))"
  using check_exists_errors locked_not_invalid by metis+

lemma invalid_same:
  "StartVM svc vid w = (w', Err (ErrInvalidRequest e)) \<Longrightarrow> w' = w"
  "StopVM svc vid w = (w', Err (ErrInvalidRequest e)) \<Longrightarrow> w' = w"
  "DeleteVM svc vid k w = (w', Err (ErrInvalidRequest e)) \<Longrightarrow> w' = w"
  by (auto simp: StartVM_def StopVM_def DeleteVM_def with_lock_not_invalid split: sum.splits)

lemma GetVM_invalid_same: "GetVM svc vid w = (w', Err (ErrInvalidRequest e)) \<Longrightarrow> w' = w"
  by (auto simp: GetVM_def store_gone_def Let_def split: sum.splits prod.splits if_splits)

lemma GetVM_rest: "GetVM svc vid w = (w', r) \<Longrightarrow> w_fs w' = w_fs w \<and> w_held w' = w_held w \<and> w_hooks w' = w_hooks w"
  by (auto simp: GetVM_def split: if_splits sum.splits prod.splits)

lemma get_each_rest: "get_each svc ids w = (w', r) \<Longrightarrow> w_fs w' = w_fs w \<and> w_held w' = w_held w \<and> w_hooks w' = w_hooks w"
proof (induction ids arbitrary: w w' r)
  case (Cons vid ids)
  obtain w1 r1 where g: "GetVM svc vid w = (w1, r1)" by fastforce
  obtain w2 r2 where e: "get_each svc ids w1 = (w2, r2)" by fastforce
  have "w' = w1 \<or> w' = w2" using Cons.prems g e by (auto split: sum.splits if_splits)
  then show ?case using GetVM_rest [OF g] Cons.IH [OF e] by auto
qed simp

lemma ListVMs_rest: "ListVMs svc w = (w', r) \<Longrightarrow> w_fs w' = w_fs w \<and> w_held w' = w_held w \<and> w_hooks w' = w_hooks w"
  by (auto simp: ListVMs_def split: sum.splits prod.splits dest: get_each_rest)

lemma writeServiceError_400: "rp_Status (writeServiceError e) = 400 \<longleftrightarrow> (\<exists>i. e = ErrInvalidRequest i)"
  by (cases e) (simp_all add: writeServiceError_def errorResponse_def)

lemma respond_400:
  assumes "respond f x = (w', resp)" "rp_Status resp = 400" "\<And>y. rp_Status (f y) \<noteq> 400"
  shows "\<exists>i. x = (w', Err (ErrInvalidRequest i))"
  using assms by (auto simp: respond_def writeServiceError_400 split: prod.splits sum.splits)

lemma json_response_status [simp]: "rp_Status (json_response n j) = n"
  by (simp add: json_response_def)

lemma find_route_GET: "find_route daemon_routes m p = Some (ep, params) \<Longrightarrow> ep \<in> {Healthz, GetEP, ListEP} \<longleftrightarrow> m = ''GET''"
  unfolding find_route_map daemon_routes_eq by (auto split: if_splits)

text \<open>
  A request answered with status 400 has changed nothing: not the files, the locks or the
  scheduled hooks, and, unless it asked for the state of the units, nothing was asked of the service
  manager either.
\<close>

theorem bad_request_clean:
  assumes "ServeHTTP svc now random r w = (w', resp)" "rp_Status resp = 400"
  shows "w_fs w' = w_fs w \<and> w_held w' = w_held w \<and> w_hooks w' = w_hooks w \<and> (ar_Method r = ''GET'' \<or> w' = w)"
proof -
  obtain ep params where f: "find_route daemon_routes (ar_Method r) (normalizePath (ar_Path r)) = Some (ep, params)"
    and c: "call_handler svc now random r ep params w = (w', resp)"
    using assms by (auto simp: ServeHTTP_def split: option.splits)
  have "w' = w \<or> ep = ListEP \<and> w_fs w' = w_fs w \<and> w_held w' = w_held w \<and> w_hooks w' = w_hooks w"
  proof (cases ep)
    case CreateEP
    show ?thesis
    proof (cases "Bind (ar_Body r)")
      case (Inr req)
      then have "respond (\<lambda>vid. json_response 201 (status_body vid ''created'')) (CreateVM svc now random req w) = (w', resp)"
        using c CreateEP by (simp add: call_handler_def h_createVM_def)
      from respond_400 [OF this assms(2)] show ?thesis using CreateVM_invalid_same by fastforce
    qed (use c CreateEP in \<open>simp add: call_handler_def h_createVM_def\<close>)
  next
    case DeleteEP
    show ?thesis
    proof (cases "parseBool (QueryParam r ''retainData'')")
      case (Inr keep)
      then have "respond (\<lambda>_. json_response 200 (status_body (Param params ''id'') ''deleted'')) (DeleteVM svc (Param params ''id'') keep w) = (w', resp)"
        using c DeleteEP by (simp add: call_handler_def h_deleteVM_def Let_def)
      from respond_400 [OF this assms(2)] show ?thesis using invalid_same(3) by fastforce
    qed (use c DeleteEP in \<open>simp add: call_handler_def h_deleteVM_def Let_def\<close>)
  next
    case StartEP
    then have "respond (\<lambda>_. json_response 200 (status_body (Param params ''id'') ''started'')) (StartVM svc (Param params ''id'') w) = (w', resp)"
      using c by (simp add: call_handler_def h_startVM_def Let_def)
    from respond_400 [OF this assms(2)] show ?thesis using invalid_same(1) by fastforce
  next
    case StopEP
    then have "respond (\<lambda>_. json_response 200 (status_body (Param params ''id'') ''stopped'')) (StopVM svc (Param params ''id'') w) = (w', resp)"
      using c by (simp add: call_handler_def h_stopVM_def Let_def)
    from respond_400 [OF this assms(2)] show ?thesis using invalid_same(2) by fastforce
  next
    case GetEP
    then have "respond (\<lambda>vm. json_response 200 (enc_summary vm)) (GetVM svc (Param params ''id'') w) = (w', resp)"
      using c by (simp add: call_handler_def h_getVM_def Let_def)
    from respond_400 [OF this assms(2)] show ?thesis using GetVM_invalid_same by fastforce
  next
    case ListEP
    obtain w1 r1 where l: "ListVMs svc w = (w1, r1)" by fastforce
    have "w' = w1" using c ListEP l respond_fst [of _ "ListVMs svc w"] by (simp add: call_handler_def h_listVMs_def) (metis fst_conv)
    then show ?thesis using ListEP ListVMs_rest [OF l] by simp
  next
    case Healthz
    then show ?thesis using c by (simp add: call_handler_def)
  qed
  then show ?thesis using find_route_GET [OF f] by auto
qed

theorem bad_request_clean_witness:
  "fst (ServeHTTP sample_service 5 None \<lparr>ar_Method = ''POST'', ar_Path = ''/v1/vms'', ar_Query = [], ar_Body = BadJSON\<rparr> sample_world) =
     sample_world"
proof -
  let ?r = "\<lparr>ar_Method = ''POST'', ar_Path = ''/v1/vms'', ar_Query = [], ar_Body = BadJSON\<rparr>"
  have "find_route daemon_routes ''POST'' (normalizePath ''/v1/vms'') = Some (CreateEP, [])" by code_simp
  then have s: "ServeHTTP sample_service 5 None ?r sample_world = (sample_world, errorResponse 400 ''bad_request'' (DecodeErr None))"
    by (simp add: ServeHTTP_def call_handler_def h_createVM_def Bind_def)
  show ?thesis using bad_request_clean [OF s] s by (simp add: errorResponse_def)
qed

section \<open>The daemon\<close>

lemma ServeHTTP_inv:
  assumes "fresh_random svc random w" "svc_inv svc w" "alloc_wf (sv_alloc svc)"
  shows "svc_inv svc (fst (ServeHTTP svc now random r w))"
proof -
  have "svc_inv svc (fst (call_handler svc now random r ep params w))" for ep params
  proof (cases ep)
    case CreateEP
    then show ?thesis using Bind_req_wf assms CreateVM_inv [OF prod.collapse [symmetric] assms(2) _ assms(3,1)]
      by (auto simp: call_handler_def h_createVM_def respond_fst split: sum.splits)
  next
    case DeleteEP
    then show ?thesis using assms(2) DeleteVM_inv [OF prod.collapse [symmetric] assms(2)]
      by (auto simp: call_handler_def h_deleteVM_def Let_def respond_fst split: sum.splits)
  qed (use assms(2) StartVM_inv [OF prod.collapse [symmetric] assms(2)] StopVM_inv [OF prod.collapse [symmetric] assms(2)]
      svc_inv_same_fs [OF assms(2) GetVM_fs [OF prod.collapse [symmetric]]] svc_inv_same_fs [OF assms(2) ListVMs_fs [OF prod.collapse [symmetric]]]
      in \<open>auto simp: call_handler_def h_startVM_def h_stopVM_def h_getVM_def h_listVMs_def Let_def respond_fst\<close>)
  then show ?thesis using assms(2) by (auto simp: ServeHTTP_def split: option.splits prod.splits)
qed

end
