(* ===== verification/Forwarder.thy ===== *)
theory Forwarder
  imports Store_Spec Config
begin

text \<open>
  The forwarder, \<open>src/internal/forwarder\<close>: it accepts TLS connections, finds the VM that the server
  name of the handshake stands for and connects to the HTTP port of its guest inside the network
  namespace of the VM.  Modelled are its configuration, the resolver with its cache, the routing of
  a connection, the bookkeeping of open connections, and the dialer with its change of namespace.
  TLS, the network and the clock are parameters.
\<close>

section \<open>Configuration (config.go)\<close>

definition fwd_getEnv :: "environ \<Rightarrow> string \<Rightarrow> string \<Rightarrow> string" where
  "fwd_getEnv vars key fallback =
     (case map_of vars key of
        Some value \<Rightarrow> if TrimSpace value \<noteq> [] then value else fallback
      | None \<Rightarrow> fallback)"

definition fwd_getEnvInt :: "environ \<Rightarrow> string \<Rightarrow> int \<Rightarrow> int" where
  "fwd_getEnvInt vars key fallback =
     (case map_of vars key of
        None \<Rightarrow> fallback
      | Some value \<Rightarrow>
          if TrimSpace value = [] then fallback
          else case Atoi value of None \<Rightarrow> fallback | Some parsed \<Rightarrow> parsed)"

definition normalizeDomainPart :: "string \<Rightarrow> string" where
  "normalizeDomainPart raw = TrimChar (ToLower (TrimSpace raw)) CHR ''.''"

definition domainBase :: "string \<Rightarrow> string \<Rightarrow> string" where
  "domainBase pre suf = (if pre = [] then suf else pre @ ''.'' @ suf)"

text \<open>\<open>net.SplitHostPort\<close>: the part after the last colon is the port; colons of the host are in brackets.\<close>

fun last_index :: "string \<Rightarrow> char \<Rightarrow> nat option" where
  "last_index [] c = None"
| "last_index (x # xs) c =
     (case last_index xs c of Some i \<Rightarrow> Some (Suc i) | None \<Rightarrow> if x = c then Some 0 else None)"

fun first_index :: "string \<Rightarrow> char \<Rightarrow> nat option" where
  "first_index [] c = None"
| "first_index (x # xs) c =
     (if x = c then Some 0 else case first_index xs c of Some i \<Rightarrow> Some (Suc i) | None \<Rightarrow> None)"

definition SplitHostPort :: "string \<Rightarrow> (string \<times> string) option" where
  "SplitHostPort hostport =
     (case last_index hostport CHR '':'' of
        None \<Rightarrow> None
      | Some i \<Rightarrow>
          if hd hostport = CHR ''['' then
            (case first_index hostport CHR '']'' of
               None \<Rightarrow> None
             | Some end \<Rightarrow>
                 if end + 1 \<noteq> i then None
                 else if CHR ''['' \<in> set (drop 1 hostport) then None
                 else if CHR '']'' \<in> set (drop (end + 1) hostport) then None
                 else Some (take (end - 1) (drop 1 hostport), drop (i + 1) hostport))
          else if CHR '':'' \<in> set (take i hostport) then None
          else if CHR ''['' \<in> set hostport \<or> CHR '']'' \<in> set hostport then None
          else Some (take i hostport, drop (i + 1) hostport))"

datatype fwd_config_err = AddrEmpty | AddrInvalid string | PortInvalid string | SuffixEmpty

definition normalizeListenAddr :: "string \<Rightarrow> (fwd_config_err, string) result" where
  "normalizeListenAddr raw =
     (let addr0 = TrimSpace raw
      in if addr0 = [] then Err AddrEmpty
         else
           let addr = (if Contains addr0 '':'' then addr0 else '':'' @ addr0)
           in case SplitHostPort addr of
                None \<Rightarrow> Err (AddrInvalid raw)
              | Some (_, port) \<Rightarrow>
                  (case Atoi port of
                     None \<Rightarrow> Err (PortInvalid port)
                   | Some parsedPort \<Rightarrow>
                       if parsedPort \<le> 0 \<or> parsedPort > 65535 then Err (PortInvalid port) else Ok addr))"

record fwd_config =
  fc_ConfigRoot :: string
  fc_NetNSRoot :: string
  fc_CertFile :: string
  fc_KeyFile :: string
  fc_HTTPSAddr :: string
  fc_DomainPrefix :: string
  fc_DomainSuffix :: string
  fc_LogLevel :: string
  fc_LogFormat :: string
  fc_DialTimeout :: int
  fc_ResolverCacheTTL :: int
  fc_ShutdownTimeout :: int

definition fwd_FromEnv :: "environ \<Rightarrow> (fwd_config_err, fwd_config) result" where
  "fwd_FromEnv vars =
     (case normalizeListenAddr (fwd_getEnv vars ''FWD_HTTPS_ADDR'' '':443'') of
        Err e \<Rightarrow> Err e
      | Ok httpsAddr \<Rightarrow>
          (let domainPrefix = normalizeDomainPart (fwd_getEnv vars ''FWD_DOMAIN_PREFIX'' []);
               domainSuffix = normalizeDomainPart (fwd_getEnv vars ''FWD_DOMAIN_SUFFIX'' ''localhost'')
           in if domainSuffix = [] then Err SuffixEmpty
              else
                let base = domainBase domainPrefix domainSuffix
                in Ok \<lparr>fc_ConfigRoot = fwd_getEnv vars ''FWD_CONFIG_ROOT'' ''/etc/mergen/vm.d'',
                       fc_NetNSRoot = fwd_getEnv vars ''FWD_NETNS_ROOT'' ''/run/netns'',
                       fc_CertFile = fwd_getEnv vars ''FWD_TLS_CERT_FILE'' (''/etc/mergen/certs/wildcard.'' @ base @ ''.crt''),
                       fc_KeyFile = fwd_getEnv vars ''FWD_TLS_KEY_FILE'' (''/etc/mergen/certs/wildcard.'' @ base @ ''.key''),
                       fc_HTTPSAddr = httpsAddr,
                       fc_DomainPrefix = domainPrefix,
                       fc_DomainSuffix = domainSuffix,
                       fc_LogLevel = fwd_getEnv vars ''FWD_LOG_LEVEL'' ''debug'',
                       fc_LogFormat = fwd_getEnv vars ''FWD_LOG_FORMAT'' ''console'',
                       fc_DialTimeout = wrap64 (fwd_getEnvInt vars ''FWD_DIAL_TIMEOUT_SECONDS'' 5 * second),
                       fc_ResolverCacheTTL = wrap64 (fwd_getEnvInt vars ''FWD_RESOLVER_CACHE_TTL_SECONDS'' 5 * second),
                       fc_ShutdownTimeout = wrap64 (fwd_getEnvInt vars ''FWD_SHUTDOWN_TIMEOUT_SECONDS'' 15 * second)\<rparr>))"

section \<open>The resolver (resolver.go)\<close>

text \<open>
  Times are instants counted from Go's zero time.  The state that the resolver keeps behind its lock
  is a record of its own.
\<close>

record resolver =
  rv_configRoot :: string
  rv_domainPrefix :: string
  rv_domainSuffix :: string
  rv_domainTail :: string
  rv_cacheTTL :: int

record resolver_state =
  rs_cacheUntil :: int
  rs_cache :: "vm_metadata gomap"
  rs_ordered :: "vm_metadata list"

datatype resolve_err =
    ErrVMNotFound
  | NameEmpty
  | WrongDomain
  | BadLabel
  | ReadDirErr oserr

definition NewResolver :: "string \<Rightarrow> string \<Rightarrow> string \<Rightarrow> int \<Rightarrow> resolver \<times> resolver_state" where
  "NewResolver configRoot domainPrefix domainSuffix cacheTTL =
     (let pre = normalizeDomainPart domainPrefix;
          suf0 = normalizeDomainPart domainSuffix;
          suf = (if suf0 = [] then ''localhost'' else suf0);
          ttl = (if cacheTTL \<le> 0 then 5 * second else cacheTTL);
          tail0 = ''.'' @ suf;
          tail = (if pre \<noteq> [] then ''.'' @ pre @ tail0 else tail0)
      in (\<lparr>rv_configRoot = configRoot, rv_domainPrefix = pre, rv_domainSuffix = suf, rv_domainTail = tail, rv_cacheTTL = ttl\<rparr>,
          \<lparr>rs_cacheUntil = 0, rs_cache = [], rs_ordered = []\<rparr>))"

definition labelFromServerName :: "resolver \<Rightarrow> string \<Rightarrow> (resolve_err, string) result" where
  "labelFromServerName r serverName =
     (let name = TrimSuffix (ToLower (TrimSpace serverName)) ''.''
      in if name = [] then Err NameEmpty
         else if \<not> HasSuffix name (rv_domainTail r) then Err WrongDomain
         else
           let label = TrimSuffix name (rv_domainTail r)
           in if label = [] \<or> Contains label ''.'' then Err BadLabel else Ok label)"

text \<open>The closure \<open>add\<close> of \<open>aliasesForMeta\<close>: the list in order, each alias once.\<close>

definition add_alias :: "string \<Rightarrow> string list \<Rightarrow> string list" where
  "add_alias value out =
     (let v = ToLower (TrimSpace value)
      in if v = [] then out else if v \<in> set out then out else out @ [v])"

definition add_aliases_key :: "vm_metadata \<Rightarrow> string \<Rightarrow> string list \<Rightarrow> string list" where
  "add_aliases_key meta key out =
     (let out1 = add_alias (case map_of (meta_Tags meta) key of Some v \<Rightarrow> v | None \<Rightarrow> []) out
      in case map_of (meta_Metadata meta) key of
           Some (JStr str) \<Rightarrow> add_alias str out1
         | _ \<Rightarrow> out1)"

definition aliasesForMeta :: "vm_metadata \<Rightarrow> string list" where
  "aliasesForMeta meta =
     (let out1 = add_alias (meta_ID meta) [];
          out2 = (if length (meta_ID meta) \<ge> 8 then add_alias (take 8 (meta_ID meta)) out1 else out1)
      in foldl (\<lambda>out key. add_aliases_key meta key out) out2 [''host'', ''hostname'', ''app'', ''name''])"

fun read_all_metas :: "os_env \<Rightarrow> resolver \<Rightarrow> fs \<Rightarrow> (string \<times> bool) list \<Rightarrow> vm_metadata list" where
  "read_all_metas env r fs [] = []"
| "read_all_metas env r fs ((name, isDir) # entries) =
     (if \<not> isDir then read_all_metas env r fs entries
      else case os_ReadFile env (path_Join [rv_configRoot r, name, ''meta.json'']) fs of
             Ok (JSONDoc j) \<Rightarrow>
               (case dec_meta j zero_meta of
                  Err _ \<Rightarrow> read_all_metas env r fs entries
                | Ok meta \<Rightarrow> meta # read_all_metas env r fs entries)
           | _ \<Rightarrow> read_all_metas env r fs entries)"

definition readAllMetas :: "os_env \<Rightarrow> resolver \<Rightarrow> fs \<Rightarrow> (oserr, vm_metadata list) result" where
  "readAllMetas env r fs =
     (case os_ReadDir env (rv_configRoot r) fs of
        Err e \<Rightarrow> Err e
      | Ok entries \<Rightarrow> Ok (read_all_metas env r fs entries))"

text \<open>The comparison of the sort: oldest first, VMs without a creation time last, then by identifier.\<close>

definition meta_less :: "vm_metadata \<Rightarrow> vm_metadata \<Rightarrow> bool" where
  "meta_less a b =
     (let left = meta_CreatedAt a; right = meta_CreatedAt b
      in if left = 0 \<and> right = 0 then meta_ID a < meta_ID b
         else if left = 0 then False
         else if right = 0 then True
         else if left = right then meta_ID a < meta_ID b
         else left < right)"

fun cache_aliases :: "vm_metadata \<Rightarrow> string list \<Rightarrow> vm_metadata gomap \<Rightarrow> vm_metadata gomap" where
  "cache_aliases meta [] m = m"
| "cache_aliases meta (alias # aliases) m =
     cache_aliases meta aliases (if map_of m alias \<noteq> None then m else map_put alias meta m)"

fun build_cache :: "vm_metadata list \<Rightarrow> vm_metadata gomap \<Rightarrow> vm_metadata gomap" where
  "build_cache [] m = m"
| "build_cache (meta # metas) m = build_cache metas (cache_aliases meta (aliasesForMeta meta) m)"

definition cache_valid :: "int \<Rightarrow> resolver_state \<Rightarrow> bool" where
  "cache_valid now s \<longleftrightarrow> now < rs_cacheUntil s \<and> length (rs_cache s) > 0"

text \<open>The part of \<open>refreshCacheIfNeeded\<close> under the write lock, with its two readings of the clock.\<close>

definition refresh_locked ::
  "os_env \<Rightarrow> resolver \<Rightarrow> fs \<Rightarrow> int \<Rightarrow> int \<Rightarrow> resolver_state \<Rightarrow> resolver_state \<times> (resolve_err, unit) result" where
  "refresh_locked env r fs now now' s =
     (if cache_valid now s then (s, Ok ())
      else case readAllMetas env r fs of
             Err e \<Rightarrow> (s, Err (ReadDirErr e))
           | Ok metas0 \<Rightarrow>
               (let metas = SliceStable meta_less metas0
                in (s\<lparr>rs_cache := build_cache metas [], rs_ordered := metas, rs_cacheUntil := now' + rv_cacheTTL r\<rparr>, Ok ())))"

definition refreshCacheIfNeeded ::
  "os_env \<Rightarrow> resolver \<Rightarrow> fs \<Rightarrow> int \<times> int \<times> int \<Rightarrow> resolver_state \<Rightarrow> resolver_state \<times> (resolve_err, unit) result" where
  "refreshCacheIfNeeded env r fs clock s =
     (case clock of (t1, t2, t3) \<Rightarrow> if cache_valid t1 s then (s, Ok ()) else refresh_locked env r fs t2 t3 s)"

definition Resolve ::
  "os_env \<Rightarrow> resolver \<Rightarrow> fs \<Rightarrow> int \<times> int \<times> int \<Rightarrow> string \<Rightarrow> resolver_state \<Rightarrow>
   resolver_state \<times> (resolve_err, vm_metadata) result" where
  "Resolve env r fs clock serverName s =
     (case labelFromServerName r serverName of
        Err e \<Rightarrow> (s, Err e)
      | Ok label \<Rightarrow>
          (case refreshCacheIfNeeded env r fs clock s of
             (s', Err e) \<Rightarrow> (s', Err e)
           | (s', Ok _) \<Rightarrow>
               (case map_of (rs_cache s') label of
                  None \<Rightarrow> (s', Err ErrVMNotFound)
                | Some meta \<Rightarrow> (s', Ok meta))))"

definition ResolveFirst ::
  "os_env \<Rightarrow> resolver \<Rightarrow> fs \<Rightarrow> int \<times> int \<times> int \<Rightarrow> resolver_state \<Rightarrow> resolver_state \<times> (resolve_err, vm_metadata) result" where
  "ResolveFirst env r fs clock s =
     (case refreshCacheIfNeeded env r fs clock s of
        (s', Err e) \<Rightarrow> (s', Err e)
      | (s', Ok _) \<Rightarrow> (s', case rs_ordered s' of [] \<Rightarrow> Err ErrVMNotFound | m # _ \<Rightarrow> Ok m))"

section \<open>The dialer (netns\_dialer\_linux.go)\<close>

definition NewNetNSDialer :: "string \<Rightarrow> string list" where
  "NewNetNSDialer netnsRoot =
     (let root0 = TrimSpace netnsRoot; root = (if root0 = [] then ''/run/netns'' else root0)
      in root # filter (\<lambda>fallback. root \<noteq> fallback) [''/run/netns'', ''/var/run/netns''])"

text \<open>The outside of the dialer: which files can be opened, whether the thread may change to a namespace, and the network of a namespace.\<close>

datatype netns = Origin | Named string

datatype dial_err = NetNSEmpty | OpenErr | SetnsErr string | DialErr | DialUnsupported

record 'c net_env =
  ne_open :: "string \<Rightarrow> bool"
  ne_setns :: "netns \<Rightarrow> bool"
  ne_dial :: "netns \<Rightarrow> string \<Rightarrow> string \<Rightarrow> 'c option"

fun openTargetNS :: "'c net_env \<Rightarrow> string list \<Rightarrow> string \<Rightarrow> string option" where
  "openTargetNS ne [] netns = None"
| "openTargetNS ne (root # roots) netns =
     (let targetPath = path_Join [root, netns]
      in if ne_open ne targetPath then Some targetPath else openTargetNS ne roots netns)"

text \<open>\<open>DialContext\<close> with the namespace of the locked thread as its state.\<close>

definition DialContext ::
  "'c net_env \<Rightarrow> string list \<Rightarrow> string \<Rightarrow> string \<Rightarrow> string \<Rightarrow> netns \<Rightarrow> netns \<times> (dial_err, 'c) result" where
  "DialContext ne roots network address netns thread =
     (if netns = [] then (thread, Err NetNSEmpty)
      else if \<not> ne_open ne ''/proc/self/ns/net'' then (thread, Err OpenErr)
      else case openTargetNS ne roots netns of
             None \<Rightarrow> (thread, Err OpenErr)
           | Some targetPath \<Rightarrow>
               if \<not> ne_setns ne (Named targetPath) then (thread, Err (SetnsErr targetPath))
               else
                 ((if ne_setns ne thread then thread else Named targetPath),
                  case ne_dial ne (Named targetPath) network address of None \<Rightarrow> Err DialErr | Some c \<Rightarrow> Ok c))"

text \<open>\<open>netns\_dialer\_other.go\<close>: other systems have no network namespaces.\<close>

definition DialContext_other :: "string \<Rightarrow> string \<Rightarrow> string \<Rightarrow> (dial_err, 'c) result" where
  "DialContext_other network address netns = Err DialUnsupported"

section \<open>The server (server.go)\<close>

definition targetHTTPPort :: "vm_metadata \<Rightarrow> int option" where
  "targetHTTPPort meta =
     (if meta_HTTPPort meta \<le> 0 \<or> meta_HTTPPort meta > 65535 then None else Some (meta_HTTPPort meta))"

text \<open>\<open>net.JoinHostPort\<close>\<close>

definition JoinHostPort :: "string \<Rightarrow> string \<Rightarrow> string" where
  "JoinHostPort host port =
     (if CHR '':'' \<in> set host then ''['' @ host @ '']:'' @ port else host @ '':'' @ port)"

definition httpStatusText :: "int \<Rightarrow> string" where
  "httpStatusText code =
     (if code = 404 then ''Not Found''
      else if code = 421 then ''Misdirected Request''
      else if code = 502 then ''Bad Gateway''
      else ''Error'')"

definition crlf :: string where
  "crlf = [CHR 13, CHR 10]"

definition error_response :: "int \<Rightarrow> string \<Rightarrow> string" where
  "error_response code message =
     (let body = message @ [CHR 10]
      in ''HTTP/1.1 '' @ Itoa code @ '' '' @ httpStatusText code @ crlf @
         ''Content-Type: text/plain'' @ crlf @
         ''Content-Length: '' @ Itoa (int (length body)) @ crlf @
         ''Connection: close'' @ crlf @ crlf @ body)"

text \<open>
  What becomes of a connection: it is closed without an answer, gets an error response, or its
  streams are copied from and to a backend connection.
\<close>

datatype 'c outcome = Dropped | Answered string | Proxied vm_metadata string 'c

record tls_conn =
  tc_handshake :: bool
  tc_serverName :: string

definition handleTLSConn ::
  "os_env \<Rightarrow> resolver \<Rightarrow> fs \<Rightarrow> int \<times> int \<times> int \<Rightarrow> 'c net_env \<Rightarrow> string list \<Rightarrow> tls_conn \<Rightarrow> resolver_state \<Rightarrow> netns \<Rightarrow>
   resolver_state \<times> netns \<times> 'c outcome" where
  "handleTLSConn env r fs clock ne roots conn s thread =
     (if \<not> tc_handshake conn then (s, thread, Dropped)
      else
        let serverName = ToLower (TrimSpace (tc_serverName conn))
        in if serverName = [] then (s, thread, Answered (error_response 421 ''missing sni''))
           else case Resolve env r fs clock serverName s of
                  (s', Err _) \<Rightarrow> (s', thread, Answered (error_response 404 ''vm not found''))
                | (s', Ok meta) \<Rightarrow>
                    (case targetHTTPPort meta of
                       None \<Rightarrow> (s', thread, Answered (error_response 502 ''vm http port not configured''))
                     | Some port \<Rightarrow>
                         (let targetAddr = JoinHostPort (meta_GuestIP meta) (Itoa port)
                          in case DialContext ne roots ''tcp'' targetAddr (meta_NetNS meta) thread of
                               (thread', Err _) \<Rightarrow> (s', thread', Answered (error_response 502 ''backend unavailable''))
                             | (thread', Ok c) \<Rightarrow> (s', thread', Proxied meta targetAddr c))))"

section \<open>Open connections (server.go)\<close>

text \<open>
  The bookkeeping of the server: the set of tracked connections, the counter of the wait group, and
  where the goroutines are.  The listener tracks a connection, adds one to the counter and starts the
  handler; a handler ends by closing its connection, untracking it and taking one off the counter.
\<close>

definition trackConn :: "nat \<Rightarrow> nat list \<Rightarrow> nat list" where
  "trackConn conn conns = (if conn \<in> set conns then conns else conns @ [conn])"

definition untrackConn :: "nat \<Rightarrow> nat list \<Rightarrow> nat list" where
  "untrackConn conn conns = removeAll conn conns"

definition activeConnectionCount :: "nat list \<Rightarrow> nat" where
  "activeConnectionCount conns = length conns"

datatype handler = HNone | HRunning | HClosed | HUntracked | HDone

datatype listener = Accepting | Tracking nat | Stopped

record fwd_server =
  fw_conns :: "nat list"
  fw_wg :: int
  fw_listener :: listener
  fw_handlers :: "nat \<Rightarrow> handler"

definition fwd_start :: fwd_server where
  "fwd_start = \<lparr>fw_conns = [], fw_wg = 0, fw_listener = Accepting, fw_handlers = (\<lambda>_. HNone)\<rparr>"

inductive fwd_step :: "fwd_server \<Rightarrow> fwd_server \<Rightarrow> bool" where
  fwd_accept:
    "fw_listener s = Accepting \<Longrightarrow> fw_handlers s c = HNone \<Longrightarrow>
     fwd_step s (s\<lparr>fw_conns := trackConn c (fw_conns s), fw_listener := Tracking c\<rparr>)"
| fwd_spawn:
    "fw_listener s = Tracking c \<Longrightarrow>
     fwd_step s (s\<lparr>fw_wg := fw_wg s + 1, fw_listener := Accepting, fw_handlers := (fw_handlers s)(c := HRunning)\<rparr>)"
| fwd_stop: "fw_listener s = Accepting \<Longrightarrow> fwd_step s (s\<lparr>fw_listener := Stopped\<rparr>)"
| fwd_close: "fw_handlers s c = HRunning \<Longrightarrow> fwd_step s (s\<lparr>fw_handlers := (fw_handlers s)(c := HClosed)\<rparr>)"
| fwd_untrack:
    "fw_handlers s c = HClosed \<Longrightarrow>
     fwd_step s (s\<lparr>fw_conns := untrackConn c (fw_conns s), fw_handlers := (fw_handlers s)(c := HUntracked)\<rparr>)"
| fwd_done:
    "fw_handlers s c = HUntracked \<Longrightarrow>
     fwd_step s (s\<lparr>fw_wg := fw_wg s - 1, fw_handlers := (fw_handlers s)(c := HDone)\<rparr>)"

inductive fwd_reachable :: "fwd_server \<Rightarrow> bool" where
  fwd_init: "fwd_reachable fwd_start"
| fwd_next: "fwd_reachable s \<Longrightarrow> fwd_step s s' \<Longrightarrow> fwd_reachable s'"

end
