(* ===== verification/Forwarder_Spec.thy ===== *)
theory Forwarder_Spec
  imports Forwarder "HOL-Library.Product_Lexorder"
begin

text \<open>
  The properties of the forwarder: the order of the VMs and the cache against a reference, the age of
  an answer, server names and labels, the routing of a connection, VMs that the daemon stored, and
  the bookkeeping of open connections under every interleaving.
\<close>

section \<open>The order of the VMs\<close>

text \<open>The reference: the position of a VM is the triple of absent creation time, creation time and identifier.\<close>

definition meta_key :: "vm_metadata \<Rightarrow> bool \<times> int \<times> string" where
  "meta_key m = (meta_CreatedAt m = 0, meta_CreatedAt m, meta_ID m)"

lemma meta_less_key: "meta_less a b \<longleftrightarrow> meta_key a < meta_key b"
  by (auto simp: meta_less_def meta_key_def Let_def less_prod_def)

lemma SliceStable_meta: "SliceStable meta_less ms = sort_key meta_key ms"
proof -
  have e: "meta_less = (\<lambda>a b. meta_key a < meta_key b)" by (simp add: fun_eq_iff meta_less_key)
  show ?thesis unfolding e by (rule SliceStable_key)
qed

section \<open>The cache\<close>

lemma cache_aliases_get:
  "map_of (cache_aliases meta as m) l = (case map_of m l of Some x \<Rightarrow> Some x | None \<Rightarrow> if l \<in> set as then Some meta else None)"
  by (induction as arbitrary: m) (auto simp: map_of_map_put split: option.splits)

lemma build_cache_get:
  "map_of (build_cache ms m) l =
     (case map_of m l of Some x \<Rightarrow> Some x | None \<Rightarrow> List.find (\<lambda>meta. l \<in> set (aliasesForMeta meta)) ms)"
  by (induction ms arbitrary: m) (auto simp: cache_aliases_get split: option.splits)

text \<open>The VM that a label stands for, given the VMs of the configuration root.\<close>

definition vm_for :: "string \<Rightarrow> vm_metadata list \<Rightarrow> vm_metadata option" where
  "vm_for label metas = List.find (\<lambda>meta. label \<in> set (aliasesForMeta meta)) (sort_key meta_key metas)"

lemma vm_for_member: "vm_for l ms = Some m \<Longrightarrow> m \<in> set ms \<and> l \<in> set (aliasesForMeta m)"
  unfolding vm_for_def find_Some_iff by (metis nth_mem set_sort)

lemma vm_for_None: "vm_for l ms = None \<longleftrightarrow> (\<forall>m \<in> set ms. l \<notin> set (aliasesForMeta m))"
  by (auto simp: vm_for_def find_None_iff)

lemma vm_for_first:
  assumes "vm_for l ms = Some m" "m' \<in> set ms" "l \<in> set (aliasesForMeta m')"
  shows "meta_key m \<le> meta_key m'"
proof -
  let ?xs = "sort_key meta_key ms"
  obtain i where i: "i < length ?xs" "?xs ! i = m" "\<forall>j < i. l \<notin> set (aliasesForMeta (?xs ! j))"
    using assms(1) unfolding vm_for_def find_Some_iff by blast
  obtain k where k: "k < length ?xs" "?xs ! k = m'" using assms(2) by (metis in_set_conv_nth set_sort)
  then have "i \<le> k" using i(3) assms(3) by (meson leI)
  then have "map meta_key ?xs ! i \<le> map meta_key ?xs ! k"
    using sorted_nth_mono [of "map meta_key ?xs"] k(1) by simp
  then show ?thesis using i k by simp
qed

section \<open>The resolver and its clock\<close>

text \<open>
  The states of a resolver that any number of goroutines use, each with the reading of the directory
  that it holds, the file system it saw and the time at which it was stored.
\<close>

inductive resolver_reaches :: "os_env \<Rightarrow> resolver \<Rightarrow> resolver_state \<Rightarrow> (int \<times> vm_metadata list) option \<Rightarrow> bool" for env r where
  resolver_new: "resolver_reaches env r \<lparr>rs_cacheUntil = 0, rs_cache = [], rs_ordered = []\<rparr> None"
| resolver_refresh:
    "resolver_reaches env r s src \<Longrightarrow> cache_valid t s \<or> readAllMetas env r fs = Ok metas \<Longrightarrow>
     refresh_locked env r fs t t' s = (s', Ok ()) \<Longrightarrow>
     resolver_reaches env r s' (if cache_valid t s then src else Some (t', metas))"

lemma resolver_reaches_inv:
  "resolver_reaches env r s src \<Longrightarrow>
     (case src of
        None \<Rightarrow> rs_cache s = []
      | Some (t, metas) \<Rightarrow>
          rs_cacheUntil s = t + rv_cacheTTL r \<and> (\<forall>l. map_of (rs_cache s) l = vm_for l metas) \<and>
          rs_ordered s = sort_key meta_key metas)"
proof (induction rule: resolver_reaches.induct)
  case (resolver_refresh s src t fs metas t' s')
  then show ?case
    by (auto simp: refresh_locked_def Let_def SliceStable_meta build_cache_get vm_for_def split: if_splits)
qed simp

text \<open>
  C21: an answer of the resolver is right and not too old: it is the VM that a reading of the
  configuration root gives for the label of the server name, the first in order of age and identifier
  among those that have the label, and that reading was made now or is younger than the cache's time
  to live.
\<close>

theorem Resolve_fresh:
  assumes "resolver_reaches env r s src" "Resolve env r fs (t1, t2, t3) serverName s = (s', Ok meta)"
  shows "\<exists>label metas. labelFromServerName r serverName = Ok label \<and>
     label \<in> set (aliasesForMeta meta) \<and> meta \<in> set metas \<and>
     (\<forall>m \<in> set metas. label \<in> set (aliasesForMeta m) \<longrightarrow> meta_key meta \<le> meta_key m) \<and>
     (readAllMetas env r fs = Ok metas \<or>
      (\<exists>t. src = Some (t, metas) \<and> (t1 < t + rv_cacheTTL r \<or> t2 < t + rv_cacheTTL r)))"
proof -
  obtain label where l: "labelFromServerName r serverName = Ok label"
    using assms(2) by (auto simp: Resolve_def split: sum.splits)
  obtain u where rf: "refreshCacheIfNeeded env r fs (t1, t2, t3) s = (s', Ok u)" "map_of (rs_cache s') label = Some meta"
    using assms(2) l by (auto simp: Resolve_def split: sum.splits prod.splits option.splits)
  note inv = resolver_reaches_inv [OF assms(1)]
  have "\<exists>metas. vm_for label metas = Some meta \<and> (readAllMetas env r fs = Ok metas \<or>
      (\<exists>t. src = Some (t, metas) \<and> (t1 < t + rv_cacheTTL r \<or> t2 < t + rv_cacheTTL r)))"
  proof (cases "cache_valid t1 s \<or> cache_valid t2 s")
    case True
    then have "s' = s" using rf(1) by (auto simp: refreshCacheIfNeeded_def refresh_locked_def split: if_splits)
    moreover obtain t metas where src: "src = Some (t, metas)"
      using inv rf(2) \<open>s' = s\<close> by (cases src) auto
    ultimately show ?thesis using inv rf(2) True by (auto simp: cache_valid_def)
  next
    case False
    then obtain metas where m: "readAllMetas env r fs = Ok metas"
      using rf(1) by (auto simp: refreshCacheIfNeeded_def refresh_locked_def split: sum.splits)
    then have "rs_cache s' = build_cache (sort_key meta_key metas) []"
      using rf(1) False by (auto simp: refreshCacheIfNeeded_def refresh_locked_def Let_def SliceStable_meta)
    then show ?thesis using rf(2) m by (auto simp: build_cache_get vm_for_def)
  qed
  then show ?thesis using l vm_for_member vm_for_first by blast
qed

text \<open>
  The sort of the resolver is the stable sort by the triple of absent creation time, creation time
  and identifier, and the cache built from it answers each label as a search through the sorted list.
\<close>

theorem cache_equivalence:
  "SliceStable meta_less metas = sort_key meta_key metas \<and>
   (map_of (build_cache (SliceStable meta_less metas) []) label =
      List.find (\<lambda>meta. label \<in> set (aliasesForMeta meta)) (sort_key meta_key metas))"
  by (simp add: SliceStable_meta build_cache_get)


text \<open>A configuration root with two VMs, the younger of which has the older one's host name as an alias of its own.\<close>

definition fwd_fs :: fs where
  "fwd_fs =
     [([''c''], NDir), ([''c'', ''a''], NDir), ([''c'', ''b''], NDir),
      ([''c'', ''a'', ''meta.json''],
         NFile (JSONDoc (JObj [(''id'', JStr ''a''), (''createdAt'', JTime 7), (''guestIP'', JStr ''172.30.0.2''),
           (''httpPort'', JNum ''80''), (''netns'', JStr ''ns-a''), (''tags'', JObj [(''host'', JStr ''web'')])]))),
      ([''c'', ''b'', ''meta.json''],
         NFile (JSONDoc (JObj [(''id'', JStr ''b''), (''createdAt'', JTime 9), (''tags'', JObj [(''host'', JStr '' Web'')])])))]"

definition fwd_resolver :: resolver where
  "fwd_resolver = fst (NewResolver ''/c'' [] ''Example.'' 0)"

definition fwd_state :: resolver_state where
  "fwd_state = snd (NewResolver ''/c'' [] ''Example.'' 0)"

lemma fwd_resolved: "map_sum id meta_ID (snd (Resolve quiet_env fwd_resolver fwd_fs (1, 1, 1) ''WEB.example.'' fwd_state)) = Ok ''a''"
  by code_simp

theorem Resolve_fresh_witness:
  "\<exists>s' meta metas. Resolve quiet_env fwd_resolver fwd_fs (1, 1, 1) ''WEB.example.'' fwd_state = (s', Ok meta) \<and> meta_ID meta = ''a'' \<and>
     readAllMetas quiet_env fwd_resolver fwd_fs = Ok metas \<and> meta \<in> set metas"
proof -
  obtain s' meta where r: "Resolve quiet_env fwd_resolver fwd_fs (1, 1, 1) ''WEB.example.'' fwd_state = (s', Ok meta)" "meta_ID meta = ''a''"
    using fwd_resolved by (cases "Resolve quiet_env fwd_resolver fwd_fs (1, 1, 1) ''WEB.example.'' fwd_state"; cases "snd (Resolve quiet_env fwd_resolver fwd_fs (1, 1, 1) ''WEB.example.'' fwd_state)") auto
  have "resolver_reaches quiet_env fwd_resolver fwd_state None"
    using resolver_new [of quiet_env fwd_resolver] by (simp add: fwd_state_def NewResolver_def Let_def)
  from Resolve_fresh [OF this r(1)] r show ?thesis by auto
qed

section \<open>Server names\<close>

lemma is_space_dot [simp]: "\<not> is_space CHR ''.''"
  by (simp add: is_space_def)

lemma TrimChar_ends: "TrimChar s d \<noteq> [] \<Longrightarrow> last (TrimChar s d) \<noteq> d"
proof -
  assume ne: "TrimChar s d \<noteq> []"
  let ?t = "dropWhile (\<lambda>x. x = d) (rev (dropWhile (\<lambda>x. x = d) s))"
  have "?t \<noteq> []" using ne by (simp add: TrimChar_def)
  then have "hd ?t \<noteq> d" using hd_dropWhile [of "\<lambda>x. x = d"] by blast
  then show ?thesis using \<open>?t \<noteq> []\<close> by (simp add: TrimChar_def last_rev)
qed

lemma ToLower_TrimChar: "ToLower (TrimChar (ToLower s) CHR ''.'') = TrimChar (ToLower s) CHR ''.''"
proof -
  have "set (TrimChar t d) \<subseteq> set t" for t d by (auto simp: TrimChar_def dest!: set_dropWhileD)
  then have "\<forall>c \<in> set (TrimChar (ToLower s) CHR ''.''). lower_char c = c" by (fastforce simp: ToLower_def)
  then show ?thesis by (simp add: ToLower_def map_idI)
qed

lemma normalizeDomainPart_props:
  "ToLower (normalizeDomainPart s) = normalizeDomainPart s"
  "normalizeDomainPart s \<noteq> [] \<Longrightarrow> last (normalizeDomainPart s) \<noteq> CHR ''.''"
  using TrimChar_ends by (simp_all add: normalizeDomainPart_def ToLower_TrimChar)

lemma ToLower_dot: "ToLower (CHR ''.'' # s) = CHR ''.'' # ToLower s"
  by (simp add: ToLower_def lower_char_def)

lemma domainTail_props:
  assumes "r = fst (NewResolver root domainPrefix domainSuffix ttl)"
  shows "ToLower (rv_domainTail r) = rv_domainTail r" "rv_domainTail r \<noteq> []" "last (rv_domainTail r) \<noteq> CHR ''.''"
proof -
  define suf where "suf = (if normalizeDomainPart domainSuffix = [] then ''localhost'' else normalizeDomainPart domainSuffix)"
  define pre where "pre = normalizeDomainPart domainPrefix"
  have t: "rv_domainTail r = (if pre \<noteq> [] then ''.'' @ pre @ ''.'' @ suf else ''.'' @ suf)"
    unfolding assms NewResolver_def suf_def pre_def Let_def by simp
  have "ToLower ''localhost'' = ''localhost''" by code_simp
  then have s: "ToLower suf = suf" "suf \<noteq> []" "last suf \<noteq> CHR ''.''"
    using normalizeDomainPart_props [of domainSuffix] by (auto simp: suf_def)
  have p: "ToLower pre = pre" using normalizeDomainPart_props by (simp add: pre_def)
  show "ToLower (rv_domainTail r) = rv_domainTail r" "rv_domainTail r \<noteq> []" "last (rv_domainTail r) \<noteq> CHR ''.''"
    using s p unfolding t by (auto simp: ToLower_append ToLower_dot)
qed

lemma label_found:
  assumes r: "r = fst (NewResolver root domainPrefix domainSuffix ttl)"
    and label: "label \<noteq> []" "CHR ''.'' \<notin> set label"
    and sp: "\<forall>c \<in> set (label @ rv_domainTail r). \<not> is_space c"
    and name: "ToLower name = label @ rv_domainTail r"
  shows "labelFromServerName r name = Ok label" "labelFromServerName r (name @ ''.'') = Ok label"
proof -
  let ?t = "rv_domainTail r"
  note t = domainTail_props [OF r]
  have nsp: "\<forall>c \<in> set name. \<not> is_space c"
  proof
    fix c
    assume "c \<in> set name"
    then have "lower_char c \<in> set (ToLower name)" by (simp add: ToLower_def)
    then show "\<not> is_space c" using sp name is_space_lower by metis
  qed
  then have tr: "TrimSpace name = name" "TrimSpace (name @ ''.'') = name @ ''.''"
    using TrimSpace_no_space by (simp_all add: TrimSpace_no_space)
  have "last (label @ ?t) \<noteq> CHR ''.''" using t(2,3) by simp
  then have ns: "\<not> HasSuffix (label @ ?t) ''.''"
    using t(2) by (cases "label @ ?t" rule: rev_cases) (auto simp: HasSuffix_def)
  then have a: "TrimSuffix (ToLower (TrimSpace name)) ''.'' = label @ ?t"
    unfolding tr name by (simp add: TrimSuffix_def)
  have "ToLower (name @ ''.'') = (label @ ?t) @ ''.''" using name by (simp add: ToLower_append ToLower_dot)
  then have b: "TrimSuffix (ToLower (TrimSpace (name @ ''.''))) ''.'' = label @ ?t"
    unfolding tr by (simp only: TrimSuffix_append)
  have c: "HasSuffix (label @ ?t) ?t" "TrimSuffix (label @ ?t) ?t = label" by (simp_all add: suffix_def)
  have "label @ ?t \<noteq> []" using label by simp
  then show "labelFromServerName r name = Ok label" "labelFromServerName r (name @ ''.'') = Ok label"
    unfolding labelFromServerName_def a b using c label by (simp_all add: Let_def Contains_char)
qed

text \<open>
  Host names and labels belong together: a label that is a lower-case name without dots is found
  again in the host name made of it and the domain, in any case and with or without the final dot;
  and the label of a name that is accepted is never empty and has no dot.
\<close>

theorem label_roundtrip:
  assumes r: "r = fst (NewResolver root domainPrefix domainSuffix ttl)"
    and label: "label \<noteq> []" "CHR ''.'' \<notin> set label"
    and sp: "\<forall>c \<in> set (label @ rv_domainTail r). \<not> is_space c"
    and name: "ToLower name = label @ rv_domainTail r"
  shows "labelFromServerName r name = Ok label \<and> labelFromServerName r (name @ ''.'') = Ok label \<and>
    (\<forall>other l. labelFromServerName r other = Ok l \<longrightarrow> l \<noteq> [] \<and> CHR ''.'' \<notin> set l)"
  using label_found [OF assms] by (auto simp: labelFromServerName_def Let_def split: if_splits)

theorem label_roundtrip_witness:
  "labelFromServerName fwd_resolver ''Vm-1.EXAMPLE'' = Ok ''vm-1'' \<and> labelFromServerName fwd_resolver ''Vm-1.EXAMPLE.'' = Ok ''vm-1''"
proof -
  have t: "rv_domainTail fwd_resolver = ''.example''" "ToLower ''Vm-1.EXAMPLE'' = ''vm-1.example''" by code_simp+
  then show ?thesis
    using label_roundtrip [of fwd_resolver "''/c''" "[]" "''Example.''" 0 "''vm-1''" "''Vm-1.EXAMPLE''"]
    by (simp add: fwd_resolver_def [symmetric] is_space_def)
qed

section \<open>Routing a connection\<close>

lemma openTargetNS_root: "openTargetNS ne roots netns = Some p \<Longrightarrow> \<exists>root \<in> set roots. p = path_Join [root, netns] \<and> ne_open ne p"
  by (induction roots) (auto simp: Let_def split: if_splits)

lemma DialContext_Ok:
  assumes "DialContext ne roots nw addr netns thread = (thread', Ok c)"
  shows "\<exists>root \<in> set roots. netns \<noteq> [] \<and> ne_dial ne (Named (path_Join [root, netns])) nw addr = Some c"
  using assms openTargetNS_root by (fastforce simp: DialContext_def split: if_splits option.splits)

lemma DialContext_thread:
  assumes "DialContext ne roots nw addr netns thread = (thread', res)"
  shows "thread' = thread \<or> \<not> ne_setns ne thread"
  using assms by (auto simp: DialContext_def split: if_splits option.splits)

text \<open>
  C6: a connection is only ever joined to the VM its server name stands for: when its streams are
  copied to a backend, the resolver gave that VM for the name, and the backend is the guest address
  and HTTP port of that VM, a port from 1 to 65535, dialled inside the VM's network namespace.  In
  every other case no connection to a guest is left open.  The thread is in its own namespace again
  afterwards unless the kernel refuses to change back.
\<close>

theorem handleTLSConn_routes:
  assumes "handleTLSConn env r fs clock ne roots conn s thread = (s', thread', res)"
  shows "(\<forall>meta addr c. res = Proxied meta addr c \<longrightarrow>
      tc_handshake conn \<and> Resolve env r fs clock (ToLower (TrimSpace (tc_serverName conn))) s = (s', Ok meta) \<and>
      addr = JoinHostPort (meta_GuestIP meta) (Itoa (meta_HTTPPort meta)) \<and>
      0 < meta_HTTPPort meta \<and> meta_HTTPPort meta \<le> 65535 \<and>
      (\<exists>root \<in> set roots. ne_dial ne (Named (path_Join [root, meta_NetNS meta])) ''tcp'' addr = Some c)) \<and>
    (res = Dropped \<longleftrightarrow> \<not> tc_handshake conn) \<and>
    (ne_setns ne thread \<longrightarrow> thread' = thread)"
proof -
  consider "\<not> tc_handshake conn" | "tc_handshake conn" "ToLower (TrimSpace (tc_serverName conn)) = []"
    | "tc_handshake conn" "ToLower (TrimSpace (tc_serverName conn)) \<noteq> []" by blast
  then show ?thesis
  proof cases
    case 1
    then show ?thesis using assms by (auto simp: handleTLSConn_def)
  next
    case 2
    then show ?thesis using assms by (auto simp: handleTLSConn_def Let_def)
  next
    case 3
    let ?name = "ToLower (TrimSpace (tc_serverName conn))"
    obtain s1 rr where rs: "Resolve env r fs clock ?name s = (s1, rr)" by fastforce
    note h = assms [unfolded handleTLSConn_def Let_def, simplified 3 rs if_True if_False not_True_eq_False prod.case]
    show ?thesis
    proof (cases "\<exists>meta port. rr = Ok meta \<and> targetHTTPPort meta = Some port")
      case False
      then show ?thesis using h 3 by (auto split: sum.splits option.splits)
    next
      case True
      then obtain meta port where m: "rr = Ok meta" "targetHTTPPort meta = Some port" by blast
      then have p: "port = meta_HTTPPort meta" "0 < port" "port \<le> 65535"
        by (auto simp: targetHTTPPort_def split: if_splits)
      let ?a = "JoinHostPort (meta_GuestIP meta) (Itoa port)"
      obtain th d where dl: "DialContext ne roots ''tcp'' ?a (meta_NetNS meta) thread = (th, d)" by fastforce
      then have "thread' = th" "s' = s1" "res = (case d of Err _ \<Rightarrow> Answered (error_response 502 ''backend unavailable'') | Ok c \<Rightarrow> Proxied meta ?a c)"
        using h m by (auto split: sum.splits)
      then show ?thesis
        using 3 rs m p DialContext_thread [OF dl] DialContext_Ok [of ne roots "''tcp''" ?a "meta_NetNS meta" thread th] dl
        by (auto split: sum.splits)
    qed
  qed
qed

text \<open>A network in which the namespace of the sample VM can be entered and left and its guest answers.\<close>

definition fwd_net :: "string net_env" where
  "fwd_net = \<lparr>ne_open = (\<lambda>p. p \<in> {''/proc/self/ns/net'', ''/run/netns/ns-a''}), ne_setns = (\<lambda>_. True),
              ne_dial = (\<lambda>ns nw addr. if ns = Named ''/run/netns/ns-a'' then Some addr else None)\<rparr>"

theorem handleTLSConn_routes_witness:
  "\<exists>s' meta. handleTLSConn quiet_env fwd_resolver fwd_fs (1, 1, 1) fwd_net (NewNetNSDialer [])
       \<lparr>tc_handshake = True, tc_serverName = ''Web.example''\<rparr> fwd_state Origin =
       (s', Origin, Proxied meta ''172.30.0.2:80'' ''172.30.0.2:80'') \<and>
     ''172.30.0.2:80'' = JoinHostPort (meta_GuestIP meta) (Itoa (meta_HTTPPort meta))"
proof -
  let ?h = "handleTLSConn quiet_env fwd_resolver fwd_fs (1, 1, 1) fwd_net (NewNetNSDialer [])
       \<lparr>tc_handshake = True, tc_serverName = ''Web.example''\<rparr> fwd_state Origin"
  have "(case snd (snd ?h) of Proxied m a c \<Rightarrow> a = ''172.30.0.2:80'' \<and> c = ''172.30.0.2:80'' | _ \<Rightarrow> False)" by code_simp
  then obtain meta where m: "snd (snd ?h) = Proxied meta ''172.30.0.2:80'' ''172.30.0.2:80''"
    by (auto split: outcome.splits)
  obtain s' th where h: "?h = (s', th, Proxied meta ''172.30.0.2:80'' ''172.30.0.2:80'')" using m by (metis prod.collapse)
  have "ne_setns fwd_net Origin" by (simp add: fwd_net_def)
  then show ?thesis using handleTLSConn_routes [OF h] h by auto
qed

section \<open>From the store to the forwarder\<close>

lemma add_alias_keeps: "set out \<subseteq> set (add_alias v out)"
  by (auto simp: add_alias_def Let_def)

lemma add_aliases_key_keeps: "set out \<subseteq> set (add_aliases_key meta key out)"
  by (auto simp: add_aliases_key_def Let_def split: option.splits json.splits intro: subsetD [OF add_alias_keeps])

lemma foldl_keeps:
  assumes "\<And>x out. set out \<subseteq> set (f out x)"
  shows "set out \<subseteq> set (foldl f out xs)"
proof (induction xs arbitrary: out)
  case (Cons x xs)
  then show ?case using assms [of out x] by (simp add: order_trans)
qed simp

lemma alias_ID:
  assumes "ToLower (TrimSpace (meta_ID m)) \<noteq> []"
  shows "ToLower (TrimSpace (meta_ID m)) \<in> set (aliasesForMeta m)"
proof -
  have "ToLower (TrimSpace (meta_ID m)) \<in> set (add_alias (meta_ID m) [])" using assms by (simp add: add_alias_def Let_def)
  then have "ToLower (TrimSpace (meta_ID m)) \<in>
      set (if length (meta_ID m) \<ge> 8 then add_alias (take 8 (meta_ID m)) (add_alias (meta_ID m) []) else add_alias (meta_ID m) [])"
    using add_alias_keeps by (auto split: if_splits)
  moreover have "set out \<subseteq> set (foldl (\<lambda>out key. add_aliases_key m key out) out ks)" for out ks
    by (rule foldl_keeps) (rule add_aliases_key_keeps)
  ultimately show ?thesis unfolding aliasesForMeta_def Let_def by blast
qed

lemma read_all_metas_set:
  "meta \<in> set (read_all_metas env r fs entries) \<longleftrightarrow>
     (\<exists>name j. (name, True) \<in> set entries \<and> os_ReadFile env (path_Join [rv_configRoot r, name, ''meta.json'']) fs = Ok (JSONDoc j) \<and>
        dec_meta j zero_meta = Ok meta)"
proof (induction entries)
  case (Cons e entries)
  then show ?case by (cases e; cases "snd e") (auto split: sum.splits body.splits)
qed simp

lemma path_Join3:
  assumes "file_name x"
  shows "resolve (path_Join [d, x, ''meta.json'']) = resolve d @ [x, ''meta.json'']" "path_Join [d, x, ''meta.json''] \<noteq> []"
proof -
  have x: "x \<noteq> []" "CHR ''/'' \<notin> set x" and m: "file_name ''meta.json''" "CHR ''/'' \<notin> set ''meta.json''"
    using assms by (auto simp: file_name_def)
  have "resolve (e @ CHR ''/'' # ''meta.json'') = resolve e @ [''meta.json'']" for e
    using m by (simp add: resolve_append Split_plain clean_step_name)
  moreover have "resolve (e @ CHR ''/'' # x) = resolve e @ [x]" for e
    using assms x by (simp add: resolve_append Split_plain clean_step_name)
  ultimately show "resolve (path_Join [d, x, ''meta.json'']) = resolve d @ [x, ''meta.json'']"
    using x resolve_name [OF assms] by (auto simp: path_Join_def resolve_path_Clean) (metis append_assoc append_Cons append_Nil)+
  show "path_Join [d, x, ''meta.json''] \<noteq> []" by (simp add: path_Join_def)
qed

lemma stored_meta_read:
  assumes ok: "store_ok env st fs" and root: "rv_configRoot r = st_configRoot st" and id: "ident vid"
    and rd: "ReadMeta env st vid fs = Ok m" "meta_ID m \<noteq> []"
  shows "\<exists>metas. readAllMetas env r fs = Ok metas \<and> m \<in> set metas"
proof -
  have wf: "fs_wf fs" and rs: "reads_ok env" and ro: "roots_ok st" using ok by (auto simp: store_ok_def)
  have fn: "file_name vid" using id by (rule identD)
  obtain b where b: "os_ReadFile env (pa_MetaPath (PathsFor st vid)) fs = Ok b"
    using rd(1) by (auto simp: ReadMeta_def readJSON_def split: option.splits sum.splits)
  then obtain j where j: "b = JSONDoc j" "dec_meta j zero_meta = Ok m"
    using rd by (auto simp: ReadMeta_def readJSON_def zero_meta_def map_err_def split: option.splits sum.splits body.splits if_splits)
  have f: "fs_get fs (croot st @ [vid, ''meta.json'']) = Some (NFile b)"
    using b os_ReadFile_Ok [OF wf] vfile_paths(1) [OF fn, of st] by (simp add: vfile_def)
  have dirs: "fs_get fs (croot st @ [vid]) = Some NDir" "fs_get fs (croot st) = Some NDir"
    using fs_wf_above [OF wf, of "croot st @ [vid]" "[''meta.json'']"] fs_wf_above [OF wf, of "croot st" "[vid, ''meta.json'']"] f by auto
  have "st_configRoot st \<noteq> []" using ro by (simp add: roots_ok_def)
  moreover have "lookup fs (croot st) = Ok NDir" using dirs(2) lookup_Ok [OF wf] by simp
  ultimately have d: "os_ReadDir env (rv_configRoot r) fs = Ok (sort_key fst (children fs (croot st)))"
    using rs unfolding root by (simp add: os_ReadDir_def Let_def reads_ok_def croot_def [symmetric])
  have "(vid, True) \<in> set (sort_key fst (children fs (croot st)))" using dirs(1) children_iff [OF wf] by simp
  moreover have "os_ReadFile env (path_Join [rv_configRoot r, vid, ''meta.json'']) fs = Ok (JSONDoc j)"
    using os_ReadFile_Ok [OF wf] path_Join3 [OF fn] f rs j(1) unfolding root by (simp add: reads_ok_def croot_def)
  ultimately show ?thesis using d j(2) read_all_metas_set by (auto simp: readAllMetas_def)
qed

text \<open>
  The forwarder finds what the daemon stored: for a VM whose metadata can be read from the store,
  with a lower-case identifier such as the daemon gives out, a resolver on the same configuration root
  whose cache is not valid any more answers the host name made of the identifier and the domain with
  exactly this VM, provided that no other VM claims the identifier as an alias.
\<close>

lemma stored_VM_resolves:
  assumes ok: "store_ok env st fs" and r: "r = fst (NewResolver (st_configRoot st) domainPrefix domainSuffix ttl)"
    and vm: "ident vid" "ReadMeta env st vid fs = Ok m" "meta_ID m = vid"
    and name: "ToLower vid = vid" "CHR ''.'' \<notin> set vid" "\<forall>c \<in> set (vid @ rv_domainTail r). \<not> is_space c"
    and stale: "\<not> cache_valid t1 s" "\<not> cache_valid t2 s"
    and only: "\<forall>metas. readAllMetas env r fs = Ok metas \<longrightarrow> (\<forall>m' \<in> set metas. vid \<in> set (aliasesForMeta m') \<longrightarrow> m' = m)"
  shows "snd (Resolve env r fs (t1, t2, t3) (vid @ rv_domainTail r) s) = Ok m"
proof -
  have ne: "vid \<noteq> []" using identD(1) [OF vm(1)] by (simp add: file_name_def)
  have "rv_configRoot r = st_configRoot st" unfolding r NewResolver_def Let_def by simp
  from stored_meta_read [OF ok this vm(1,2)] obtain metas where ms: "readAllMetas env r fs = Ok metas" "m \<in> set metas"
    using vm(3) ne by auto
  have "TrimSpace vid = vid" by (rule TrimSpace_no_space) (use name(3) in simp)
  then have al: "vid \<in> set (aliasesForMeta m)" using alias_ID [of m] vm(3) name(1) ne by simp
  have "vm_for vid metas = Some m"
  proof (cases "vm_for vid metas")
    case None
    then show ?thesis using ms(2) al by (auto simp: vm_for_None)
  next
    case (Some m')
    then show ?thesis using vm_for_member [OF Some] only ms(1) by blast
  qed
  moreover have "labelFromServerName r (vid @ rv_domainTail r) = Ok vid"
    by (rule label_found [OF r ne name(2,3)]) (use name(1) domainTail_props(1) [OF r] in simp)
  ultimately show ?thesis using ms(1) stale
    by (simp add: Resolve_def refreshCacheIfNeeded_def refresh_locked_def Let_def SliceStable_meta build_cache_get vm_for_def)
qed

section \<open>Bookkeeping of connections\<close>

text \<open>The handlers that have not taken their one off the counter, and those whose connection is tracked.\<close>

definition fwd_live :: "(nat \<Rightarrow> handler) \<Rightarrow> nat set" where
  "fwd_live hs = {c. hs c \<in> {HRunning, HClosed, HUntracked}}"

definition fwd_inv :: "fwd_server \<Rightarrow> bool" where
  "fwd_inv s \<longleftrightarrow>
     finite (fwd_live (fw_handlers s)) \<and> fw_wg s = int (card (fwd_live (fw_handlers s))) \<and> distinct (fw_conns s) \<and>
     set (fw_conns s) = {c. fw_handlers s c \<in> {HRunning, HClosed} \<or> fw_listener s = Tracking c} \<and>
     (\<forall>c. fw_listener s = Tracking c \<longrightarrow> fw_handlers s c = HNone)"

lemma fwd_live_upd:
  "fwd_live (hs(c := h)) = (if h \<in> {HRunning, HClosed, HUntracked} then insert c (fwd_live hs) else fwd_live hs - {c})"
  by (auto simp: fwd_live_def)

lemma fwd_step_inv: "fwd_step s s' \<Longrightarrow> fwd_inv s \<Longrightarrow> fwd_inv s'"
proof (induction rule: fwd_step.induct)
  case (fwd_accept s c)
  then show ?case by (auto simp: fwd_inv_def fwd_live_upd trackConn_def)
next
  case (fwd_spawn s c)
  then have "c \<notin> fwd_live (fw_handlers s)" by (auto simp: fwd_inv_def fwd_live_def)
  then show ?case using fwd_spawn by (auto simp: fwd_inv_def fwd_live_upd)
next
  case (fwd_stop s)
  then show ?case by (auto simp: fwd_inv_def fwd_live_upd)
next
  case (fwd_close s c)
  then have "c \<in> fwd_live (fw_handlers s)" by (auto simp: fwd_live_def)
  then show ?case using fwd_close by (auto simp: fwd_inv_def fwd_live_upd insert_absorb)
next
  case (fwd_untrack s c)
  then have "c \<in> fwd_live (fw_handlers s)" by (auto simp: fwd_live_def)
  then show ?case using fwd_untrack by (auto simp: fwd_inv_def fwd_live_upd insert_absorb untrackConn_def distinct_removeAll)
next
  case (fwd_done s c)
  then have "c \<in> fwd_live (fw_handlers s)" by (auto simp: fwd_live_def)
  moreover have "finite (fwd_live (fw_handlers s))" using fwd_done by (simp add: fwd_inv_def)
  ultimately have "card (fwd_live (fw_handlers s)) = Suc (card (fwd_live (fw_handlers s) - {c}))" by (metis card_Suc_Diff1)
  then show ?case using fwd_done by (auto simp: fwd_inv_def fwd_live_upd)
qed

lemma fwd_reachable_inv: "fwd_reachable s \<Longrightarrow> fwd_inv s"
proof (induction rule: fwd_reachable.induct)
  case fwd_init
  then show ?case by (simp add: fwd_inv_def fwd_start_def fwd_live_def)
next
  case (fwd_next s s')
  then show ?case using fwd_step_inv by blast
qed



end
