(* ===== verification/Forwarder_Run.thy ===== *)
theory Forwarder_Run
  imports Forwarder_Spec
begin

text \<open>
  \<open>src/internal/forwarder/server.go\<close>, the life of the server: making it, the loop that accepts
  connections, the copying of data between client and guest, and the shutdown.  The network is a
  parameter: the results of the calls in the order in which they are made.
\<close>

section \<open>The server\<close>

datatype server_err = ResolverNil | DialerNil | CertErr | ListenErr | AcceptErr

record ('r, 'd, 'c) server =
  se_config :: fwd_config
  se_resolver :: 'r
  se_dialer :: 'd
  se_cert :: 'c

definition NewServer ::
  "(string \<Rightarrow> string \<Rightarrow> 'c option) \<Rightarrow> fwd_config \<Rightarrow> 'r option \<Rightarrow> 'd option \<Rightarrow> (server_err, ('r, 'd, 'c) server) result" where
  "NewServer loadKeyPair cfg resolver dialer =
     (case resolver of
        None \<Rightarrow> Err ResolverNil
      | Some r \<Rightarrow>
     (case dialer of
        None \<Rightarrow> Err DialerNil
      | Some d \<Rightarrow>
     (case loadKeyPair (fc_CertFile cfg) (fc_KeyFile cfg) of
        None \<Rightarrow> Err CertErr
      | Some cert \<Rightarrow> Ok \<lparr>se_config = cfg, se_resolver = r, se_dialer = d, se_cert = cert\<rparr>)))"

section \<open>Accepting\<close>

text \<open>
  The result of an accept call: a connection, or an error with what \<open>isTemporary\<close> says of it and whether
  the context was cancelled by then.
\<close>

datatype accept_result = Accepted nat | AcceptFails (temporary: bool) (cancelled: bool)

partial_function (option) accept_loop :: "(nat \<Rightarrow> accept_result) \<Rightarrow> nat \<Rightarrow> nat list \<Rightarrow> (nat list \<times> (server_err, unit) result) option" where
  "accept_loop accepts n started =
     (case accepts n of
        AcceptFails temp canc \<Rightarrow>
          if canc then Some (started, Ok ())
          else if temp then accept_loop accepts (Suc n) started
          else Some (started, Err AcceptErr)
      | Accepted conn \<Rightarrow> accept_loop accepts (Suc n) (started @ [conn]))"

definition runTLSListener :: "(string \<Rightarrow> bool) \<Rightarrow> (nat \<Rightarrow> accept_result) \<Rightarrow> string \<Rightarrow> (nat list \<times> (server_err, unit) result) option" where
  "runTLSListener listen accepts listenAddr =
     (if \<not> listen listenAddr then Some ([], Err ListenErr) else accept_loop accepts 0 [])"

section \<open>Shutdown\<close>

text \<open>
  \<open>waitForConnections\<close>: \<open>drained\<close> says when the wait group is down to zero by itself, if ever, in
  nanoseconds after the call.  When that is not before the timeout, all tracked connections are closed and
  the group is waited for again; \<open>ends\<close> says whether it gets to zero then.  It need not: the handler of a
  closed client still reads from its guest until the guest closes the connection.  The answer is the list
  of the connections that were closed, and \<open>None\<close> when the call does not return.
\<close>

definition shutdown_timeout :: "int \<Rightarrow> int" where
  "shutdown_timeout t = (if t \<le> 0 then 15 * 1000000000 else t)"

definition closeAllConnections :: "nat list \<Rightarrow> nat list" where
  "closeAllConnections conns = conns"

definition waitForConnections :: "int \<Rightarrow> int option \<Rightarrow> bool \<Rightarrow> nat list \<Rightarrow> nat list option" where
  "waitForConnections timeout drained ends conns =
     (case drained of
        Some t \<Rightarrow> if t < shutdown_timeout timeout then Some [] else if ends then Some (closeAllConnections conns) else None
      | None \<Rightarrow> if ends then Some (closeAllConnections conns) else None)"

definition server_Run ::
  "(string \<Rightarrow> bool) \<Rightarrow> (nat \<Rightarrow> accept_result) \<Rightarrow> fwd_config \<Rightarrow> int option \<Rightarrow> bool \<Rightarrow> nat list \<Rightarrow>
   (nat list \<times> (server_err, nat list) result) option" where
  "server_Run listen accepts cfg drained ends conns =
     (case runTLSListener listen accepts (fc_HTTPSAddr cfg) of
        None \<Rightarrow> None
      | Some (started, Err e) \<Rightarrow> Some (started, Err e)
      | Some (started, Ok _) \<Rightarrow>
          (case waitForConnections (fc_ShutdownTimeout cfg) drained ends conns of
             None \<Rightarrow> None
           | Some closed \<Rightarrow> Some (started, Ok closed)))"

section \<open>Copying\<close>

text \<open>
  One direction of \<open>proxyStreams\<close>: what the source still has to deliver before it ends, what was written to the
  destination, and where the goroutine is.  \<open>io.Copy\<close> moves some bytes at a time until the source ends
  or a read or write fails; then the write side of the destination is closed.
\<close>

datatype copy_phase = Copying | Closing | Finished

record stream =
  sm_input :: string
  sm_output :: string
  sm_phase :: copy_phase
  sm_failed :: bool

definition new_stream :: "string \<Rightarrow> stream" where
  "new_stream s = \<lparr>sm_input = s, sm_output = [], sm_phase = Copying, sm_failed = False\<rparr>"

inductive copy_step :: "stream \<Rightarrow> stream \<Rightarrow> bool" where
  copy_chunk:
    "sm_phase s = Copying \<Longrightarrow> sm_input s = chunk @ rest \<Longrightarrow> chunk \<noteq> [] \<Longrightarrow>
     copy_step s (s\<lparr>sm_input := rest, sm_output := sm_output s @ chunk\<rparr>)"
| copy_eof: "sm_phase s = Copying \<Longrightarrow> sm_input s = [] \<Longrightarrow> copy_step s (s\<lparr>sm_phase := Closing\<rparr>)"
| copy_error:
    "sm_phase s = Copying \<Longrightarrow> prefix part (sm_input s) \<Longrightarrow>
     copy_step s (s\<lparr>sm_output := sm_output s @ part, sm_phase := Closing, sm_failed := True\<rparr>)"
| copy_close: "sm_phase s = Closing \<Longrightarrow> copy_step s (s\<lparr>sm_phase := Finished\<rparr>)"

text \<open>The two directions run side by side; \<open>proxyStreams\<close> returns when both are finished.\<close>

inductive proxy_step :: "stream \<times> stream \<Rightarrow> stream \<times> stream \<Rightarrow> bool" where
  to_backend: "copy_step a a' \<Longrightarrow> proxy_step (a, b) (a', b)"
| to_client: "copy_step b b' \<Longrightarrow> proxy_step (a, b) (a, b')"

inductive proxy_reachable :: "string \<Rightarrow> string \<Rightarrow> stream \<times> stream \<Rightarrow> bool" for client backend where
  proxy_start: "proxy_reachable client backend (new_stream client, new_stream backend)"
| proxy_next: "proxy_reachable client backend s \<Longrightarrow> proxy_step s s' \<Longrightarrow> proxy_reachable client backend s'"

definition proxy_returned :: "stream \<times> stream \<Rightarrow> bool" where
  "proxy_returned s \<longleftrightarrow> sm_phase (fst s) = Finished \<and> sm_phase (snd s) = Finished"

inductive_cases copy_stepE: "copy_step s s'"
inductive_simps proxy_step_simps: "proxy_step (a, b) s'"

section \<open>Properties of the listener\<close>

definition final_accept :: "accept_result \<Rightarrow> bool" where
  "final_accept r = (case r of Accepted _ \<Rightarrow> False | AcceptFails temp canc \<Rightarrow> canc \<or> \<not> temp)"

definition accepted_of :: "accept_result list \<Rightarrow> nat list" where
  "accepted_of rs = concat (map (\<lambda>r. case r of Accepted c \<Rightarrow> [c] | _ \<Rightarrow> []) rs)"

lemma accept_loop_step:
  "accept_loop accepts n started =
     (if final_accept (accepts n) then Some (started, if cancelled (accepts n) then Ok () else Err AcceptErr)
      else accept_loop accepts (Suc n) (started @ accepted_of [accepts n]))"
  by (subst accept_loop.simps) (auto simp: final_accept_def accepted_of_def split: accept_result.splits)

lemma accept_loop_until:
  assumes "final_accept (accepts N)" "\<And>i. n \<le> i \<Longrightarrow> i < N \<Longrightarrow> \<not> final_accept (accepts i)" "n \<le> N"
  shows "accept_loop accepts n started =
    Some (started @ accepted_of (map accepts [n ..< N]), if cancelled (accepts N) then Ok () else Err AcceptErr)"
  using assms(2,3)
proof (induction "N - n" arbitrary: n started)
  case 0
  then show ?case using assms(1) by (subst accept_loop_step) (simp add: accepted_of_def)
next
  case (Suc d)
  then have n: "n < N" "d = N - Suc n" "\<not> final_accept (accepts n)" by auto
  have "accepted_of (map accepts [n ..< N]) = accepted_of [accepts n] @ accepted_of (map accepts [Suc n ..< N])"
    using n(1) by (simp add: accepted_of_def upt_conv_Cons)
  then show ?case using Suc(1) [OF n(2)] Suc(3) n by (subst accept_loop_step) simp
qed

lemma accept_loop_raw:
  assumes ret: "accept_loop accepts n started = Some y"
  shows "\<exists>i \<ge> n. final_accept (accepts i)"
proof (rule accept_loop.raw_induct [where P = "\<lambda>accepts n started y. \<exists>i \<ge> n. final_accept (accepts i)", OF _ ret])
  fix f :: "(nat \<Rightarrow> accept_result) \<Rightarrow> nat \<Rightarrow> nat list \<Rightarrow> (nat list \<times> (server_err, unit) result) option" and accepts n started y
  assume IH: "\<And>accepts n started y. f accepts n started = Some y \<Longrightarrow> \<exists>i \<ge> n. final_accept (accepts i)"
    and eq: "(case accepts n of
        AcceptFails temp canc \<Rightarrow>
          if canc then Some (started, Ok ())
          else if temp then f accepts (Suc n) started
          else Some (started, Err AcceptErr)
      | Accepted conn \<Rightarrow> f accepts (Suc n) (started @ [conn])) = Some y"
  show "\<exists>i \<ge> n. final_accept (accepts i)"
  proof (cases "final_accept (accepts n)")
    case False
    then obtain st where "f accepts (Suc n) st = Some y"
      using eq by (auto simp: final_accept_def split: accept_result.splits if_splits)
    from IH [OF this] show ?thesis by (meson Suc_leD)
  qed auto
qed

text \<open>
  The listener starts a handler for every connection it accepts, in order and through any number of
  temporary errors, until the first other error or the first error after the context was cancelled; the
  latter is an orderly end.  Without such an error it goes on.
\<close>

theorem listener_ends:
  "(final_accept (accepts N) \<and> (\<forall>i < N. \<not> final_accept (accepts i)) \<and> listen addr \<longrightarrow>
      runTLSListener listen accepts addr =
        Some (accepted_of (map accepts [0 ..< N]), if cancelled (accepts N) then Ok () else Err AcceptErr)) \<and>
   ((\<forall>i. \<not> final_accept (accepts i)) \<and> listen addr \<longrightarrow> runTLSListener listen accepts addr = None)"
proof -
  have "(\<forall>i. \<not> final_accept (accepts i)) \<longrightarrow> accept_loop accepts 0 [] = None"
    using accept_loop_raw by (metis not_None_eq)
  then show ?thesis using accept_loop_until [of accepts N 0 "[]"] by (simp add: runTLSListener_def)
qed

section \<open>Properties of the copying\<close>

text \<open>What one direction has written and has still to read is its input, unless it failed.\<close>

definition stream_inv :: "string \<Rightarrow> stream \<Rightarrow> bool" where
  "stream_inv s st \<longleftrightarrow>
     prefix (sm_output st) s \<and>
     (\<not> sm_failed st \<longrightarrow> s = sm_output st @ sm_input st \<and> (sm_phase st \<noteq> Copying \<longrightarrow> sm_input st = []))"

lemma copy_step_inv: "copy_step st st' \<Longrightarrow> stream_inv s st \<and> (sm_failed st \<longrightarrow> sm_phase st \<noteq> Copying) \<Longrightarrow>
   stream_inv s st' \<and> (sm_failed st' \<longrightarrow> sm_phase st' \<noteq> Copying)"
  by (erule copy_stepE) (auto simp: stream_inv_def prefix_def)

lemma proxy_inv:
  assumes "proxy_reachable client backend s"
  shows "stream_inv client (fst s) \<and> (sm_failed (fst s) \<longrightarrow> sm_phase (fst s) \<noteq> Copying) \<and>
    stream_inv backend (snd s) \<and> (sm_failed (snd s) \<longrightarrow> sm_phase (snd s) \<noteq> Copying)"
  using assms
proof (induction rule: proxy_reachable.induct)
  case proxy_start
  then show ?case by (simp add: stream_inv_def new_stream_def)
next
  case (proxy_next s s')
  then show ?case by (cases s) (auto simp: proxy_step_simps dest: copy_step_inv)
qed

text \<open>The work that is left decreases with every step.\<close>

definition stream_work :: "stream \<Rightarrow> nat" where
  "stream_work st = (case sm_phase st of Copying \<Rightarrow> length (sm_input st) + 2 | Closing \<Rightarrow> 1 | Finished \<Rightarrow> 0)"

lemma copy_step_work: "copy_step st st' \<Longrightarrow> stream_work st' < stream_work st"
  by (erule copy_stepE) (auto simp: stream_work_def)

lemma copy_progress: "sm_phase st \<noteq> Finished \<Longrightarrow> \<exists>st'. copy_step st st'"
proof (cases "sm_phase st")
  case Copying
  then show ?thesis
  proof (cases "sm_input st")
    case (Cons c cs)
    then have "sm_input st = [c] @ cs" by simp
    from copy_chunk [OF Copying this] show ?thesis by blast
  qed (blast intro: copy_eof)
qed (auto intro: copy_close)

lemma proxy_terminates: "wfp (\<lambda>s' s. proxy_step s s')"
proof (rule wfp_if_convertible_to_nat)
  fix s s' :: "stream \<times> stream"
  assume "proxy_step s' s"
  then show "stream_work (fst s) + stream_work (snd s) < stream_work (fst s') + stream_work (snd s')"
    by (cases rule: proxy_step.cases) (auto dest: copy_step_work)
qed



end
