(* ===== verification/Converter.thy ===== *)
theory Converter
  imports Store_Spec
begin

text \<open>
  \<open>src/internal/converter/converter.go\<close>: the conversion of a container image into a root file system.
  Modelled are the options, the selection of the image manifest, the cache of image blobs, the start
  command and port taken from the image's configuration, and the files with metadata and the
  suggested request.  The registry, the digest library and the unpacking of layers are parameters.
\<close>

section \<open>Options\<close>

definition defaultOutputBase :: string where "defaultOutputBase = ''./artifacts/converter''"
definition defaultSbinInitPath :: string where "defaultSbinInitPath = ''./artifacts/sbin-init/sbin-init''"
definition converterBootArgs :: string where
  "converterBootArgs = ''console=ttyS0 reboot=k panic=1 pci=off init=/sbin/init mergen.meta=/etc/mergen/image-meta.json''"
definition defaultRootFSOverhead :: int where "defaultRootFSOverhead = 256"

record conv_options =
  op_Image :: string
  op_OutputDir :: string
  op_Name :: string
  op_SizeMiB :: int
  op_SkipPull :: bool
  op_SbinInitPath :: string

definition is_lower :: "char \<Rightarrow> bool" where
  "is_lower c \<longleftrightarrow> CHR ''a'' \<le> c \<and> c \<le> CHR ''z''"

definition is_upper :: "char \<Rightarrow> bool" where
  "is_upper c \<longleftrightarrow> CHR ''A'' \<le> c \<and> c \<le> CHR ''Z''"

text \<open>The loop over the runes of the name: a rune outside of ASCII is dropped, as are its bytes here.\<close>

definition sanitize_char :: "char \<Rightarrow> string" where
  "sanitize_char c =
     (if is_lower c then [c]
      else if is_upper c then [c]
      else if is_digit c then [c]
      else if c \<in> {CHR ''.'', CHR ''_'', CHR ''-''} then [c]
      else if c \<in> {CHR ''/'', CHR '':'', CHR ''@''} then ''-''
      else [])"

definition sanitizeName :: "string \<Rightarrow> string" where
  "sanitizeName raw =
     (let out = TrimChar (concat (map sanitize_char raw)) CHR ''-''
      in if out = [] then ''image-rootfs'' else out)"

datatype conv_err =
    ImageRequired
  | NegativeSize int
  | NonPositiveSize
  | CommandMissing string
  | CommandFailed string
  | FileErr oserr
  | RegistryErr
  | ManifestListEmpty
  | NestingTooDeep
  | StillAList
  | ManifestDecode
  | NoLayers
  | NoConfigDigest
  | BadDigest
  | DigestMismatch
  | ConfigDecode
  | LayerApply

definition normalizeOptions :: "conv_options \<Rightarrow> (conv_err, conv_options) result" where
  "normalizeOptions opts =
     (let img = TrimSpace (op_Image opts)
      in if img = [] then Err ImageRequired
         else
           let name0 = TrimSpace (op_Name opts);
               name = (if name0 = [] then sanitizeName img else name0);
               out0 = TrimSpace (op_OutputDir opts);
               outputDir = (if out0 = [] then path_Join [defaultOutputBase, name] else out0);
               init0 = TrimSpace (op_SbinInitPath opts);
               sbinInitPath = (if init0 = [] then defaultSbinInitPath else init0)
           in if op_SizeMiB opts < 0 then Err (NegativeSize (op_SizeMiB opts))
              else Ok \<lparr>op_Image = img, op_OutputDir = outputDir, op_Name = name, op_SizeMiB = op_SizeMiB opts,
                       op_SkipPull = op_SkipPull opts, op_SbinInitPath = sbinInitPath\<rparr>)"

definition ensureCommand :: "(string \<Rightarrow> string option) \<Rightarrow> string \<Rightarrow> conv_err option" where
  "ensureCommand lookPath name = (case lookPath name of None \<Rightarrow> Some (CommandMissing name) | Some _ \<Rightarrow> None)"

section \<open>The image's configuration\<close>

record image_config =
  ic_Entrypoint :: "string list"
  ic_Cmd :: "string list"
  ic_Env :: "string list"
  ic_WorkingDir :: string
  ic_User :: string
  ic_ExposedPorts :: "unit gomap"

definition zero_image_config :: image_config where
  "zero_image_config =
     \<lparr>ic_Entrypoint = [], ic_Cmd = [], ic_Env = [], ic_WorkingDir = [], ic_User = [], ic_ExposedPorts = []\<rparr>"

text \<open>\<open>struct{}\<close>: any object will do.\<close>

definition dec_unit :: "json \<Rightarrow> unit \<Rightarrow> (json_error, unit) result" where
  "dec_unit j old = (case j of JObj _ \<Rightarrow> Ok () | JNull \<Rightarrow> Ok () | _ \<Rightarrow> Err TypeMismatch)"

fun dec_image_config_member :: "string \<times> json \<Rightarrow> image_config \<Rightarrow> (json_error, image_config) result" where
  "dec_image_config_member (k, j) c =
     (let f = field_key [''Entrypoint'', ''Cmd'', ''Env'', ''WorkingDir'', ''User'', ''ExposedPorts''] k in
      if f = Some ''Entrypoint'' then dec_field (dec_list dec_str []) j (ic_Entrypoint c) (\<lambda>v. c\<lparr>ic_Entrypoint := v\<rparr>)
      else if f = Some ''Cmd'' then dec_field (dec_list dec_str []) j (ic_Cmd c) (\<lambda>v. c\<lparr>ic_Cmd := v\<rparr>)
      else if f = Some ''Env'' then dec_field (dec_list dec_str []) j (ic_Env c) (\<lambda>v. c\<lparr>ic_Env := v\<rparr>)
      else if f = Some ''WorkingDir'' then dec_field dec_str j (ic_WorkingDir c) (\<lambda>v. c\<lparr>ic_WorkingDir := v\<rparr>)
      else if f = Some ''User'' then dec_field dec_str j (ic_User c) (\<lambda>v. c\<lparr>ic_User := v\<rparr>)
      else if f = Some ''ExposedPorts'' then dec_field (dec_map dec_unit ()) j (ic_ExposedPorts c) (\<lambda>v. c\<lparr>ic_ExposedPorts := v\<rparr>)
      else Ok c)"

definition dec_image_config :: "json \<Rightarrow> image_config \<Rightarrow> (json_error, image_config) result" where
  "dec_image_config = dec_struct dec_image_config_member"

fun dec_config_blob_member :: "string \<times> json \<Rightarrow> image_config \<Rightarrow> (json_error, image_config) result" where
  "dec_config_blob_member (k, j) c =
     (if field_key [''config''] k = Some ''config'' then dec_image_config j c else Ok c)"

definition parse_config_blob :: "body \<Rightarrow> (conv_err, image_config) result" where
  "parse_config_blob b =
     (case b of
        Raw _ \<Rightarrow> Err ConfigDecode
      | JSONDoc j \<Rightarrow> map_err (\<lambda>_. ConfigDecode) (dec_struct dec_config_blob_member j zero_image_config))"

definition composeStartCommand :: "string list \<Rightarrow> string list \<Rightarrow> string list" where
  "composeStartCommand entrypoint cmd =
     (let joined = entrypoint @ cmd in if length joined = 0 then [''/bin/sh''] else joined)"

definition exposedPortsList :: "unit gomap \<Rightarrow> string list" where
  "exposedPortsList ports = sort (map fst ports)"

text \<open>\<open>inferHTTPPort\<close>: the candidates in the order in which the map is traversed, then sorted.\<close>

record candidate =
  ca_port :: int
  ca_tcp :: bool

definition port_candidate :: "string \<Rightarrow> candidate option" where
  "port_candidate key =
     (case Split key CHR ''/'' of
        [a, b] \<Rightarrow>
          (case Atoi a of
             None \<Rightarrow> None
           | Some port \<Rightarrow>
               if port \<le> 0 \<or> port > 65535 then None else Some \<lparr>ca_port = port, ca_tcp = EqualFold b ''tcp''\<rparr>)
      | _ \<Rightarrow> None)"

definition candidate_less :: "candidate \<Rightarrow> candidate \<Rightarrow> bool" where
  "candidate_less a b = (if ca_tcp a = ca_tcp b then ca_port a < ca_port b else ca_tcp a)"

definition inferHTTPPort :: "string list \<Rightarrow> int" where
  "inferHTTPPort exposed =
     (if length exposed = 0 then 0
      else
        let candidates = List.map_filter port_candidate exposed
        in if length candidates = 0 then 0
           else
             let cs = SliceStable candidate_less candidates
             in case List.find (\<lambda>c. ca_tcp c \<and> ca_port c \<in> {80, 8080, 3000, 8000}) cs of
                  Some c \<Rightarrow> ca_port c
                | None \<Rightarrow>
                    (case List.find ca_tcp cs of
                       Some c \<Rightarrow> ca_port c
                     | None \<Rightarrow> ca_port (hd cs)))"

section \<open>Manifests\<close>

record platform_spec =
  pl_Architecture :: string
  pl_OS :: string
  pl_Variant :: string

record descriptor =
  de_MediaType :: string
  de_Digest :: string
  de_Size :: int
  de_URLs :: "string list"
  de_Platform :: "platform_spec option"

record manifest_list =
  ml_MediaType :: string
  ml_Manifests :: "descriptor list"

record image_manifest =
  im_MediaType :: string
  im_Config :: descriptor
  im_Layers :: "descriptor list"

definition zero_platform :: platform_spec where
  "zero_platform = \<lparr>pl_Architecture = [], pl_OS = [], pl_Variant = []\<rparr>"

definition zero_descriptor :: descriptor where
  "zero_descriptor = \<lparr>de_MediaType = [], de_Digest = [], de_Size = 0, de_URLs = [], de_Platform = None\<rparr>"

definition zero_manifest_list :: manifest_list where
  "zero_manifest_list = \<lparr>ml_MediaType = [], ml_Manifests = []\<rparr>"

definition zero_image_manifest :: image_manifest where
  "zero_image_manifest = \<lparr>im_MediaType = [], im_Config = zero_descriptor, im_Layers = []\<rparr>"

fun dec_platform_member :: "string \<times> json \<Rightarrow> platform_spec \<Rightarrow> (json_error, platform_spec) result" where
  "dec_platform_member (k, j) p =
     (let f = field_key [''architecture'', ''os'', ''variant''] k in
      if f = Some ''architecture'' then dec_field dec_str j (pl_Architecture p) (\<lambda>v. p\<lparr>pl_Architecture := v\<rparr>)
      else if f = Some ''os'' then dec_field dec_str j (pl_OS p) (\<lambda>v. p\<lparr>pl_OS := v\<rparr>)
      else if f = Some ''variant'' then dec_field dec_str j (pl_Variant p) (\<lambda>v. p\<lparr>pl_Variant := v\<rparr>)
      else Ok p)"

fun dec_descriptor_member :: "string \<times> json \<Rightarrow> descriptor \<Rightarrow> (json_error, descriptor) result" where
  "dec_descriptor_member (k, j) d =
     (let f = field_key [''mediaType'', ''digest'', ''size'', ''urls'', ''platform''] k in
      if f = Some ''mediaType'' then dec_field dec_str j (de_MediaType d) (\<lambda>v. d\<lparr>de_MediaType := v\<rparr>)
      else if f = Some ''digest'' then dec_field dec_str j (de_Digest d) (\<lambda>v. d\<lparr>de_Digest := v\<rparr>)
      else if f = Some ''size'' then dec_field dec_int j (de_Size d) (\<lambda>v. d\<lparr>de_Size := v\<rparr>)
      else if f = Some ''urls'' then dec_field (dec_list dec_str []) j (de_URLs d) (\<lambda>v. d\<lparr>de_URLs := v\<rparr>)
      else if f = Some ''platform'' then
        dec_field (dec_ptr (dec_struct dec_platform_member) zero_platform) j (de_Platform d) (\<lambda>v. d\<lparr>de_Platform := v\<rparr>)
      else Ok d)"

definition dec_descriptor :: "json \<Rightarrow> descriptor \<Rightarrow> (json_error, descriptor) result" where
  "dec_descriptor = dec_struct dec_descriptor_member"

fun dec_manifest_list_member :: "string \<times> json \<Rightarrow> manifest_list \<Rightarrow> (json_error, manifest_list) result" where
  "dec_manifest_list_member (k, j) l =
     (let f = field_key [''mediaType'', ''manifests''] k in
      if f = Some ''mediaType'' then dec_field dec_str j (ml_MediaType l) (\<lambda>v. l\<lparr>ml_MediaType := v\<rparr>)
      else if f = Some ''manifests'' then
        dec_field (dec_list dec_descriptor zero_descriptor) j (ml_Manifests l) (\<lambda>v. l\<lparr>ml_Manifests := v\<rparr>)
      else Ok l)"

fun dec_image_manifest_member :: "string \<times> json \<Rightarrow> image_manifest \<Rightarrow> (json_error, image_manifest) result" where
  "dec_image_manifest_member (k, j) m =
     (let f = field_key [''mediaType'', ''config'', ''layers''] k in
      if f = Some ''mediaType'' then dec_field dec_str j (im_MediaType m) (\<lambda>v. m\<lparr>im_MediaType := v\<rparr>)
      else if f = Some ''config'' then dec_field dec_descriptor j (im_Config m) (\<lambda>v. m\<lparr>im_Config := v\<rparr>)
      else if f = Some ''layers'' then
        dec_field (dec_list dec_descriptor zero_descriptor) j (im_Layers m) (\<lambda>v. m\<lparr>im_Layers := v\<rparr>)
      else Ok m)"

definition parseManifestList :: "body \<Rightarrow> manifest_list option" where
  "parseManifestList b =
     (case b of
        Raw _ \<Rightarrow> None
      | JSONDoc j \<Rightarrow>
          (case dec_struct dec_manifest_list_member j zero_manifest_list of
             Err _ \<Rightarrow> None
           | Ok list \<Rightarrow> if length (ml_Manifests list) = 0 then None else Some list))"

definition parseImageManifest :: "body \<Rightarrow> (conv_err, image_manifest) result" where
  "parseImageManifest b =
     (if parseManifestList b \<noteq> None then Err StillAList
      else case b of
             Raw _ \<Rightarrow> Err ManifestDecode
           | JSONDoc j \<Rightarrow>
               (case dec_struct dec_image_manifest_member j zero_image_manifest of
                  Err _ \<Rightarrow> Err ManifestDecode
                | Ok m \<Rightarrow>
                    if length (im_Layers m) = 0 then Err NoLayers
                    else if TrimSpace (de_Digest (im_Config m)) = [] then Err NoConfigDigest
                    else Ok m))"

text \<open>The entry for the platform of the host; otherwise the first without a platform, otherwise the first.\<close>

definition selectManifestDescriptor :: "string \<Rightarrow> string \<Rightarrow> descriptor list \<Rightarrow> (conv_err, descriptor) result" where
  "selectManifestDescriptor targetOS targetArch manifests =
     (if length manifests = 0 then Err ManifestListEmpty
      else case List.find (\<lambda>d. case de_Platform d of
                                 None \<Rightarrow> False
                               | Some p \<Rightarrow> EqualFold (pl_OS p) targetOS \<and> EqualFold (pl_Architecture p) targetArch) manifests of
             Some d \<Rightarrow> Ok d
           | None \<Rightarrow>
               (case List.find (\<lambda>d. de_Platform d = None) manifests of
                  Some d \<Rightarrow> Ok d
                | None \<Rightarrow> Ok (hd manifests)))"

text \<open>
  The libraries the converter calls: \<open>dg_parse\<close> is \<open>digest.Parse\<close> followed by \<open>Validate\<close>,
  \<open>dg_hash\<close> the digest of a content under an algorithm; the source gives manifests and blobs.
\<close>

record digest_lib =
  dg_parse :: "string \<Rightarrow> string option"
  dg_algorithm :: "string \<Rightarrow> string"
  dg_encoded :: "string \<Rightarrow> string"
  dg_hash :: "string \<Rightarrow> body \<Rightarrow> string"

record image_source =
  is_manifest :: "string option \<Rightarrow> body option"
  is_blob :: "string \<Rightarrow> body option"

definition parseDigest :: "digest_lib \<Rightarrow> string \<Rightarrow> (conv_err, string) result" where
  "parseDigest dl raw = (case dg_parse dl (TrimSpace raw) of None \<Rightarrow> Err BadDigest | Some d \<Rightarrow> Ok d)"

text \<open>The loop of \<open>resolveSingleManifest\<close>; the number counts the iterations that are left.\<close>

fun resolve_manifest :: "digest_lib \<Rightarrow> string \<Rightarrow> string \<Rightarrow> image_source \<Rightarrow> nat \<Rightarrow> body \<Rightarrow> (conv_err, body) result" where
  "resolve_manifest dl os arch src 0 manifest = Err NestingTooDeep"
| "resolve_manifest dl os arch src (Suc n) manifest =
     (case parseManifestList manifest of
        None \<Rightarrow> Ok manifest
      | Some list \<Rightarrow>
          if length (ml_Manifests list) = 0 then Err ManifestListEmpty
          else case selectManifestDescriptor os arch (ml_Manifests list) of
                 Err e \<Rightarrow> Err e
               | Ok d \<Rightarrow>
                   (case parseDigest dl (de_Digest d) of
                      Err e \<Rightarrow> Err e
                    | Ok instanceDigest \<Rightarrow>
                        (case is_manifest src (Some instanceDigest) of
                           None \<Rightarrow> Err RegistryErr
                         | Some manifest' \<Rightarrow> resolve_manifest dl os arch src n manifest')))"

definition resolveSingleManifest :: "digest_lib \<Rightarrow> string \<Rightarrow> string \<Rightarrow> image_source \<Rightarrow> (conv_err, body) result" where
  "resolveSingleManifest dl os arch src =
     (case is_manifest src None of
        None \<Rightarrow> Err RegistryErr
      | Some manifest \<Rightarrow> resolve_manifest dl os arch src 4 manifest)"

definition normalizedDockerReference :: "string \<Rightarrow> string" where
  "normalizedDockerReference img =
     (let trimmed = TrimPrefix (TrimSpace img) ''docker://''
      in if HasPrefix trimmed ''//'' then trimmed else ''//'' @ trimmed)"

section \<open>The cache of an image\<close>

definition verifyDigest :: "digest_lib \<Rightarrow> string \<Rightarrow> body \<Rightarrow> conv_err option" where
  "verifyDigest dl expected payload =
     (if expected = [] then None
      else if dg_parse dl expected = None then Some BadDigest
      else if dg_hash dl (dg_algorithm dl expected) payload \<noteq> expected then Some DigestMismatch
      else None)"

definition downloadBlobToBytes :: "digest_lib \<Rightarrow> image_source \<Rightarrow> string \<Rightarrow> (conv_err, body) result" where
  "downloadBlobToBytes dl src d =
     (case is_blob src d of
        None \<Rightarrow> Err RegistryErr
      | Some payload \<Rightarrow> (case verifyDigest dl d payload of Some e \<Rightarrow> Err e | None \<Rightarrow> Ok payload))"

text \<open>\<open>os.Create\<close> makes or empties a file; \<open>os.WriteFile\<close> creates, writes and closes.\<close>

definition os_Create :: "os_env \<Rightarrow> string \<Rightarrow> fs \<Rightarrow> fs \<times> (oserr, unit) result" where
  "os_Create env path fs =
     (case os_OpenCreate env path fs of
        (fs1, Err e) \<Rightarrow> (fs1, Err e)
      | (fs1, Ok _) \<Rightarrow> (fs_put (resolve path) (NFile (Raw [])) fs1, Ok ()))"

definition os_WriteFile :: "os_env \<Rightarrow> string \<Rightarrow> body \<Rightarrow> fs \<Rightarrow> fs \<times> (oserr, unit) result" where
  "os_WriteFile env path b fs =
     (case os_Create env path fs of
        (fs1, Err e) \<Rightarrow> (fs1, Err e)
      | (fs1, Ok _) \<Rightarrow>
          (case file_Write env path b fs1 of
             (fs2, Err e) \<Rightarrow> (fs2, Err e)
           | (fs2, Ok _) \<Rightarrow> (fs2, file_Close env path fs2)))"

definition file_step :: "fs \<times> (oserr, 'a) result \<Rightarrow> fs \<times> (conv_err, 'a) result" where
  "file_step x = (case x of (fs, r) \<Rightarrow> (fs, map_err FileErr r))"

definition downloadBlobToFile ::
  "os_env \<Rightarrow> digest_lib \<Rightarrow> image_source \<Rightarrow> string \<Rightarrow> string \<Rightarrow> fs \<Rightarrow> fs \<times> (conv_err, unit) result" where
  "downloadBlobToFile env dl src d targetPath fs =
     and_then (file_step (os_MkdirAll env (path_Dir targetPath) fs)) (\<lambda>fs _.
       case is_blob src d of
         None \<Rightarrow> (fs, Err RegistryErr)
       | Some payload \<Rightarrow>
           and_then (file_step (os_Create env targetPath fs)) (\<lambda>fs _.
           and_then (file_step (file_Write env targetPath payload fs)) (\<lambda>fs _.
             if dg_hash dl (dg_algorithm dl d) payload \<noteq> d then (fs, Err DigestMismatch) else (fs, Ok ()))))"

definition cachedLayerPath :: "digest_lib \<Rightarrow> string \<Rightarrow> string \<Rightarrow> string" where
  "cachedLayerPath dl cacheDir d = path_Join [cacheDir, ''layers'', dg_algorithm dl d, dg_encoded dl d @ ''.blob'']"

record layer_file =
  lf_Digest :: string
  lf_Path :: string

record pulled_image =
  pi_Config :: image_config
  pi_Layers :: "layer_file list"

fun pull_layers ::
  "os_env \<Rightarrow> digest_lib \<Rightarrow> image_source \<Rightarrow> string \<Rightarrow> descriptor list \<Rightarrow> fs \<Rightarrow> fs \<times> (conv_err, layer_file list) result" where
  "pull_layers env dl src cacheDir [] fs = (fs, Ok [])"
| "pull_layers env dl src cacheDir (layer # layers) fs =
     (case parseDigest dl (de_Digest layer) of
        Err e \<Rightarrow> (fs, Err e)
      | Ok d \<Rightarrow>
          (let layerPath = cachedLayerPath dl cacheDir d
           in case downloadBlobToFile env dl src d layerPath fs of
                (fs1, Err e) \<Rightarrow> (fs1, Err e)
              | (fs1, Ok _) \<Rightarrow>
                  (case pull_layers env dl src cacheDir layers fs1 of
                     (fs2, Err e) \<Rightarrow> (fs2, Err e)
                   | (fs2, Ok ls) \<Rightarrow> (fs2, Ok (\<lparr>lf_Digest = d, lf_Path = layerPath\<rparr> # ls)))))"

text \<open>What is fetched before anything is stored: the manifest with its text, and the configuration with its text.\<close>

definition fetch_image ::
  "digest_lib \<Rightarrow> string \<Rightarrow> string \<Rightarrow> image_source \<Rightarrow> (conv_err, body \<times> image_manifest \<times> body) result" where
  "fetch_image dl os arch src =
     (case resolveSingleManifest dl os arch src of
        Err e \<Rightarrow> Err e
      | Ok manifestBytes \<Rightarrow>
     (case parseImageManifest manifestBytes of
        Err e \<Rightarrow> Err e
      | Ok m \<Rightarrow>
     (case parseDigest dl (de_Digest (im_Config m)) of
        Err e \<Rightarrow> Err e
      | Ok configDigest \<Rightarrow>
     (case downloadBlobToBytes dl src configDigest of
        Err e \<Rightarrow> Err e
      | Ok configBytes \<Rightarrow> Ok (manifestBytes, m, configBytes)))))"

definition store_image ::
  "os_env \<Rightarrow> digest_lib \<Rightarrow> image_source \<Rightarrow> string \<Rightarrow> body \<Rightarrow> image_manifest \<Rightarrow> body \<Rightarrow> fs \<Rightarrow> fs \<times> (conv_err, pulled_image) result" where
  "store_image env dl src cacheDir manifestBytes m configBytes fs =
     and_then (file_step (os_WriteFile env (path_Join [cacheDir, ''manifest.json'']) manifestBytes fs)) (\<lambda>fs _.
     and_then (file_step (os_WriteFile env (path_Join [cacheDir, ''config.json'']) configBytes fs)) (\<lambda>fs _.
       case parse_config_blob configBytes of
         Err e \<Rightarrow> (fs, Err e)
       | Ok cfg \<Rightarrow>
           and_then (pull_layers env dl src cacheDir (im_Layers m) fs) (\<lambda>fs layers.
             (fs, Ok \<lparr>pi_Config = cfg, pi_Layers = layers\<rparr>))))"

text \<open>The source is what the registry has for the image, or nothing when its name is not accepted or not found.\<close>

definition pullAndCacheImage ::
  "os_env \<Rightarrow> digest_lib \<Rightarrow> string \<Rightarrow> string \<Rightarrow> (string \<Rightarrow> image_source option) \<Rightarrow> string \<Rightarrow> string \<Rightarrow> fs \<Rightarrow>
   fs \<times> (conv_err, pulled_image) result" where
  "pullAndCacheImage env dl os arch registry img cacheDir fs =
     and_then (file_step (os_RemoveAll env cacheDir fs)) (\<lambda>fs _.
     and_then (file_step (os_MkdirAll env cacheDir fs)) (\<lambda>fs _.
       case registry (normalizedDockerReference img) of
         None \<Rightarrow> (fs, Err RegistryErr)
       | Some src \<Rightarrow>
           (case fetch_image dl os arch src of
              Err e \<Rightarrow> (fs, Err e)
            | Ok (manifestBytes, m, configBytes) \<Rightarrow> store_image env dl src cacheDir manifestBytes m configBytes fs)))"

fun cached_layers ::
  "os_env \<Rightarrow> digest_lib \<Rightarrow> string \<Rightarrow> descriptor list \<Rightarrow> fs \<Rightarrow> (conv_err, layer_file list) result" where
  "cached_layers env dl cacheDir [] fs = Ok []"
| "cached_layers env dl cacheDir (layer # layers) fs =
     (case parseDigest dl (de_Digest layer) of
        Err e \<Rightarrow> Err e
      | Ok d \<Rightarrow>
          (let layerPath = cachedLayerPath dl cacheDir d
           in case os_Stat env layerPath fs of
                Err e \<Rightarrow> Err (FileErr e)
              | Ok _ \<Rightarrow>
                  (case cached_layers env dl cacheDir layers fs of
                     Err e \<Rightarrow> Err e
                   | Ok ls \<Rightarrow> Ok (\<lparr>lf_Digest = d, lf_Path = layerPath\<rparr> # ls))))"

definition readCachedImage :: "os_env \<Rightarrow> digest_lib \<Rightarrow> string \<Rightarrow> fs \<Rightarrow> (conv_err, pulled_image) result" where
  "readCachedImage env dl cacheDir fs =
     (case os_ReadFile env (path_Join [cacheDir, ''manifest.json'']) fs of
        Err e \<Rightarrow> Err (FileErr e)
      | Ok manifestBytes \<Rightarrow>
     (case parseImageManifest manifestBytes of
        Err e \<Rightarrow> Err e
      | Ok m \<Rightarrow>
     (case os_ReadFile env (path_Join [cacheDir, ''config.json'']) fs of
        Err e \<Rightarrow> Err (FileErr e)
      | Ok configBytes \<Rightarrow>
     (case parse_config_blob configBytes of
        Err e \<Rightarrow> Err e
      | Ok cfg \<Rightarrow>
     (case cached_layers env dl cacheDir (im_Layers m) fs of
        Err e \<Rightarrow> Err e
      | Ok layers \<Rightarrow> Ok \<lparr>pi_Config = cfg, pi_Layers = layers\<rparr>)))))"

section \<open>Output files\<close>

record image_metadata =
  md_Image :: string
  md_CreatedAt :: int
  md_Entrypoint :: "string list"
  md_Cmd :: "string list"
  md_StartCmd :: "string list"
  md_Env :: "string list"
  md_WorkingDir :: string
  md_User :: string
  md_ExposedPorts :: "string list"
  md_SuggestedHTTPPort :: int

text \<open>A nil slice is written as \<open>null\<close>; \<open>cloneStrings\<close> makes every empty slice nil.\<close>

definition enc_strs :: "string list \<Rightarrow> json" where
  "enc_strs xs = (if xs = [] then JNull else JArr (map JStr xs))"

definition enc_image_metadata :: "image_metadata \<Rightarrow> json" where
  "enc_image_metadata m =
     JObj ([(''image'', JStr (md_Image m)), (''createdAt'', JTime (md_CreatedAt m)),
            (''entrypoint'', enc_strs (md_Entrypoint m)), (''cmd'', enc_strs (md_Cmd m)),
            (''startCmd'', enc_strs (md_StartCmd m)), (''env'', enc_strs (md_Env m)),
            (''workingDir'', JStr (md_WorkingDir m)), (''user'', JStr (md_User m)),
            (''exposedPorts'', enc_strs (md_ExposedPorts m))] @
           omit_int ''suggestedHTTPPort'' (md_SuggestedHTTPPort m))"

definition image_meta :: "conv_options \<Rightarrow> int \<Rightarrow> image_config \<Rightarrow> image_metadata" where
  "image_meta opts now cfg =
     \<lparr>md_Image = op_Image opts, md_CreatedAt = now, md_Entrypoint = ic_Entrypoint cfg, md_Cmd = ic_Cmd cfg,
      md_StartCmd = composeStartCommand (ic_Entrypoint cfg) (ic_Cmd cfg), md_Env = ic_Env cfg,
      md_WorkingDir = ic_WorkingDir cfg, md_User = ic_User cfg, md_ExposedPorts = exposedPortsList (ic_ExposedPorts cfg),
      md_SuggestedHTTPPort = inferHTTPPort (map fst (ic_ExposedPorts cfg))\<rparr>"

definition writeMetadataFiles :: "os_env \<Rightarrow> string \<Rightarrow> string \<Rightarrow> image_metadata \<Rightarrow> fs \<Rightarrow> fs \<times> (conv_err, unit) result" where
  "writeMetadataFiles env rootfsDir outputDir meta fs =
     (let doc = JSONDoc (enc_image_metadata meta); rootMetaDir = path_Join [rootfsDir, ''etc'', ''mergen'']
      in and_then (file_step (os_MkdirAll env rootMetaDir fs)) (\<lambda>fs _.
         and_then (file_step (os_WriteFile env (path_Join [rootMetaDir, ''image-meta.json'']) doc fs)) (\<lambda>fs _.
         file_step (os_WriteFile env (path_Join [outputDir, ''image-meta.json'']) doc fs))))"

definition suggested_request :: "string \<Rightarrow> string \<Rightarrow> int \<Rightarrow> json" where
  "suggested_request img rootfsExt4 port =
     (let httpPort = (if port \<le> 0 then 80 else port)
      in JObj [(''bootArgs'', JStr converterBootArgs), (''httpPort'', enc_int httpPort),
               (''kernel'', JStr ''/var/lib/mergen/base/vmlinux''), (''memMiB'', enc_int 512),
               (''metadata'', JObj [(''image'', JStr img)]),
               (''ports'', JArr [JObj [(''guest'', enc_int httpPort), (''host'', enc_int 0)]]),
               (''rootfs'', JStr rootfsExt4), (''vcpu'', enc_int 1)])"

definition writeSuggestedVMRequest :: "os_env \<Rightarrow> string \<Rightarrow> string \<Rightarrow> string \<Rightarrow> int \<Rightarrow> fs \<Rightarrow> fs \<times> (conv_err, unit) result" where
  "writeSuggestedVMRequest env path img rootfsExt4 httpPort fs =
     file_step (os_WriteFile env path (JSONDoc (suggested_request img rootfsExt4 httpPort)) fs)"

text \<open>
  The size of the image in MiB, computed with 64-bit integers: sums wrap around and a division rounds
  towards zero.
\<close>

definition wrap64 :: "int \<Rightarrow> int" where
  "wrap64 i = (i + 2 ^ 63) mod 2 ^ 64 - 2 ^ 63"

definition quot :: "int \<Rightarrow> int \<Rightarrow> int" where
  "quot a b = (if a \<ge> 0 then a div b else - ((- a) div b))"

definition image_size :: "int \<Rightarrow> int \<Rightarrow> (conv_err, int) result" where
  "image_size sizeMiB rootfsBytes =
     (let size = (if sizeMiB = 0 then quot (wrap64 (rootfsBytes + 1024 * 1024 - 1)) (1024 * 1024) + defaultRootFSOverhead else sizeMiB)
      in if size \<le> 0 then Err NonPositiveSize else Ok size)"

text \<open>\<open>buildExt4\<close> as the commands it runs, each only when the one before succeeded.\<close>

definition ext4_commands :: "string \<Rightarrow> string \<Rightarrow> int \<Rightarrow> string list list" where
  "ext4_commands rootfsDir ext4Path sizeMiB =
     [[''truncate'', ''-s'', Itoa sizeMiB @ ''M'', ext4Path],
      [''mkfs.ext4'', ''-q'', ''-F'', ''-d'', rootfsDir, ext4Path]]"

fun run_commands :: "('s \<Rightarrow> string list \<Rightarrow> 's \<times> bool) \<Rightarrow> string list list \<Rightarrow> 's \<Rightarrow> 's \<times> (conv_err, unit) result" where
  "run_commands exec [] s = (s, Ok ())"
| "run_commands exec (c # cs) s =
     (case exec s c of
        (s', False) \<Rightarrow> (s', Err (CommandFailed (hd c)))
      | (s', True) \<Rightarrow> run_commands exec cs s')"

definition buildExt4 :: "('s \<Rightarrow> string list \<Rightarrow> 's \<times> bool) \<Rightarrow> string \<Rightarrow> string \<Rightarrow> int \<Rightarrow> 's \<Rightarrow> 's \<times> (conv_err, unit) result" where
  "buildExt4 exec rootfsDir ext4Path sizeMiB s = run_commands exec (ext4_commands rootfsDir ext4Path sizeMiB) s"

end
