(* ===== verification/Converter_Spec.thy ===== *)
theory Converter_Spec
  imports Converter API "HOL-Library.Product_Lexorder"
begin

text \<open>
  The properties of the converter: the HTTP port of an image against a reference, the end of the search
  for the manifest, the output directory, the request it suggests to the daemon, and its image cache.
\<close>

section \<open>Sorted lists\<close>

lemma find_sort_key:
  assumes "List.find P (sort_key f xs) = Some x"
  shows "x \<in> set xs" "P x" "y \<in> set xs \<Longrightarrow> P y \<Longrightarrow> f x \<le> f y"
proof -
  let ?ys = "sort_key f xs"
  obtain i where i: "i < length ?ys" "?ys ! i = x" "P (?ys ! i)" "\<forall>j < i. \<not> P (?ys ! j)"
    using assms unfolding find_Some_iff by blast
  show "x \<in> set xs" using i by (metis nth_mem set_sort)
  show "P x" using i by simp
  assume "y \<in> set xs" "P y"
  then obtain k where k: "k < length ?ys" "?ys ! k = y" by (metis in_set_conv_nth set_sort)
  then have "i \<le> k" using i(4) \<open>P y\<close> by (meson leI)
  then have "map f ?ys ! i \<le> map f ?ys ! k" using sorted_nth_mono [of "map f ?ys"] k(1) by simp
  then show "f x \<le> f y" using i k by simp
qed

section \<open>The HTTP port of an image\<close>

definition candidate_key :: "candidate \<Rightarrow> bool \<times> int" where
  "candidate_key c = (\<not> ca_tcp c, ca_port c)"

lemma candidate_less_key: "candidate_less = (\<lambda>a b. candidate_key a < candidate_key b)"
  by (auto simp: fun_eq_iff candidate_less_def candidate_key_def less_prod_def)

lemma SliceStable_candidates: "SliceStable candidate_less cs = sort_key candidate_key cs"
  unfolding candidate_less_key by (rule SliceStable_key)

text \<open>The ports that are exposed, by protocol.\<close>

definition ports_of :: "bool \<Rightarrow> string list \<Rightarrow> int set" where
  "ports_of tcp exposed = {p. \<exists>key \<in> set exposed. port_candidate key = Some \<lparr>ca_port = p, ca_tcp = tcp\<rparr>}"

text \<open>The reference: the least of the usual HTTP ports, else the least TCP port, else the least port, else none.\<close>

definition http_port_spec :: "string list \<Rightarrow> int" where
  "http_port_spec exposed =
     (let tcp = ports_of True exposed; rest = ports_of False exposed
      in if tcp \<inter> {80, 8080, 3000, 8000} \<noteq> {} then Min (tcp \<inter> {80, 8080, 3000, 8000})
         else if tcp \<noteq> {} then Min tcp
         else if rest \<noteq> {} then Min rest
         else 0)"

lemma in_candidates: "c \<in> set (List.map_filter port_candidate exposed) \<longleftrightarrow> ca_port c \<in> ports_of (ca_tcp c) exposed"
  by (cases c) (force simp: List.map_filter_def ports_of_def)

lemma port_candidate_range: "port_candidate key = Some c \<Longrightarrow> 0 < ca_port c \<and> ca_port c \<le> 65535"
  by (auto simp: port_candidate_def split: list.split_asm option.split_asm if_split_asm)

lemma finite_ports: "finite (ports_of tcp exposed)"
proof -
  have "ports_of tcp exposed \<subseteq> ca_port ` set (List.map_filter port_candidate exposed)"
  proof
    fix p
    assume "p \<in> ports_of tcp exposed"
    then have "\<lparr>ca_port = p, ca_tcp = tcp\<rparr> \<in> set (List.map_filter port_candidate exposed)" by (simp add: in_candidates)
    then show "p \<in> ca_port ` set (List.map_filter port_candidate exposed)" by force
  qed
  then show ?thesis using finite_subset by blast
qed

lemma Min_port:
  assumes "finite A" "p \<in> A" "\<And>q. q \<in> A \<Longrightarrow> p \<le> (q :: int)"
  shows "p = Min A"
  using assms by (metis Min_eqI)

lemma find_tcp_port:
  assumes "List.find P (sort_key candidate_key (List.map_filter port_candidate exposed)) = Some c" "\<And>d. P d \<Longrightarrow> ca_tcp d"
    and A: "A = {p \<in> ports_of True exposed. P \<lparr>ca_port = p, ca_tcp = True\<rparr>}"
  shows "ca_port c \<in> A \<and> ca_port c = Min A"
proof -
  note f = find_sort_key [OF assms(1)]
  have tcp: "ca_tcp c" using f(2) assms(2) by simp
  have e: "\<lparr>ca_port = ca_port c, ca_tcp = True\<rparr> = c" using tcp by simp
  have c: "ca_port c \<in> A" using f(1,2) in_candidates [of c exposed] tcp A unfolding A by (simp add: e)
  have "ca_port c \<le> q" if "q \<in> A" for q
    using f(3) [of "\<lparr>ca_port = q, ca_tcp = True\<rparr>"] that tcp in_candidates [of "\<lparr>ca_port = q, ca_tcp = True\<rparr>" exposed] A
    by (auto simp: candidate_key_def less_eq_prod_def)
  then show ?thesis using c finite_ports A by (auto intro!: Min_port)
qed

lemma no_tcp_port:
  assumes "List.find P (sort_key candidate_key (List.map_filter port_candidate exposed)) = None"
  shows "{p \<in> ports_of True exposed. P \<lparr>ca_port = p, ca_tcp = True\<rparr>} = {}"
  using assms in_candidates [of "\<lparr>ca_port = _, ca_tcp = True\<rparr>" exposed] by (force simp: find_None_iff)

lemma inferHTTPPort_eq:
  "inferHTTPPort exposed = http_port_spec exposed \<and> 0 \<le> inferHTTPPort exposed \<and> inferHTTPPort exposed \<le> 65535"
proof -
  let ?cs = "List.map_filter port_candidate exposed"
  let ?T = "ports_of True exposed" and ?R = "ports_of False exposed" and ?U = "{80, 8080, 3000, 8000 :: int}"
  let ?s = "sort_key candidate_key ?cs"
  have range: "0 \<le> p \<and> p \<le> 65535" if "p \<in> ports_of b exposed" for p b
    using that port_candidate_range by (fastforce simp: ports_of_def)
  have mem: "\<lparr>ca_port = p, ca_tcp = b\<rparr> \<in> set ?cs \<longleftrightarrow> p \<in> ports_of b exposed" for p b by (simp add: in_candidates)
  show ?thesis
  proof (cases "?cs = []")
    case True
    then have "?T = {}" "?R = {}" using mem by force+
    then show ?thesis using True by (simp add: inferHTTPPort_def http_port_spec_def Let_def)
  next
    case False
    then have ne: "length exposed \<noteq> 0" by (cases exposed) (auto simp: List.map_filter_simps)
    have inf: "inferHTTPPort exposed = (case List.find (\<lambda>c. ca_tcp c \<and> ca_port c \<in> ?U) ?s of
        Some c \<Rightarrow> ca_port c
      | None \<Rightarrow> (case List.find ca_tcp ?s of Some c \<Rightarrow> ca_port c | None \<Rightarrow> ca_port (hd ?s)))"
      using False ne by (simp add: inferHTTPPort_def SliceStable_candidates Let_def)
    consider (usual) c where "List.find (\<lambda>c. ca_tcp c \<and> ca_port c \<in> ?U) ?s = Some c"
      | (tcp) c where "List.find (\<lambda>c. ca_tcp c \<and> ca_port c \<in> ?U) ?s = None" "List.find ca_tcp ?s = Some c"
      | (other) "List.find (\<lambda>c. ca_tcp c \<and> ca_port c \<in> ?U) ?s = None" "List.find ca_tcp ?s = None" by fastforce
    then show ?thesis
    proof cases
      case usual
      have "?T \<inter> ?U = {p \<in> ?T. ca_tcp \<lparr>ca_port = p, ca_tcp = True\<rparr> \<and> ca_port \<lparr>ca_port = p, ca_tcp = True\<rparr> \<in> ?U}"
        by (simp add: Int_def conj_commute)
      then have "ca_port c \<in> ?T \<inter> ?U \<and> ca_port c = Min (?T \<inter> ?U)" by (intro find_tcp_port [OF usual]) simp_all
      then show ?thesis using inf usual range [of "ca_port c" True] unfolding http_port_spec_def Let_def by fastforce
    next
      case tcp
      have "ca_port c \<in> ?T \<and> ca_port c = Min ?T" by (rule find_tcp_port [OF tcp(2)]) auto
      moreover have "?T \<inter> ?U = {}" using no_tcp_port [OF tcp(1)] by auto
      ultimately show ?thesis using inf tcp range [of "ca_port c" True] by (auto simp: http_port_spec_def Let_def)
    next
      case other
      have T: "?T = {}" using no_tcp_port [OF other(2)] by auto
      obtain c cs where s: "?s = c # cs" using False by (metis list.exhaust sort_key_simps(1) length_sort length_0_conv)
      then have c1: "c \<in> set ?cs" by (metis list.set_intros(1) set_sort)
      then have c: "ca_port c \<in> ?R" using in_candidates [of c exposed] T by (cases "ca_tcp c") auto
      then have "\<not> ca_tcp c" using in_candidates [of c exposed] T c1 by auto
      have "ca_port c \<le> q" if "q \<in> ?R" for q
      proof -
        have "\<lparr>ca_port = q, ca_tcp = False\<rparr> \<in> set ?s" using that mem by simp
        moreover have "sorted (map candidate_key ?s)" by simp
        ultimately have "candidate_key c \<le> candidate_key \<lparr>ca_port = q, ca_tcp = False\<rparr>" using s by auto
        then show ?thesis using \<open>\<not> ca_tcp c\<close> by (simp add: candidate_key_def less_eq_prod_def)
      qed
      then have "ca_port c = Min ?R" using c finite_ports by (intro Min_port) auto
      then show ?thesis using inf other s c T range [of "ca_port c" False] by (auto simp: http_port_spec_def Let_def)
    qed
  qed
qed


lemmas inferHTTPPort_range = inferHTTPPort_eq [THEN conjunct2, THEN conjunct1] inferHTTPPort_eq [THEN conjunct2, THEN conjunct2]

lemma http_port_spec_set: "set exposed = set exposed' \<Longrightarrow> http_port_spec exposed = http_port_spec exposed'"
  by (simp add: http_port_spec_def ports_of_def)

text \<open>
  C25: the suggested HTTP port does not depend on the order in which the exposed ports are listed: it is
  the least of the usual HTTP ports that are exposed over TCP, else the least TCP port, else the least
  port of another protocol, and 0 when no entry is a port; it is at most 65535.
\<close>

theorem inferHTTPPort_spec:
  "inferHTTPPort exposed = http_port_spec exposed \<and> 0 \<le> inferHTTPPort exposed \<and> inferHTTPPort exposed \<le> 65535 \<and>
   (set exposed = set exposed' \<longrightarrow> inferHTTPPort exposed = inferHTTPPort exposed')"
  using inferHTTPPort_eq http_port_spec_set by metis

theorem inferHTTPPort_spec_witness:
  "inferHTTPPort [''8443/tcp'', ''53/udp''] = inferHTTPPort [''53/udp'', ''8443/tcp'']"
  using inferHTTPPort_spec [of "[''8443/tcp'', ''53/udp'']" "[''53/udp'', ''8443/tcp'']"] by (simp add: insert_commute)

section \<open>The manifest of an image\<close>

text \<open>The manifest selected from a list, and the step from a list to it.\<close>

definition next_manifest :: "digest_lib \<Rightarrow> string \<Rightarrow> string \<Rightarrow> image_source \<Rightarrow> manifest_list \<Rightarrow> (conv_err, body) result" where
  "next_manifest dl os arch src list =
     (case selectManifestDescriptor os arch (ml_Manifests list) of
        Err e \<Rightarrow> Err e
      | Ok d \<Rightarrow>
          (case parseDigest dl (de_Digest d) of
             Err e \<Rightarrow> Err e
           | Ok dg \<Rightarrow> (case is_manifest src (Some dg) of None \<Rightarrow> Err RegistryErr | Some b \<Rightarrow> Ok b)))"

definition manifest_next :: "digest_lib \<Rightarrow> string \<Rightarrow> string \<Rightarrow> image_source \<Rightarrow> body \<Rightarrow> body \<Rightarrow> bool" where
  "manifest_next dl os arch src b b' \<longleftrightarrow>
     (\<exists>list. parseManifestList b = Some list \<and> next_manifest dl os arch src list = Ok b')"

lemma parseManifestList_ne: "parseManifestList b = Some list \<Longrightarrow> ml_Manifests list \<noteq> []"
  by (auto simp: parseManifestList_def split: body.splits sum.splits if_splits)

lemma resolve_manifest_Suc:
  "resolve_manifest dl os arch src (Suc n) b =
     (case parseManifestList b of
        None \<Rightarrow> Ok b
      | Some list \<Rightarrow>
          (case next_manifest dl os arch src list of Err e \<Rightarrow> Err e | Ok b' \<Rightarrow> resolve_manifest dl os arch src n b'))"
  by (auto simp: next_manifest_def parseManifestList_ne split: option.splits sum.splits)

lemma next_manifest_deep: "next_manifest dl os arch src list \<noteq> Err NestingTooDeep"
  by (auto simp: next_manifest_def selectManifestDescriptor_def parseDigest_def split: option.splits sum.splits)

lemma resolve_manifest_Ok:
  "resolve_manifest dl os arch src n b0 = Ok b \<longleftrightarrow>
     (\<exists>k < n. (manifest_next dl os arch src ^^ k) b0 b \<and> parseManifestList b = None)"
proof (induction n arbitrary: b0)
  case (Suc n)
  let ?R = "manifest_next dl os arch src"
  have "(\<exists>k < Suc n. (?R ^^ k) b0 b \<and> parseManifestList b = None) \<longleftrightarrow>
      (b0 = b \<and> parseManifestList b = None) \<or> (\<exists>b1. ?R b0 b1 \<and> (\<exists>k < n. (?R ^^ k) b1 b \<and> parseManifestList b = None))"
    by (auto simp: less_Suc_eq_0_disj relpowp_Suc_right simp flip: relpowp_commute intro: relpowp_Suc_I2 elim: relpowp_Suc_E2)
  then show ?case
    unfolding resolve_manifest_Suc manifest_next_def by (auto simp: Suc.IH [unfolded manifest_next_def] split: option.splits sum.splits)
qed simp

lemma resolve_manifest_deep:
  "resolve_manifest dl os arch src n b0 = Err NestingTooDeep \<longleftrightarrow> (\<exists>b. (manifest_next dl os arch src ^^ n) b0 b)"
proof (induction n arbitrary: b0)
  case (Suc n)
  let ?R = "manifest_next dl os arch src"
  have "(\<exists>b. (?R ^^ Suc n) b0 b) \<longleftrightarrow> (\<exists>b1. ?R b0 b1 \<and> (\<exists>b. (?R ^^ n) b1 b))"
    by (metis relpowp_Suc_I2 relpowp_Suc_D2)
  moreover have "(\<exists>b1. ?R b0 b1 \<and> resolve_manifest dl os arch src n b1 = Err NestingTooDeep) \<longleftrightarrow>
      resolve_manifest dl os arch src (Suc n) b0 = Err NestingTooDeep"
    unfolding resolve_manifest_Suc manifest_next_def using next_manifest_deep
    by (auto split: option.splits sum.splits)
  ultimately show ?case using Suc.IH by auto
qed simp

text \<open>
  C24: the search for the manifest always ends, whatever the registry answers and even when its lists
  refer to each other: it succeeds exactly when a manifest that is no list is reached by at most three
  selections, and it gives up as too deep exactly when four selections are possible.
\<close>

theorem resolveSingleManifest_ends:
  "(resolveSingleManifest dl os arch src = Ok b \<longleftrightarrow>
      (\<exists>b0 k. is_manifest src None = Some b0 \<and> k \<le> 3 \<and> (manifest_next dl os arch src ^^ k) b0 b \<and> parseManifestList b = None)) \<and>
   (resolveSingleManifest dl os arch src = Err NestingTooDeep \<longleftrightarrow>
      (\<exists>b0 b4. is_manifest src None = Some b0 \<and> (manifest_next dl os arch src ^^ 4) b0 b4))"
proof (cases "is_manifest src None")
  case None
  then show ?thesis by (simp add: resolveSingleManifest_def)
next
  case (Some b0)
  then show ?thesis
    unfolding resolveSingleManifest_def Some option.case resolve_manifest_Ok resolve_manifest_deep
    by (auto simp: less_Suc_eq_le numeral_eq_Suc)
qed

section \<open>Names\<close>

definition safe_char :: "char \<Rightarrow> bool" where
  "safe_char c \<longleftrightarrow> is_lower c \<or> is_upper c \<or> is_digit c \<or> c \<in> {CHR ''.'', CHR ''_'', CHR ''-''}"

lemma sanitize_char_safe: "c \<in> set (sanitize_char x) \<Longrightarrow> safe_char c"
proof -
  assume c: "c \<in> set (sanitize_char x)"
  have d: "safe_char CHR ''-''" unfolding safe_char_def by blast
  show "safe_char c"
  proof (cases "safe_char x")
    case True
    then have "sanitize_char x = [x]" unfolding sanitize_char_def safe_char_def by argo
    then show ?thesis using c True by simp
  next
    case False
    then have "\<not> is_lower x" "\<not> is_upper x" "\<not> is_digit x" "x \<notin> {CHR ''.'', CHR ''_'', CHR ''-''}"
      unfolding safe_char_def by blast+
    then have "sanitize_char x = (if x \<in> {CHR ''/'', CHR '':'', CHR ''@''} then ''-'' else [])"
      unfolding sanitize_char_def by presburger
    then have "sanitize_char x = ''-'' \<or> sanitize_char x = []" by presburger
    then show ?thesis using c d by (elim disjE) simp_all
  qed
qed

lemma safe_char_slash: "\<not> safe_char CHR ''/''"
  by (auto simp: safe_char_def is_lower_def is_upper_def is_digit_def less_eq_char_def)

lemma set_TrimChar: "set (TrimChar s d) \<subseteq> set s"
  by (auto simp: TrimChar_def dest!: set_dropWhileD)

lemma sanitizeName_safe: "sanitizeName raw \<noteq> []" "\<forall>c \<in> set (sanitizeName raw). safe_char c"
proof -
  have "\<forall>c \<in> set (concat (map sanitize_char raw)). safe_char c" using sanitize_char_safe by auto
  then have t: "\<forall>c \<in> set (TrimChar (concat (map sanitize_char raw)) CHR ''-''). safe_char c" using set_TrimChar by fast
  have d: "list_all safe_char ''image-rootfs''" by code_simp
  show "sanitizeName raw \<noteq> []" by (simp add: sanitizeName_def Let_def)
  show "\<forall>c \<in> set (sanitizeName raw). safe_char c" using t d by (auto simp: sanitizeName_def Let_def list_all_iff)
qed

text \<open>
  C39: the output directory derived from an image is a directory of its own under the base directory,
  whatever the name of the image is made of, except for an image whose name is reduced to one or two
  dots, which gives the base directory itself or the directory above it.
\<close>

theorem output_dir_confined:
  assumes "normalizeOptions opts = Ok res" "TrimSpace (op_Name opts) = []" "TrimSpace (op_OutputDir opts) = []"
  shows "resolve (op_OutputDir res) =
     (if op_Name res = ''.'' then [''artifacts'', ''converter'']
      else if op_Name res = ''..'' then [''artifacts'']
      else [''artifacts'', ''converter'', op_Name res]) \<and>
   op_Name res = sanitizeName (op_Image res) \<and> list_all safe_char (op_Name res) \<and> op_Name res \<noteq> [] \<and>
   op_Image res \<noteq> [] \<and> 0 \<le> op_SizeMiB res"
proof -
  let ?n = "sanitizeName (TrimSpace (op_Image opts))"
  have o: "op_Name res = ?n" "op_OutputDir res = path_Join [defaultOutputBase, ?n]" "op_Image res = TrimSpace (op_Image opts)"
    "op_Image res \<noteq> []" "0 \<le> op_SizeMiB res"
    using assms by (auto simp: normalizeOptions_def Let_def split: if_splits)
  note s = sanitizeName_safe [of "TrimSpace (op_Image opts)"]
  have slash: "CHR ''/'' \<notin> set ?n" using s(2) safe_char_slash by blast
  have base: "resolve defaultOutputBase = [''artifacts'', ''converter'']" by code_simp
  have "resolve (path_Join [defaultOutputBase, ?n]) =
     (if ?n = ''.'' then [''artifacts'', ''converter''] else if ?n = ''..'' then [''artifacts'']
      else [''artifacts'', ''converter'', ?n])"
  proof (cases "?n = ''.'' \<or> ?n = ''..''")
    case True
    have "resolve (path_Join [defaultOutputBase, ''.'']) = [''artifacts'', ''converter'']"
      "resolve (path_Join [defaultOutputBase, ''..'']) = [''artifacts'']" by code_simp+
    then show ?thesis using True by auto
  next
    case False
    then have "file_name ?n" using s(1) slash by (auto simp: file_name_def)
    then show ?thesis using resolve_path_Join base False by auto
  qed
  then show ?thesis using o s by (auto simp: list_all_iff)
qed

theorem output_dir_confined_witness:
  "\<exists>res. normalizeOptions \<lparr>op_Image = ''../../etc/nginx:latest'', op_OutputDir = [], op_Name = [], op_SizeMiB = 0, op_SkipPull = False,
       op_SbinInitPath = []\<rparr> = Ok res \<and> resolve (op_OutputDir res) = [''artifacts'', ''converter'', ''..-..-etc-nginx-latest'']"
proof -
  let ?opts = "\<lparr>op_Image = ''../../etc/nginx:latest'', op_OutputDir = [], op_Name = [], op_SizeMiB = 0, op_SkipPull = False,
       op_SbinInitPath = []\<rparr>"
  have "map_sum id op_Name (normalizeOptions ?opts) = Ok ''..-..-etc-nginx-latest''" by code_simp
  then obtain res where o: "normalizeOptions ?opts = Ok res" "op_Name res = ''..-..-etc-nginx-latest''"
    by (cases "normalizeOptions ?opts") auto
  then show ?thesis using output_dir_confined [OF o(1)] o by simp
qed

section \<open>The suggested request\<close>

lemma member_steps:
  "field_key request_fields ''bootArgs'' = Some ''bootArgs''" "field_key request_fields ''httpPort'' = Some ''httpPort''"
  "field_key request_fields ''kernel'' = Some ''kernel''" "field_key request_fields ''memMiB'' = Some ''memMiB''"
  "field_key request_fields ''metadata'' = Some ''metadata''" "field_key request_fields ''ports'' = Some ''ports''"
  "field_key request_fields ''rootfs'' = Some ''rootfs''" "field_key request_fields ''vcpu'' = Some ''vcpu''"
  "field_key [''guest'', ''host'', ''protocol''] ''guest'' = Some ''guest''"
  "field_key [''guest'', ''host'', ''protocol''] ''host'' = Some ''host''"
  by code_simp+

lemma suggested_bound:
  assumes "int64 p"
  shows "Bind (JSONBody (JObj [(''bootArgs'', JStr a), (''httpPort'', enc_int p), (''kernel'', JStr k), (''memMiB'', enc_int 512),
           (''metadata'', JObj [(''image'', JStr img)]), (''ports'', JArr [JObj [(''guest'', enc_int p), (''host'', enc_int 0)]]),
           (''rootfs'', JStr r), (''vcpu'', enc_int 1)])) =
     Ok \<lparr>req_RootFS = r, req_Kernel = k, req_DataDisk = [], req_VCPU = 1, req_MemMiB = 512,
         req_Ports = [\<lparr>pbr_Guest = p, pbr_Host = 0, pbr_Protocol = []\<rparr>], req_HTTPPort = p, req_Metadata = [(''image'', JStr img)],
         req_AutoStart = False, req_BootArgs = a, req_ExtraEnv = [], req_Tags = [], req_Hooks = []\<rparr>"
proof -
  have i: "int64 512" "int64 0" "int64 1" by (simp_all add: int64_def)
  show ?thesis
    using assms i
    by (simp add: Bind_def dec_request_def dec_strict_def dec_struct_def member_steps dec_field_def dec_port_request_def
        dec_list_def dec_map_def dec_any_def zero_request_def zero_port_request_def)
qed

text \<open>
  C26: the request file that the converter writes is accepted by the daemon: it binds to a request that
  passes validation, with one CPU, 512 MiB, and the HTTP port of the image published on a host port of
  the daemon's choice.
\<close>

theorem suggested_request_accepted:
  assumes "TrimSpace rootfs \<noteq> []" "port = inferHTTPPort exposed"
  shows "\<exists>req. Bind (JSONBody (suggested_request img rootfs port)) = Ok req \<and> validateCreate req = None \<and> req_wf req \<and>
     req_RootFS req = rootfs \<and> req_HTTPPort req = (if port = 0 then 80 else port) \<and>
     req_Ports req = [\<lparr>pbr_Guest = (if port = 0 then 80 else port), pbr_Host = 0, pbr_Protocol = []\<rparr>]"
proof -
  let ?p = "if port = 0 then 80 else port"
  have p: "0 < ?p" "?p \<le> 65535" using inferHTTPPort_range [of exposed] assms(2) by auto
  then have i: "int64 ?p" by (simp add: int64_def)
  have e: "(if port \<le> 0 then 80 else port) = ?p" using inferHTTPPort_range [of exposed] assms(2) by auto
  have k: "TrimSpace ''/var/lib/mergen/base/vmlinux'' \<noteq> []" by code_simp
  show ?thesis
    using suggested_bound [OF i, of converterBootArgs "''/var/lib/mergen/base/vmlinux''" img rootfs] assms(1) p k
    unfolding suggested_request_def Let_def e
    by (auto simp: validateCreate_def Bind_req_wf)
qed

theorem suggested_request_accepted_witness:
  "\<exists>req. Bind (JSONBody (suggested_request ''nginx'' ''/out/rootfs.ext4'' 8080)) = Ok req \<and> validateCreate req = None \<and> req_HTTPPort req = 8080"
proof -
  have "8080 = inferHTTPPort [''8080/tcp'', ''443/tcp'']" "TrimSpace ''/out/rootfs.ext4'' \<noteq> []" by code_simp+
  from suggested_request_accepted [OF this(2,1), of "''nginx''"] show ?thesis by auto
qed

section \<open>Paths and files\<close>

lemma resolve_Join_names: "list_all file_name xs \<Longrightarrow> resolve (Join (d # xs) ''/'') = resolve d @ xs"
proof (cases xs)
  case (Cons x ys)
  assume f: "list_all file_name xs"
  then have "Split (Join xs ''/'') CHR ''/'' = xs"
    using Split_Join [of xs "CHR ''/''"] Cons by (auto simp: list_all_iff file_name_def)
  then show ?thesis using f Cons by (simp add: Join_Cons_ne resolve_append foldl_clean_names clean_step_name)
qed simp

lemma resolve_path_Join_names:
  assumes "list_all file_name xs" "xs \<noteq> []"
  shows "resolve (path_Join (d # xs)) = resolve d @ xs" "path_Join (d # xs) \<noteq> []"
proof -
  have ne: "filter (\<lambda>e. e \<noteq> []) xs = xs" using assms(1) by (auto simp: list_all_iff file_name_def filter_id_conv)
  obtain x ys where xs: "xs = x # ys" using assms(2) by (cases xs) auto
  then have "resolve (Join xs ''/'') = xs" using resolve_Join_names [of ys x] resolve_name assms(1) by simp
  then show "resolve (path_Join (d # xs)) = resolve d @ xs"
    using ne assms resolve_Join_names [OF assms(1)] by (simp add: path_Join_def resolve_path_Clean Let_def)
  show "path_Join (d # xs) \<noteq> []" using ne assms(2) by (simp add: path_Join_def Let_def)
qed

lemma os_OpenCreate_file:
  assumes "os_OpenCreate env path fs = (fs', Ok ())" "fs_wf fs"
  shows "\<exists>b. fs_get fs' (resolve path) = Some (NFile b)"
proof -
  have l: "lookup fs [] = Ok NDir" using lookup_Ok [OF assms(2), of "[]"] by simp
  then have "resolve path \<noteq> []" using assms(1) by (auto simp: os_OpenCreate_def Let_def split: if_splits)
  then show ?thesis using assms(1) lookup_Ok [OF assms(2), of "resolve path"]
    by (auto simp: os_OpenCreate_def Let_def split: if_splits sum.splits node.splits)
qed

lemma fs_wf_replace:
  assumes "fs_wf fs" "fs_get fs p = Some (NFile b)"
  shows "fs_wf (fs_put p (NFile b') fs)" "p \<noteq> []"
proof -
  show ne: "p \<noteq> []" using assms(2) by auto
  show "fs_wf (fs_put p (NFile b') fs)"
    using fs_wf_get [OF assms] ne assms by (intro fs_wf_put) auto
qed

text \<open>A file that was created, and one that was written.\<close>

lemma os_Create_effect:
  assumes "os_Create env path fs = (fs', Ok ())" "fs_wf fs"
  shows "fs_wf fs'" "\<exists>b. fs_get fs' (resolve path) = Some (NFile b)" "q \<noteq> resolve path \<Longrightarrow> fs_get fs' q = fs_get fs q"
proof -
  obtain fs1 where o: "os_OpenCreate env path fs = (fs1, Ok ())" "fs' = fs_put (resolve path) (NFile (Raw [])) fs1"
    using assms(1) by (auto simp: os_Create_def split: prod.splits sum.splits)
  note e = os_OpenCreate_effect [OF o(1) assms(2)]
  obtain b where b: "fs_get fs1 (resolve path) = Some (NFile b)" using os_OpenCreate_file [OF o(1) assms(2)] by blast
  note r = fs_wf_replace [OF e(1) b]
  show "fs_wf fs'" "\<exists>b. fs_get fs' (resolve path) = Some (NFile b)" "q \<noteq> resolve path \<Longrightarrow> fs_get fs' q = fs_get fs q"
    using r e o(2) by auto
qed

lemma file_Write_effect:
  assumes "file_Write env path c fs = (fs', Ok ())" "fs_wf fs" "fs_get fs (resolve path) = Some (NFile b)"
  shows "fs_wf fs'" "fs_get fs' (resolve path) = Some (NFile c)" "q \<noteq> resolve path \<Longrightarrow> fs_get fs' q = fs_get fs q"
  using assms fs_wf_replace [OF assms(2,3)] by (auto simp: file_Write_def Let_def split: if_splits)

lemma os_WriteFile_effect:
  assumes "os_WriteFile env path c fs = (fs', Ok ())" "fs_wf fs"
  shows "fs_wf fs'" "fs_get fs' (resolve path) = Some (NFile c)" "q \<noteq> resolve path \<Longrightarrow> fs_get fs' q = fs_get fs q"
proof -
  obtain fs1 where c: "os_Create env path fs = (fs1, Ok ())" "file_Write env path c fs1 = (fs', Ok ())"
    using assms(1) by (auto simp: os_WriteFile_def split: prod.splits sum.splits)
  note e = os_Create_effect [OF c(1) assms(2)]
  obtain b where "fs_get fs1 (resolve path) = Some (NFile b)" using e(2) by blast
  from file_Write_effect [OF c(2) e(1) this] e(3)
  show "fs_wf fs'" "fs_get fs' (resolve path) = Some (NFile c)" "q \<noteq> resolve path \<Longrightarrow> fs_get fs' q = fs_get fs q" by auto
qed

lemma file_step_Ok: "file_step x = (fs', Ok r) \<Longrightarrow> x = (fs', Ok r)"
  by (auto simp: file_step_def map_err_def split: prod.splits sum.splits)

lemma downloadBlobToFile_effect:
  assumes "downloadBlobToFile env dl src d path fs = (fs', Ok ())" "fs_wf fs"
  shows "fs_wf fs'" "\<exists>b. fs_get fs' (resolve path) = Some (NFile b) \<and> dg_hash dl (dg_algorithm dl d) b = d"
    "q \<noteq> resolve path \<Longrightarrow> fs_get fs q \<noteq> None \<Longrightarrow> fs_get fs' q = fs_get fs q"
proof -
  obtain fs1 fs2 payload where s: "os_MkdirAll env (path_Dir path) fs = (fs1, Ok ())" "os_Create env path fs1 = (fs2, Ok ())"
      "file_Write env path payload fs2 = (fs', Ok ())" "dg_hash dl (dg_algorithm dl d) payload = d"
  proof -
    obtain fs1 where m: "os_MkdirAll env (path_Dir path) fs = (fs1, Ok ())"
      and k: "(case is_blob src d of None \<Rightarrow> (fs1, Err RegistryErr) | Some payload \<Rightarrow>
           and_then (file_step (os_Create env path fs1)) (\<lambda>fs _.
           and_then (file_step (file_Write env path payload fs)) (\<lambda>fs _.
             if dg_hash dl (dg_algorithm dl d) payload \<noteq> d then (fs, Err DigestMismatch) else (fs, Ok ())))) = (fs', Ok ())"
      using assms(1) unfolding downloadBlobToFile_def by (cases rule: and_then_cases) (auto dest: file_step_Ok)
    then obtain payload where p: "and_then (file_step (os_Create env path fs1)) (\<lambda>fs _.
           and_then (file_step (file_Write env path payload fs)) (\<lambda>fs _.
             if dg_hash dl (dg_algorithm dl d) payload \<noteq> d then (fs, Err DigestMismatch) else (fs, Ok ()))) = (fs', Ok ())"
      by (auto split: option.splits)
    then obtain fs2 where c: "os_Create env path fs1 = (fs2, Ok ())" "and_then (file_step (file_Write env path payload fs2)) (\<lambda>fs _.
             if dg_hash dl (dg_algorithm dl d) payload \<noteq> d then (fs, Err DigestMismatch) else (fs, Ok ())) = (fs', Ok ())"
      by (cases rule: and_then_cases) (auto dest: file_step_Ok)
    from c(2) have "file_Write env path payload fs2 = (fs', Ok ()) \<and> dg_hash dl (dg_algorithm dl d) payload = d"
      by (cases rule: and_then_cases) (auto dest: file_step_Ok split: if_splits)
    then show thesis using that m c(1) by blast
  qed
  note m = os_MkdirAll_spec [OF s(1) assms(2)]
  note c = os_Create_effect [OF s(2) m(1)]
  obtain b where b: "fs_get fs2 (resolve path) = Some (NFile b)" using c(2) by blast
  note w = file_Write_effect [OF s(3) c(1) b]
  show "fs_wf fs'" "\<exists>b. fs_get fs' (resolve path) = Some (NFile b) \<and> dg_hash dl (dg_algorithm dl d) b = d" using w s(4) by auto
  show "q \<noteq> resolve path \<Longrightarrow> fs_get fs q \<noteq> None \<Longrightarrow> fs_get fs' q = fs_get fs q"
    using w(3) c(3) dirs_added_keep [OF m(2)] by auto
qed

section \<open>The image cache\<close>

text \<open>
  What the converter relies on of parsed digests: algorithm and encoded part are file names, and together
  they determine the digest.
\<close>

definition digest_laws :: "digest_lib \<Rightarrow> bool" where
  "digest_laws dl \<longleftrightarrow>
     (\<forall>s d. dg_parse dl s = Some d \<longrightarrow> file_name (dg_algorithm dl d) \<and> file_name (dg_encoded dl d @ ''.blob'')) \<and>
     (\<forall>s d s' d'. dg_parse dl s = Some d \<and> dg_parse dl s' = Some d' \<and> dg_algorithm dl d = dg_algorithm dl d' \<and>
        dg_encoded dl d = dg_encoded dl d' \<longrightarrow> d = d')"

text \<open>A layer is in the cache, under the path of its digest and with a content that has it.\<close>

definition layer_ok :: "digest_lib \<Rightarrow> string \<Rightarrow> fs \<Rightarrow> layer_file \<Rightarrow> bool" where
  "layer_ok dl cacheDir fs l \<longleftrightarrow>
     (\<exists>s. dg_parse dl s = Some (lf_Digest l)) \<and> lf_Path l = cachedLayerPath dl cacheDir (lf_Digest l) \<and>
     (\<exists>b. fs_get fs (resolve (lf_Path l)) = Some (NFile b) \<and> dg_hash dl (dg_algorithm dl (lf_Digest l)) b = lf_Digest l)"

lemma resolve_cachedLayerPath:
  assumes "digest_laws dl" "dg_parse dl s = Some d"
  shows "resolve (cachedLayerPath dl C d) = resolve C @ [''layers'', dg_algorithm dl d, dg_encoded dl d @ ''.blob'']"
    and "cachedLayerPath dl C d \<noteq> []"
proof -
  have "list_all file_name [''layers'', dg_algorithm dl d, dg_encoded dl d @ ''.blob'']"
    using assms by (simp add: digest_laws_def) (simp add: file_name_def)
  from resolve_path_Join_names [OF this, of C]
  show "resolve (cachedLayerPath dl C d) = resolve C @ [''layers'', dg_algorithm dl d, dg_encoded dl d @ ''.blob'']"
    "cachedLayerPath dl C d \<noteq> []" by (simp_all add: cachedLayerPath_def)
qed

lemma layer_download:
  assumes laws: "digest_laws dl" and p: "dg_parse dl s = Some d"
    and run: "downloadBlobToFile env dl src d (cachedLayerPath dl C d) fs = (fs', Ok ())" and wf: "fs_wf fs"
  shows "fs_wf fs'" "layer_ok dl C fs' \<lparr>lf_Digest = d, lf_Path = cachedLayerPath dl C d\<rparr>"
    "layer_ok dl C fs l \<Longrightarrow> layer_ok dl C fs' l"
    "fs_get fs q = Some n \<Longrightarrow> \<not> prefix (resolve C @ [''layers'']) q \<Longrightarrow> fs_get fs' q = Some n"
proof -
  note e = downloadBlobToFile_effect [OF run wf]
  note r = resolve_cachedLayerPath [OF laws p, of C]
  show "fs_wf fs'" by (rule e(1))
  show new: "layer_ok dl C fs' \<lparr>lf_Digest = d, lf_Path = cachedLayerPath dl C d\<rparr>"
    using e(2) p by (auto simp: layer_ok_def)
  show "fs_get fs q = Some n \<Longrightarrow> \<not> prefix (resolve C @ [''layers'']) q \<Longrightarrow> fs_get fs' q = Some n"
    using e(3) [of q] r(1) by (auto simp: prefix_def)
  assume l: "layer_ok dl C fs l"
  then obtain s' where s': "dg_parse dl s' = Some (lf_Digest l)" by (auto simp: layer_ok_def)
  show "layer_ok dl C fs' l"
  proof (cases "resolve (lf_Path l) = resolve (cachedLayerPath dl C d)")
    case True
    then have "dg_algorithm dl d = dg_algorithm dl (lf_Digest l)" "dg_encoded dl d = dg_encoded dl (lf_Digest l)"
      using l r(1) resolve_cachedLayerPath(1) [OF laws s', of C] by (auto simp: layer_ok_def)
    then have "lf_Digest l = d" using laws p s' unfolding digest_laws_def by metis
    then show ?thesis using new l by (auto simp: layer_ok_def)
  next
    case False
    then show ?thesis using l e(3) [OF False] by (auto simp: layer_ok_def)
  qed
qed

lemma pull_layers_effect:
  assumes "pull_layers env dl src C layers fs = (fs', Ok ls)" "fs_wf fs" "digest_laws dl"
  shows "fs_wf fs' \<and> (\<forall>l. layer_ok dl C fs l \<or> l \<in> set ls \<longrightarrow> layer_ok dl C fs' l) \<and>
     (\<forall>q n. fs_get fs q = Some n \<and> \<not> prefix (resolve C @ [''layers'']) q \<longrightarrow> fs_get fs' q = Some n) \<and>
     list_all2 (\<lambda>layer l. parseDigest dl (de_Digest layer) = Ok (lf_Digest l) \<and> lf_Path l = cachedLayerPath dl C (lf_Digest l)) layers ls"
  using assms(1,2)
proof (induction layers arbitrary: fs ls)
  case (Cons layer layers)
  obtain d where d: "parseDigest dl (de_Digest layer) = Ok d" using Cons.prems(1) by (auto split: sum.splits)
  then obtain s where s: "dg_parse dl s = Some d" by (auto simp: parseDigest_def split: option.splits)
  let ?p = "cachedLayerPath dl C d"
  obtain fs1 where f: "downloadBlobToFile env dl src d ?p fs = (fs1, Ok ())"
    using Cons.prems(1) d by (auto simp: Let_def split: prod.splits sum.splits)
  obtain ls1 where rest: "pull_layers env dl src C layers fs1 = (fs', Ok ls1)" "ls = \<lparr>lf_Digest = d, lf_Path = ?p\<rparr> # ls1"
    using Cons.prems(1) d f by (auto simp: Let_def split: prod.splits sum.splits)
  note e = layer_download [OF assms(3) s f Cons.prems(2)]
  from Cons.IH [OF rest(1) e(1)] show ?case using e(2-4) rest(2) d by auto
qed simp

lemma cached_layers_found:
  assumes "list_all2 (\<lambda>layer l. parseDigest dl (de_Digest layer) = Ok (lf_Digest l) \<and> lf_Path l = cachedLayerPath dl C (lf_Digest l)) layers ls"
    and "\<forall>l \<in> set ls. layer_ok dl C fs l" "fs_wf fs" "reads_ok env" "digest_laws dl"
  shows "cached_layers env dl C layers fs = Ok ls"
  using assms(1,2)
proof (induction rule: list_all2_induct)
  case (Cons layer layers l ls)
  obtain s where s: "dg_parse dl s = Some (lf_Digest l)" using Cons.prems by (auto simp: layer_ok_def)
  obtain b where "fs_get fs (resolve (lf_Path l)) = Some (NFile b)" using Cons.prems by (auto simp: layer_ok_def)
  then have "os_Stat env (lf_Path l) fs = Ok (NFile b)"
    using os_Stat_Ok [OF assms(3)] assms(4) resolve_cachedLayerPath(2) [OF assms(5) s] Cons.hyps(1) by (simp add: reads_ok_def)
  then show ?case using Cons by (auto simp: Let_def)
qed simp

lemma cache_file:
  assumes "file_name x"
  shows "resolve (path_Join [C, x]) = resolve C @ [x]" "path_Join [C, x] \<noteq> []" "\<not> prefix (resolve C @ [''layers'']) (resolve C @ [x]) \<or> x = ''layers''"
  using resolve_path_Join [OF assms] path_Join_ne [OF assms] by (auto simp: prefix_def)

lemma fetch_image_Ok: "fetch_image dl os arch src = Ok (mb, m, cb) \<Longrightarrow> parseImageManifest mb = Ok m"
  by (auto simp: fetch_image_def split: sum.splits)

lemma pullAndCacheImage_Ok:
  assumes "pullAndCacheImage env dl os arch registry img C fs = (fs', Ok pulled)" "fs_wf fs"
  obtains src mb m cb fs0 where "store_image env dl src C mb m cb fs0 = (fs', Ok pulled)" "parseImageManifest mb = Ok m" "fs_wf fs0"
proof -
  from assms(1) obtain fs1 where r: "os_RemoveAll env C fs = (fs1, Ok ())"
    and k: "and_then (file_step (os_MkdirAll env C fs1)) (\<lambda>fs _.
       case registry (normalizedDockerReference img) of None \<Rightarrow> (fs, Err RegistryErr)
       | Some src \<Rightarrow> (case fetch_image dl os arch src of Err e \<Rightarrow> (fs, Err e)
            | Ok (manifestBytes, m, configBytes) \<Rightarrow> store_image env dl src C manifestBytes m configBytes fs)) = (fs', Ok pulled)"
    unfolding pullAndCacheImage_def by (cases rule: and_then_cases) (auto dest: file_step_Ok)
  from k obtain fs0 where m: "os_MkdirAll env C fs1 = (fs0, Ok ())"
    and k': "(case registry (normalizedDockerReference img) of None \<Rightarrow> (fs0, Err RegistryErr)
       | Some src \<Rightarrow> (case fetch_image dl os arch src of Err e \<Rightarrow> (fs0, Err e)
            | Ok (manifestBytes, m, configBytes) \<Rightarrow> store_image env dl src C manifestBytes m configBytes fs0)) = (fs', Ok pulled)"
    by (cases rule: and_then_cases) (auto dest: file_step_Ok)
  have "fs_wf fs0" using os_MkdirAll_spec(1) [OF m os_RemoveAll_wf [OF r assms(2)]] .
  then show thesis using that k' fetch_image_Ok by (fastforce split: option.splits sum.splits prod.splits)
qed

lemma store_image_Ok:
  assumes "store_image env dl src C mb m cb fs = (fs', Ok pulled)"
  obtains fs1 fs2 cfg ls where "os_WriteFile env (path_Join [C, ''manifest.json'']) mb fs = (fs1, Ok ())"
    "os_WriteFile env (path_Join [C, ''config.json'']) cb fs1 = (fs2, Ok ())" "parse_config_blob cb = Ok cfg"
    "pull_layers env dl src C (im_Layers m) fs2 = (fs', Ok ls)" "pulled = \<lparr>pi_Config = cfg, pi_Layers = ls\<rparr>"
proof -
  let ?k2 = "\<lambda>fs (_ :: unit). case parse_config_blob cb of Err e \<Rightarrow> (fs, Err e)
       | Ok cfg \<Rightarrow> and_then (pull_layers env dl src C (im_Layers m) fs) (\<lambda>fs layers. (fs, Ok \<lparr>pi_Config = cfg, pi_Layers = layers\<rparr>))"
  from assms obtain fs1 where w1: "os_WriteFile env (path_Join [C, ''manifest.json'']) mb fs = (fs1, Ok ())"
    and k: "and_then (file_step (os_WriteFile env (path_Join [C, ''config.json'']) cb fs1)) ?k2 = (fs', Ok pulled)"
    unfolding store_image_def by (cases rule: and_then_cases) (auto dest: file_step_Ok)
  from k obtain fs2 where w2: "os_WriteFile env (path_Join [C, ''config.json'']) cb fs1 = (fs2, Ok ())" and k': "?k2 fs2 () = (fs', Ok pulled)"
    by (cases rule: and_then_cases) (auto dest: file_step_Ok)
  from k' obtain cfg where c: "parse_config_blob cb = Ok cfg"
    "and_then (pull_layers env dl src C (im_Layers m) fs2) (\<lambda>fs layers. (fs, Ok \<lparr>pi_Config = cfg, pi_Layers = layers\<rparr>)) = (fs', Ok pulled)"
    by (auto split: sum.splits)
  from c(2) show thesis using that [OF w1 w2 c(1)] by (cases rule: and_then_cases) auto
qed

text \<open>
  C23: what was pulled can be reused: when an image was pulled into the cache, a later conversion that
  skips the pull reads back exactly the same configuration and layers, and the content of every layer
  in the cache has the digest under which it is stored.
\<close>

theorem image_cache_roundtrip:
  assumes run: "pullAndCacheImage env dl os arch registry img C fs = (fs', Ok pulled)" and wf: "fs_wf fs"
    and rd: "reads_ok env" and laws: "digest_laws dl"
  shows "readCachedImage env dl C fs' = Ok pulled \<and>
    (\<forall>l \<in> set (pi_Layers pulled). \<exists>b. os_ReadFile env (lf_Path l) fs' = Ok b \<and> dg_hash dl (dg_algorithm dl (lf_Digest l)) b = lf_Digest l)"
proof -
  obtain src mb m cb fs0 where st: "store_image env dl src C mb m cb fs0 = (fs', Ok pulled)" "parseImageManifest mb = Ok m" "fs_wf fs0"
    by (rule pullAndCacheImage_Ok [OF run wf])
  obtain fs1 fs2 cfg ls where w: "os_WriteFile env (path_Join [C, ''manifest.json'']) mb fs0 = (fs1, Ok ())"
    "os_WriteFile env (path_Join [C, ''config.json'']) cb fs1 = (fs2, Ok ())" "parse_config_blob cb = Ok cfg"
    "pull_layers env dl src C (im_Layers m) fs2 = (fs', Ok ls)" "pulled = \<lparr>pi_Config = cfg, pi_Layers = ls\<rparr>"
    by (rule store_image_Ok [OF st(1)])
  have fn: "file_name ''manifest.json''" "file_name ''config.json''" by (simp_all add: file_name_def)
  note p = cache_file [OF fn(1), of C] cache_file [OF fn(2), of C]
  note e1 = os_WriteFile_effect [OF w(1) st(3), unfolded p]
  note e2 = os_WriteFile_effect [OF w(2) e1(1), unfolded p]
  note e3 = pull_layers_effect [OF w(4) e2(1) laws]
  have "fs_get fs2 (resolve C @ [''manifest.json'']) = Some (NFile mb)" using e2(3) [of "resolve C @ [''manifest.json'']"] e1(2) by simp
  then have g: "fs_get fs' (resolve C @ [''manifest.json'']) = Some (NFile mb)" "fs_get fs' (resolve C @ [''config.json'']) = Some (NFile cb)"
    using e3 e2(2) by (auto simp: prefix_def)
  have wf': "fs_wf fs'" using e3 by blast
  have "os_ReadFile env (path_Join [C, ''manifest.json'']) fs' = Ok mb" "os_ReadFile env (path_Join [C, ''config.json'']) fs' = Ok cb"
    using os_ReadFile_Ok [OF wf'] g rd p by (simp_all add: reads_ok_def)
  moreover have ok: "\<forall>l \<in> set ls. layer_ok dl C fs' l" using e3 by blast
  moreover have "cached_layers env dl C (im_Layers m) fs' = Ok ls"
    using cached_layers_found [OF _ ok wf' rd laws] e3 by blast
  ultimately have "readCachedImage env dl C fs' = Ok pulled" using st(2) w(3,5) by (simp add: readCachedImage_def)
  moreover have "\<exists>b. os_ReadFile env (lf_Path l) fs' = Ok b \<and> dg_hash dl (dg_algorithm dl (lf_Digest l)) b = lf_Digest l"
    if l: "l \<in> set (pi_Layers pulled)" for l
    using ok l w(5) os_ReadFile_Ok [OF wf'] rd resolve_cachedLayerPath(2) [OF laws] by (fastforce simp: layer_ok_def reads_ok_def)
  ultimately show ?thesis by blast
qed

text \<open>A registry with one image, of one layer; the other registry sends a damaged layer.\<close>

definition sample_digests :: digest_lib where
  "sample_digests =
     \<lparr>dg_parse = (\<lambda>s. if s = ''sha256:c'' \<or> s = ''sha256:l'' then Some s else None), dg_algorithm = (\<lambda>_. ''sha256''), dg_encoded = drop 7,
      dg_hash = (\<lambda>_ b. case b of JSONDoc _ \<Rightarrow> ''sha256:c'' | Raw s \<Rightarrow> if s = ''layer'' then ''sha256:l'' else ''sha256:x'')\<rparr>"

definition sample_manifest :: body where
  "sample_manifest =
     JSONDoc (JObj [(''config'', JObj [(''digest'', JStr ''sha256:c'')]), (''layers'', JArr [JObj [(''digest'', JStr ''sha256:l'')]])])"

definition sample_config :: body where
  "sample_config = JSONDoc (JObj [(''config'', JObj [(''Cmd'', JArr [JStr ''nginx''])])])"

definition sample_registry :: "string \<Rightarrow> string \<Rightarrow> image_source option" where
  "sample_registry layer ref =
     (if ref = ''//nginx'' then
        Some \<lparr>is_manifest = (\<lambda>d. if d = None then Some sample_manifest else None),
              is_blob = (\<lambda>d. if d = ''sha256:c'' then Some sample_config else Some (Raw layer))\<rparr>
      else None)"

lemma sample_digest_laws: "digest_laws sample_digests"
proof -
  have "file_name ''sha256''" "file_name (drop 7 ''sha256:c'' @ ''.blob'')" "file_name (drop 7 ''sha256:l'' @ ''.blob'')" by code_simp+
  then show ?thesis by (auto simp: digest_laws_def sample_digests_def split: if_splits)
qed

lemma sample_pulled:
  "map_sum id (\<lambda>p. map lf_Digest (pi_Layers p))
     (snd (pullAndCacheImage quiet_env sample_digests ''linux'' ''amd64'' (sample_registry ''layer'') ''nginx'' ''/cache'' [])) = Ok [''sha256:l'']"
  by code_simp

theorem image_cache_roundtrip_witness:
  "\<exists>fs' pulled. pullAndCacheImage quiet_env sample_digests ''linux'' ''amd64'' (sample_registry ''layer'') ''nginx'' ''/cache'' [] = (fs', Ok pulled) \<and>
     readCachedImage quiet_env sample_digests ''/cache'' fs' = Ok pulled \<and> map lf_Digest (pi_Layers pulled) = [''sha256:l'']"
proof -
  let ?run = "pullAndCacheImage quiet_env sample_digests ''linux'' ''amd64'' (sample_registry ''layer'') ''nginx'' ''/cache'' []"
  obtain fs' pulled where r: "?run = (fs', Ok pulled)" "map lf_Digest (pi_Layers pulled) = [''sha256:l'']"
    using sample_pulled by (cases ?run; cases "snd ?run") auto
  have "fs_wf []" by (simp add: fs_wf_def)
  from image_cache_roundtrip [OF r(1) this quiet_reads_ok [OF quiet_quiet_env] sample_digest_laws] r show ?thesis by (intro exI [of _ fs'] exI [of _ pulled] conjI) simp_all
qed


end
