(* ===== verification/Conversion.thy ===== *)
theory Conversion
  imports Converter_Spec
begin

text \<open>
  \<open>src/internal/converter/converter.go\<close>, the run of a conversion: the layers of the image are unpacked
  into a root directory, the init program and the metadata are put into it, an archive and a file
  system image are made of it, and the suggested boot arguments and request are written.
\<close>

section \<open>Unpacking\<close>

text \<open>
  What a conversion uses from outside: the operating system, the digest library, the platform, the
  registry, the search for programs, the unpacking of a layer (which answers whether it worked), which
  entries are symbolic links, the format of an archive (without and with its trailer), the text of JSON
  documents and the programs that are run.
\<close>

record conv_env =
  ce_os :: os_env
  ce_digest :: digest_lib
  ce_goos :: string
  ce_goarch :: string
  ce_registry :: "string \<Rightarrow> image_source option"
  ce_lookPath :: "string \<Rightarrow> string option"
  ce_apply :: "string \<Rightarrow> node \<Rightarrow> fs \<Rightarrow> fs \<times> bool"
  ce_islink :: "string list \<Rightarrow> fs \<Rightarrow> bool"
  ce_tar :: "(string \<times> node) list \<Rightarrow> bool \<Rightarrow> body"
  ce_text :: "json \<Rightarrow> string"
  ce_exec :: "fs \<Rightarrow> string list \<Rightarrow> fs \<times> bool"

text \<open>\<open>os.Open\<close>: a file or directory is opened for reading.\<close>

definition os_Open :: "os_env \<Rightarrow> string \<Rightarrow> fs \<Rightarrow> (oserr, node) result" where
  "os_Open env path fs =
     (let p = resolve path
      in if path = [] then Err ENOENT
         else if os_fault env COpen p fs then Err EIO
         else case lookup fs p of Err e \<Rightarrow> Err e | Ok NSocket \<Rightarrow> Err EIO | Ok n \<Rightarrow> Ok n)"

definition ensureReadableFile :: "os_env \<Rightarrow> string \<Rightarrow> fs \<Rightarrow> conv_err option" where
  "ensureReadableFile env path fs = (case os_Open env path fs of Err e \<Rightarrow> Some (FileErr e) | Ok _ \<Rightarrow> None)"

fun apply_each :: "conv_env \<Rightarrow> string \<Rightarrow> layer_file list \<Rightarrow> fs \<Rightarrow> fs \<times> (conv_err, unit) result" where
  "apply_each ce rootfsDir [] fs = (fs, Ok ())"
| "apply_each ce rootfsDir (layer # layers) fs =
     (case os_Open (ce_os ce) (lf_Path layer) fs of
        Err e \<Rightarrow> (fs, Err (FileErr e))
      | Ok n \<Rightarrow>
          (let (fs1, applied) = ce_apply ce rootfsDir n fs
           in if \<not> applied then (fs1, Err LayerApply)
              else and_then (file_step (fs1, file_Close (ce_os ce) (lf_Path layer) fs1)) (\<lambda>fs _.
                     apply_each ce rootfsDir layers fs)))"

definition applyLayers :: "conv_env \<Rightarrow> layer_file list \<Rightarrow> string \<Rightarrow> fs \<Rightarrow> fs \<times> (conv_err, unit) result" where
  "applyLayers ce layers rootfsDir fs =
     (if length layers = 0 then (fs, Err NoLayers) else apply_each ce rootfsDir layers fs)"

section \<open>The init program\<close>

definition writeExecutableFileReplacingSymlink ::
  "conv_env \<Rightarrow> string \<Rightarrow> body \<Rightarrow> fs \<Rightarrow> fs \<times> (oserr, unit) result" where
  "writeExecutableFileReplacingSymlink ce path content fs =
     (case os_Stat (ce_os ce) path fs of
        Err e \<Rightarrow> if e \<noteq> ENOENT then (fs, Err e) else os_WriteFile (ce_os ce) path content fs
      | Ok _ \<Rightarrow>
          if ce_islink ce (resolve path) fs then
            and_then (os_Remove (ce_os ce) path fs) (\<lambda>fs _. os_WriteFile (ce_os ce) path content fs)
          else os_WriteFile (ce_os ce) path content fs)"

definition injectSbinInit :: "conv_env \<Rightarrow> string \<Rightarrow> string \<Rightarrow> fs \<Rightarrow> fs \<times> (conv_err, unit) result" where
  "injectSbinInit ce hostPath rootfsDir fs =
     (case os_ReadFile (ce_os ce) hostPath fs of
        Err e \<Rightarrow> (fs, Err (FileErr e))
      | Ok content \<Rightarrow>
          (let targetSbinDir = path_Join [rootfsDir, ''sbin'']
           in and_then (file_step (os_MkdirAll (ce_os ce) targetSbinDir fs)) (\<lambda>fs _.
              and_then (file_step (writeExecutableFileReplacingSymlink ce (path_Join [targetSbinDir, ''init'']) content fs)) (\<lambda>fs _.
              file_step (writeExecutableFileReplacingSymlink ce (path_Join [targetSbinDir, ''mergen-init'']) content fs)))))"

section \<open>The archive and the size\<close>

text \<open>The entries below a directory in the order of \<open>filepath.WalkDir\<close>.\<close>

definition walk :: "string list \<Rightarrow> fs \<Rightarrow> (string list \<times> node) list" where
  "walk d fs = sort_key fst (filter (\<lambda>(p, _). strict_prefix d p) fs)"

definition walkable :: "os_env \<Rightarrow> fs \<Rightarrow> string list \<times> node \<Rightarrow> bool" where
  "walkable env fs e = (case e of (p, n) \<Rightarrow> n = NDir \<longrightarrow> \<not> os_fault env CReadDir p fs)"

definition archivable :: "os_env \<Rightarrow> fs \<Rightarrow> string list \<times> node \<Rightarrow> bool" where
  "archivable env fs e =
     (case e of (p, n) \<Rightarrow>
        walkable env fs (p, n) \<and> \<not> os_fault env CStat p fs \<and>
        (case n of
           NDir \<Rightarrow> True
         | NFile _ \<Rightarrow> \<not> os_fault env COpen p fs \<and> \<not> os_fault env CReadFile p fs \<and> \<not> os_fault env CClose p fs
         | NSocket \<Rightarrow> False))"

text \<open>The writes of entries are checked; the trailer is written by a deferred call whose error is dropped.\<close>

definition createTarFromDir :: "conv_env \<Rightarrow> string \<Rightarrow> string \<Rightarrow> fs \<Rightarrow> fs \<times> (conv_err, unit) result" where
  "createTarFromDir ce srcDir tarPath fs =
     and_then (file_step (os_Create (ce_os ce) tarPath fs)) (\<lambda>fs _.
       let d = resolve srcDir;
           es = walk d fs;
           ok = (\<lambda>e. archivable (ce_os ce) fs e);
           names = map (\<lambda>(p, n). (Join (drop (length d) p) ''/'', n)) (takeWhile ok es);
           rootOK = (lookup fs d = Ok NDir \<and> walkable (ce_os ce) fs (d, NDir) \<and> \<not> os_fault (ce_os ce) CStat d fs)
       in if \<not> rootOK then (fst (file_Write (ce_os ce) tarPath (ce_tar ce [] True) fs), Err (FileErr EIO))
          else
            let (fs1, r) = file_step (file_Write (ce_os ce) tarPath (ce_tar ce names False) fs);
                fs2 = fst (file_Write (ce_os ce) tarPath (ce_tar ce names True) fs1)
            in case r of
                 Err e \<Rightarrow> (fs1, Err e)
               | Ok _ \<Rightarrow> (fs2, if list_all ok es then Ok () else Err (FileErr EIO)))"

definition body_size :: "conv_env \<Rightarrow> body \<Rightarrow> int" where
  "body_size ce b = (case b of Raw s \<Rightarrow> int (length s) | JSONDoc j \<Rightarrow> int (length (ce_text ce j)))"

definition directorySizeBytes :: "conv_env \<Rightarrow> string \<Rightarrow> fs \<Rightarrow> (conv_err, int) result" where
  "directorySizeBytes ce dir fs =
     (let d = resolve dir; es = walk d fs;
          fine = (\<lambda>(p, n). walkable (ce_os ce) fs (p, n) \<and> (case n of NFile _ \<Rightarrow> \<not> os_fault (ce_os ce) CStat p fs | _ \<Rightarrow> True))
      in if lookup fs d = Ok NDir \<and> walkable (ce_os ce) fs (d, NDir) \<and> \<not> os_fault (ce_os ce) CStat d fs \<and> list_all fine es then
           Ok (fold (\<lambda>(p, n) total. case n of NFile b \<Rightarrow> wrap64 (total + body_size ce b) | _ \<Rightarrow> total) es 0)
         else Err (FileErr EIO))"

section \<open>A run\<close>

record conv_result =
  cr_Image :: string
  cr_OutputDir :: string
  cr_RootFSDir :: string
  cr_RootFSTarPath :: string
  cr_RootFSExt4Path :: string
  cr_MetadataPath :: string
  cr_SuggestedBootArgsPath :: string
  cr_SuggestedVMPath :: string
  cr_StartCommand :: "string list"
  cr_SuggestedHTTPPort :: int
  cr_BootArgs :: string

definition obtain_image :: "conv_env \<Rightarrow> conv_options \<Rightarrow> string \<Rightarrow> fs \<Rightarrow> fs \<times> (conv_err, pulled_image) result" where
  "obtain_image ce opts cacheDir fs =
     (if op_SkipPull opts then (fs, readCachedImage (ce_os ce) (ce_digest ce) cacheDir fs)
      else pullAndCacheImage (ce_os ce) (ce_digest ce) (ce_goos ce) (ce_goarch ce) (ce_registry ce) (op_Image opts) cacheDir fs)"

definition chosen_size :: "conv_env \<Rightarrow> int \<Rightarrow> string \<Rightarrow> fs \<Rightarrow> (conv_err, int) result" where
  "chosen_size ce sizeMiB rootfsDir fs =
     (if sizeMiB = 0 then
        (case directorySizeBytes ce rootfsDir fs of Err e \<Rightarrow> Err e | Ok rootfsBytes \<Rightarrow> image_size 0 rootfsBytes)
      else image_size sizeMiB 0)"

definition convert_in ::
  "conv_env \<Rightarrow> conv_options \<Rightarrow> int \<Rightarrow> fs \<Rightarrow> fs \<times> (conv_err, conv_result) result" where
  "convert_in ce opts now fs =
     (let env = ce_os ce; out = op_OutputDir opts;
          rootfsDir = path_Join [out, ''rootfs'']; cacheDir = path_Join [out, ''image-cache''];
          rootfsTar = path_Join [out, ''rootfs.tar'']; rootfsExt4 = path_Join [out, ''rootfs.ext4''];
          bootArgsPath = path_Join [out, ''suggested-bootargs.txt'']; suggestedVMPath = path_Join [out, ''suggested-vm-request.json'']
      in and_then (file_step (os_MkdirAll env out fs)) (\<lambda>fs _.
         and_then (file_step (os_RemoveAll env rootfsDir fs)) (\<lambda>fs _.
         and_then (file_step (os_MkdirAll env rootfsDir fs)) (\<lambda>fs _.
         and_then (obtain_image ce opts cacheDir fs) (\<lambda>fs pulled.
         and_then (applyLayers ce (pi_Layers pulled) rootfsDir fs) (\<lambda>fs _.
         and_then (injectSbinInit ce (op_SbinInitPath opts) rootfsDir fs) (\<lambda>fs _.
         and_then (writeMetadataFiles env rootfsDir out (image_meta opts now (pi_Config pulled)) fs) (\<lambda>fs _.
         and_then (createTarFromDir ce rootfsDir rootfsTar fs) (\<lambda>fs _.
         and_then (fs, chosen_size ce (op_SizeMiB opts) rootfsDir fs) (\<lambda>fs sizeMiB.
         and_then (buildExt4 (ce_exec ce) rootfsDir rootfsExt4 sizeMiB fs) (\<lambda>fs _.
         and_then (file_step (os_WriteFile env bootArgsPath (Raw (converterBootArgs @ [CHR 10])) fs)) (\<lambda>fs _.
         (let port = inferHTTPPort (map fst (ic_ExposedPorts (pi_Config pulled)))
          in and_then (writeSuggestedVMRequest env suggestedVMPath (op_Image opts) rootfsExt4 port fs) (\<lambda>fs _.
             (fs, Ok \<lparr>cr_Image = op_Image opts, cr_OutputDir = out, cr_RootFSDir = rootfsDir, cr_RootFSTarPath = rootfsTar,
                      cr_RootFSExt4Path = rootfsExt4, cr_MetadataPath = path_Join [out, ''image-meta.json''],
                      cr_SuggestedBootArgsPath = bootArgsPath, cr_SuggestedVMPath = suggestedVMPath,
                      cr_StartCommand = composeStartCommand (ic_Entrypoint (pi_Config pulled)) (ic_Cmd (pi_Config pulled)),
                      cr_SuggestedHTTPPort = port, cr_BootArgs = converterBootArgs\<rparr>)))))))))))))))"

definition Convert :: "conv_env \<Rightarrow> conv_options \<Rightarrow> int \<Rightarrow> fs \<Rightarrow> fs \<times> (conv_err, conv_result) result" where
  "Convert ce opts now fs =
     (case normalizeOptions opts of
        Err e \<Rightarrow> (fs, Err e)
      | Ok normalized \<Rightarrow>
     (case ensureCommand (ce_lookPath ce) ''truncate'' of
        Some e \<Rightarrow> (fs, Err e)
      | None \<Rightarrow>
     (case ensureCommand (ce_lookPath ce) ''mkfs.ext4'' of
        Some e \<Rightarrow> (fs, Err e)
      | None \<Rightarrow>
     (case ensureReadableFile (ce_os ce) (op_SbinInitPath normalized) fs of
        Some e \<Rightarrow> (fs, Err e)
      | None \<Rightarrow> convert_in ce normalized now fs))))"

end
