(* ===== verification/Go_Net.thy ===== *)
theory Go_Net
  imports Go_Netip
begin

unbundle bit_operations_syntax

text \<open>
  The part of Go's package \<open>net\<close> that the guest's init program uses: addresses as 16 byte values, an
  IPv4 address in its mapped form, the parsers of addresses and of CIDR notation, and masks.
\<close>

type_synonym net_IP = "128 word"

section \<open>Values of IPv6 addresses\<close>

definition hex_val :: "char \<Rightarrow> nat" where
  "hex_val c =
     (let n = of_char c :: nat in if is_digit c then n - 48 else if n \<ge> 97 then n - 87 else n - 55)"

definition group_val :: "string \<Rightarrow> 16 word" where
  "group_val s = foldl (\<lambda>v c. 16 * v + of_nat (hex_val c)) 0 s"

text \<open>
  The loop of \<open>netip.parseIPv6\<close> with the bytes it fills: \<open>bs\<close> are the bytes so far and \<open>e\<close> is the
  position of the ellipsis.
\<close>

definition expand_ellipsis :: "nat option \<Rightarrow> 8 word list \<Rightarrow> 8 word list option" where
  "expand_ellipsis e bs =
     (case e of
        None \<Rightarrow> if length bs < 16 then None else Some bs
      | Some k \<Rightarrow> if length bs < 16 then Some (take k bs @ replicate (16 - length bs) 0 @ drop k bs) else None)"

definition octet_list :: "u32 \<Rightarrow> 8 word list" where
  "octet_list w = (let (a, b, c, d) = As4 w in [a, b, c, d])"

function ipv6_bytes :: "8 word list \<Rightarrow> nat option \<Rightarrow> string \<Rightarrow> 8 word list option" where
  "ipv6_bytes bs e s =
     (if length bs \<ge> 16 then (if s = [] then expand_ellipsis e bs else None)
      else
        let digits = takeWhile is_hex s; off = length digits; r = drop off s;
            bs' = bs @ [ucast (drop_bit 8 (group_val digits)), ucast (group_val digits)] in
        if off = 0 \<or> off > 4 then None
        else if r \<noteq> [] \<and> hd r = CHR ''.'' then
          (if (e = None \<and> length bs \<noteq> 12) \<or> length bs + 4 > 16 then None
           else case parseIPv4 s of None \<Rightarrow> None | Some w \<Rightarrow> expand_ellipsis e (bs @ octet_list w))
        else if r = [] then expand_ellipsis e bs'
        else if hd r \<noteq> CHR '':'' \<or> length r = 1 then None
        else if hd (tl r) = CHR '':'' then
          (if e \<noteq> None then None
           else if tl (tl r) = [] then expand_ellipsis (Some (length bs')) bs'
           else ipv6_bytes bs' (Some (length bs')) (tl (tl r)))
        else ipv6_bytes bs' e (tl r))"
  by pat_completeness auto
termination
  by (relation "measure (\<lambda>(bs, e, s). 16 - length bs)") auto

declare ipv6_bytes.simps [simp del]

definition ip_of_bytes :: "8 word list \<Rightarrow> net_IP" where
  "ip_of_bytes bs = foldl (\<lambda>v b. 256 * v + ucast b) 0 bs"

definition ipv6_value :: "string \<Rightarrow> net_IP option" where
  "ipv6_value s =
     map_option ip_of_bytes
       (if HasPrefix s ''::'' then (if drop 2 s = [] then Some (replicate 16 0) else ipv6_bytes [] (Some 0) (drop 2 s))
        else ipv6_bytes [] None s)"

section \<open>Addresses and masks\<close>

text \<open>The 16 byte form of an IPv4 address, and \<open>To4\<close>, which is defined for just those values.\<close>

definition IPv4 :: "u32 \<Rightarrow> net_IP" where
  "IPv4 w = push_bit 32 0xFFFF OR ucast w"

definition To4 :: "net_IP \<Rightarrow> u32 option" where
  "To4 ip = (if drop_bit 32 ip = 0xFFFF then Some (ucast ip) else None)"

text \<open>
  \<open>netip.ParseAddr\<close> for an address without a zone, with the number of bits of its family; an IPv4
  address written in IPv6 notation counts as IPv6 here, although \<open>To4\<close> is defined for it.
\<close>

definition parse_addr :: "string \<Rightarrow> (net_IP \<times> nat) option" where
  "parse_addr s =
     (case ParseAddr s of
        None \<Rightarrow> None
      | Some (Addr4 w) \<Rightarrow> Some (IPv4 w, 32)
      | Some (Addr6 z) \<Rightarrow> if z then None else map_option (\<lambda>v. (v, 128)) (ipv6_value s))"

definition net_ParseIP :: "string \<Rightarrow> net_IP option" where
  "net_ParseIP s = map_option fst (parse_addr s)"

text \<open>A mask of \<open>ones\<close> leading ones as that number, with the number of bits; \<open>None\<close> is the nil mask.\<close>

type_synonym net_mask = "(nat \<times> nat) option"

definition CIDRMask :: "nat \<Rightarrow> nat \<Rightarrow> net_mask" where
  "CIDRMask ones bits = (if ones > bits then None else Some (ones, bits))"

text \<open>\<open>net.ParseCIDR\<close>: the address and the length of the prefix; the text is split at the first slash.\<close>

definition ParseCIDR :: "string \<Rightarrow> (net_IP \<times> net_mask) option" where
  "ParseCIDR s =
     (if CHR ''/'' \<notin> set s then None
      else
        let addr = takeWhile (\<lambda>c. c \<noteq> CHR ''/'') s; mask = tl (dropWhile (\<lambda>c. c \<noteq> CHR ''/'') s)
        in case parse_addr addr of
             None \<Rightarrow> None
           | Some (ip, bits) \<Rightarrow>
               (case parse_dec mask of
                  None \<Rightarrow> None
                | Some n \<Rightarrow> if n > bits then None else Some (ip, CIDRMask n bits)))"

section \<open>Lemmas\<close>

lemma expand_ellipsis_Some: "(expand_ellipsis e bs \<noteq> None) = (if length bs < 16 then e \<noteq> None else e = None)"
  by (auto simp: expand_ellipsis_def split: option.splits)

text \<open>The values exist for just the texts that are accepted as IPv6 addresses.\<close>

lemma octet_list_length [simp]: "length (octet_list w) = 4"
  by (simp add: octet_list_def As4_def)

lemma ipv6_bytes_accepts:
  "length bs \<le> 16 \<Longrightarrow> even (length bs) \<Longrightarrow> (ipv6_bytes bs e s \<noteq> None) = ipv6_loop (length bs) (e \<noteq> None) s"
proof (induction bs e s rule: ipv6_bytes.induct)
  case (1 bs e s)
  let ?d = "takeWhile is_hex s"
  let ?r = "drop (length ?d) s" and ?bs = "bs @ [ucast (drop_bit 8 (group_val ?d)), ucast (group_val ?d) :: 8 word]"
  have b: "length bs < 16 \<Longrightarrow> length bs \<le> 14" using 1(4) by presburger
  consider "length bs \<ge> 16" | "length bs < 16" "length ?d = 0 \<or> length ?d > 4"
    | (dot) "length bs < 16" "\<not> (length ?d = 0 \<or> length ?d > 4)" "?r \<noteq> [] \<and> hd ?r = CHR ''.''"
    | (nil) "length bs < 16" "\<not> (length ?d = 0 \<or> length ?d > 4)" "?r = []"
    | (bad) "length bs < 16" "\<not> (length ?d = 0 \<or> length ?d > 4)" "?r \<noteq> []" "hd ?r \<noteq> CHR ''.''" "hd ?r \<noteq> CHR '':'' \<or> length ?r = 1"
    | (two) "length bs < 16" "\<not> (length ?d = 0 \<or> length ?d > 4)" "?r \<noteq> []" "hd ?r = CHR '':''" "length ?r \<noteq> 1" "hd (tl ?r) = CHR '':''"
    | (one) "length bs < 16" "\<not> (length ?d = 0 \<or> length ?d > 4)" "?r \<noteq> []" "hd ?r = CHR '':''" "length ?r \<noteq> 1" "hd (tl ?r) \<noteq> CHR '':''"
    by (metis not_le)
  then show ?case
  proof cases
    case dot
    then show ?thesis using b
      by (subst ipv6_bytes.simps, subst ipv6_loop.simps) (cases "parseIPv4 s"; simp add: Let_def expand_ellipsis_Some del: not_None_eq)
  next
    case two
    then show ?thesis using b 1(4) 1(1) [OF _ refl refl refl refl]
      by (subst ipv6_bytes.simps, subst ipv6_loop.simps) (cases e; simp add: Let_def expand_ellipsis_Some del: not_None_eq)
  next
    case one
    then show ?thesis using b 1(4) 1(2) [OF _ refl refl refl refl]
      by (subst ipv6_bytes.simps, subst ipv6_loop.simps) (simp add: Let_def del: not_None_eq)
  qed (use b 1(3) in \<open>subst ipv6_bytes.simps, subst ipv6_loop.simps, simp add: Let_def expand_ellipsis_Some del: not_None_eq\<close>)+
qed

lemma drop_bit_IPv4: "drop_bit 32 (IPv4 w) = 0xFFFF"
  unfolding IPv4_def
  by (rule bit_word_eqI) (auto simp: bit_simps dest: bit_imp_le_length)

lemma To4_IPv4 [simp]: "To4 (IPv4 w) = Some w"
proof -
  have "ucast (push_bit 32 0xFFFF OR ucast w :: net_IP) = w"
    by (rule bit_word_eqI) (simp only: bit_simps, auto)
  then show ?thesis unfolding To4_def drop_bit_IPv4 by (simp only: IPv4_def simp_thms if_True)
qed

end
