(* ===== verification/Init.thy ===== *)
theory Init
  imports Converter Go_Net
begin

text \<open>
  \<open>src/cmd/mergen-init-snapshot/main.go\<close>: the first program of the guest.  It mounts the base file
  systems, reads what to start, prepares files, mounts and addresses, starts the main process and
  stands by until that ends.  The kernel is a parameter: mounts, links, users, the start of a process
  and the results of waiting and of signals are arguments of the definitions that use them.
\<close>

section \<open>Startup data\<close>

definition defaultMetaPath :: string where "defaultMetaPath = ''/etc/mergen/image-meta.json''"
definition defaultFlyRunPath :: string where "defaultFlyRunPath = ''/fly/run.json''"

record imageMeta =
  im_Image :: string
  im_Entrypoint :: "string list"
  im_Cmd :: "string list"
  im_StartCmd :: "string list"
  im_Env :: "string list"
  im_WorkingDir :: string
  im_User :: string

record flyImageConfig =
  fi_Entrypoint :: "string list"
  fi_Cmd :: "string list"
  fi_Env :: "string list"
  fi_WorkingDir :: string
  fi_User :: string

record flyIPConfig =
  ip_Gateway :: string
  ip_IP :: string
  ip_Mask :: "8 word"

record flyMount =
  mt_MountPath :: string
  mt_DevicePath :: string

record flyEtcHost =
  eh_Host :: string
  eh_IP :: string
  eh_Desc :: string

record flyEtcResolv =
  er_Nameservers :: "string list"

record flyRunConfig =
  fc_ImageConfig :: "flyImageConfig option"
  fc_ExecOverride :: "string list"
  fc_ExtraEnv :: "string gomap"
  fc_UserOverride :: string
  fc_CmdOverride :: string
  fc_IPConfigs :: "flyIPConfig list"
  fc_TTY :: bool
  fc_Hostname :: string
  fc_Mounts :: "flyMount list"
  fc_EtcResolv :: "flyEtcResolv option"
  fc_EtcHosts :: "flyEtcHost list"
  fc_RootDevice :: string

record startSpec =
  ss_Argv :: "string list"
  ss_Env :: "string gomap"
  ss_User :: string
  ss_WorkingDir :: string
  ss_Hostname :: string
  ss_IPConfigs :: "flyIPConfig list"
  ss_Mounts :: "flyMount list"
  ss_EtcHosts :: "flyEtcHost list"
  ss_EtcResolv :: "flyEtcResolv option"

section \<open>Decoding\<close>

definition zero_imageMeta :: imageMeta where
  "zero_imageMeta =
     \<lparr>im_Image = [], im_Entrypoint = [], im_Cmd = [], im_StartCmd = [], im_Env = [], im_WorkingDir = [], im_User = []\<rparr>"

fun dec_imageMeta_member :: "string \<times> json \<Rightarrow> imageMeta \<Rightarrow> (json_error, imageMeta) result" where
  "dec_imageMeta_member (k, j) m =
     (let f = field_key [''image'', ''entrypoint'', ''cmd'', ''startCmd'', ''env'', ''workingDir'', ''user''] k in
      if f = Some ''image'' then dec_field dec_str j (im_Image m) (\<lambda>v. m\<lparr>im_Image := v\<rparr>)
      else if f = Some ''entrypoint'' then dec_field (dec_list dec_str []) j (im_Entrypoint m) (\<lambda>v. m\<lparr>im_Entrypoint := v\<rparr>)
      else if f = Some ''cmd'' then dec_field (dec_list dec_str []) j (im_Cmd m) (\<lambda>v. m\<lparr>im_Cmd := v\<rparr>)
      else if f = Some ''startCmd'' then dec_field (dec_list dec_str []) j (im_StartCmd m) (\<lambda>v. m\<lparr>im_StartCmd := v\<rparr>)
      else if f = Some ''env'' then dec_field (dec_list dec_str []) j (im_Env m) (\<lambda>v. m\<lparr>im_Env := v\<rparr>)
      else if f = Some ''workingDir'' then dec_field dec_str j (im_WorkingDir m) (\<lambda>v. m\<lparr>im_WorkingDir := v\<rparr>)
      else if f = Some ''user'' then dec_field dec_str j (im_User m) (\<lambda>v. m\<lparr>im_User := v\<rparr>)
      else Ok m)"

definition dec_imageMeta :: "json \<Rightarrow> imageMeta \<Rightarrow> (json_error, imageMeta) result" where
  "dec_imageMeta = dec_struct dec_imageMeta_member"

text \<open>A pointer to a struct: \<open>null\<close> makes it nil, an object is decoded into what it points to.\<close>

definition dec_ptr :: "(json \<Rightarrow> 'v \<Rightarrow> (json_error, 'v) result) \<Rightarrow> 'v \<Rightarrow> json \<Rightarrow> 'v option \<Rightarrow> (json_error, 'v option) result" where
  "dec_ptr d z j old =
     (if j = JNull then Ok None
      else case d j (case old of None \<Rightarrow> z | Some v \<Rightarrow> v) of Err e \<Rightarrow> Err e | Ok v \<Rightarrow> Ok (Some v))"

definition dec_uint8 :: "json \<Rightarrow> 8 word \<Rightarrow> (json_error, 8 word) result" where
  "dec_uint8 j old =
     (case j of
        JNum lit \<Rightarrow>
          (case parse_dec lit of
             None \<Rightarrow> Err TypeMismatch
           | Some n \<Rightarrow> if n > 255 then Err TypeMismatch else Ok (of_nat n))
      | JNull \<Rightarrow> Ok old
      | _ \<Rightarrow> Err TypeMismatch)"

definition zero_flyImageConfig :: flyImageConfig where
  "zero_flyImageConfig = \<lparr>fi_Entrypoint = [], fi_Cmd = [], fi_Env = [], fi_WorkingDir = [], fi_User = []\<rparr>"

fun dec_flyImageConfig_member :: "string \<times> json \<Rightarrow> flyImageConfig \<Rightarrow> (json_error, flyImageConfig) result" where
  "dec_flyImageConfig_member (k, j) m =
     (let f = field_key [''Entrypoint'', ''Cmd'', ''Env'', ''WorkingDir'', ''User''] k in
      if f = Some ''Entrypoint'' then dec_field (dec_list dec_str []) j (fi_Entrypoint m) (\<lambda>v. m\<lparr>fi_Entrypoint := v\<rparr>)
      else if f = Some ''Cmd'' then dec_field (dec_list dec_str []) j (fi_Cmd m) (\<lambda>v. m\<lparr>fi_Cmd := v\<rparr>)
      else if f = Some ''Env'' then dec_field (dec_list dec_str []) j (fi_Env m) (\<lambda>v. m\<lparr>fi_Env := v\<rparr>)
      else if f = Some ''WorkingDir'' then dec_field dec_str j (fi_WorkingDir m) (\<lambda>v. m\<lparr>fi_WorkingDir := v\<rparr>)
      else if f = Some ''User'' then dec_field dec_str j (fi_User m) (\<lambda>v. m\<lparr>fi_User := v\<rparr>)
      else Ok m)"

fun dec_flyIPConfig_member :: "string \<times> json \<Rightarrow> flyIPConfig \<Rightarrow> (json_error, flyIPConfig) result" where
  "dec_flyIPConfig_member (k, j) m =
     (let f = field_key [''Gateway'', ''IP'', ''Mask''] k in
      if f = Some ''Gateway'' then dec_field dec_str j (ip_Gateway m) (\<lambda>v. m\<lparr>ip_Gateway := v\<rparr>)
      else if f = Some ''IP'' then dec_field dec_str j (ip_IP m) (\<lambda>v. m\<lparr>ip_IP := v\<rparr>)
      else if f = Some ''Mask'' then dec_field dec_uint8 j (ip_Mask m) (\<lambda>v. m\<lparr>ip_Mask := v\<rparr>)
      else Ok m)"

fun dec_flyMount_member :: "string \<times> json \<Rightarrow> flyMount \<Rightarrow> (json_error, flyMount) result" where
  "dec_flyMount_member (k, j) m =
     (let f = field_key [''MountPath'', ''DevicePath''] k in
      if f = Some ''MountPath'' then dec_field dec_str j (mt_MountPath m) (\<lambda>v. m\<lparr>mt_MountPath := v\<rparr>)
      else if f = Some ''DevicePath'' then dec_field dec_str j (mt_DevicePath m) (\<lambda>v. m\<lparr>mt_DevicePath := v\<rparr>)
      else Ok m)"

fun dec_flyEtcHost_member :: "string \<times> json \<Rightarrow> flyEtcHost \<Rightarrow> (json_error, flyEtcHost) result" where
  "dec_flyEtcHost_member (k, j) m =
     (let f = field_key [''Host'', ''IP'', ''Desc''] k in
      if f = Some ''Host'' then dec_field dec_str j (eh_Host m) (\<lambda>v. m\<lparr>eh_Host := v\<rparr>)
      else if f = Some ''IP'' then dec_field dec_str j (eh_IP m) (\<lambda>v. m\<lparr>eh_IP := v\<rparr>)
      else if f = Some ''Desc'' then dec_field dec_str j (eh_Desc m) (\<lambda>v. m\<lparr>eh_Desc := v\<rparr>)
      else Ok m)"

fun dec_flyEtcResolv_member :: "string \<times> json \<Rightarrow> flyEtcResolv \<Rightarrow> (json_error, flyEtcResolv) result" where
  "dec_flyEtcResolv_member (k, j) m =
     (if field_key [''Nameservers''] k = Some ''Nameservers'' then
        dec_field (dec_list dec_str []) j (er_Nameservers m) (\<lambda>v. m\<lparr>er_Nameservers := v\<rparr>)
      else Ok m)"

definition zero_flyRunConfig :: flyRunConfig where
  "zero_flyRunConfig =
     \<lparr>fc_ImageConfig = None, fc_ExecOverride = [], fc_ExtraEnv = [], fc_UserOverride = [], fc_CmdOverride = [],
      fc_IPConfigs = [], fc_TTY = False, fc_Hostname = [], fc_Mounts = [], fc_EtcResolv = None, fc_EtcHosts = [],
      fc_RootDevice = []\<rparr>"

fun dec_flyRunConfig_member :: "string \<times> json \<Rightarrow> flyRunConfig \<Rightarrow> (json_error, flyRunConfig) result" where
  "dec_flyRunConfig_member (k, j) m =
     (let f = field_key [''ImageConfig'', ''ExecOverride'', ''ExtraEnv'', ''UserOverride'', ''CmdOverride'', ''IPConfigs'', ''TTY'',
                         ''Hostname'', ''Mounts'', ''EtcResolv'', ''EtcHosts'', ''RootDevice''] k in
      if f = Some ''ImageConfig'' then dec_field (dec_ptr (dec_struct dec_flyImageConfig_member) zero_flyImageConfig) j (fc_ImageConfig m) (\<lambda>v. m\<lparr>fc_ImageConfig := v\<rparr>)
      else if f = Some ''ExecOverride'' then dec_field (dec_list dec_str []) j (fc_ExecOverride m) (\<lambda>v. m\<lparr>fc_ExecOverride := v\<rparr>)
      else if f = Some ''ExtraEnv'' then dec_field (dec_map dec_str []) j (fc_ExtraEnv m) (\<lambda>v. m\<lparr>fc_ExtraEnv := v\<rparr>)
      else if f = Some ''UserOverride'' then dec_field dec_str j (fc_UserOverride m) (\<lambda>v. m\<lparr>fc_UserOverride := v\<rparr>)
      else if f = Some ''CmdOverride'' then dec_field dec_str j (fc_CmdOverride m) (\<lambda>v. m\<lparr>fc_CmdOverride := v\<rparr>)
      else if f = Some ''IPConfigs'' then
        dec_field (dec_list (dec_struct dec_flyIPConfig_member) \<lparr>ip_Gateway = [], ip_IP = [], ip_Mask = 0\<rparr>) j (fc_IPConfigs m) (\<lambda>v. m\<lparr>fc_IPConfigs := v\<rparr>)
      else if f = Some ''TTY'' then dec_field dec_bool j (fc_TTY m) (\<lambda>v. m\<lparr>fc_TTY := v\<rparr>)
      else if f = Some ''Hostname'' then dec_field dec_str j (fc_Hostname m) (\<lambda>v. m\<lparr>fc_Hostname := v\<rparr>)
      else if f = Some ''Mounts'' then
        dec_field (dec_list (dec_struct dec_flyMount_member) \<lparr>mt_MountPath = [], mt_DevicePath = []\<rparr>) j (fc_Mounts m) (\<lambda>v. m\<lparr>fc_Mounts := v\<rparr>)
      else if f = Some ''EtcResolv'' then dec_field (dec_ptr (dec_struct dec_flyEtcResolv_member) \<lparr>er_Nameservers = []\<rparr>) j (fc_EtcResolv m) (\<lambda>v. m\<lparr>fc_EtcResolv := v\<rparr>)
      else if f = Some ''EtcHosts'' then
        dec_field (dec_list (dec_struct dec_flyEtcHost_member) \<lparr>eh_Host = [], eh_IP = [], eh_Desc = []\<rparr>) j (fc_EtcHosts m) (\<lambda>v. m\<lparr>fc_EtcHosts := v\<rparr>)
      else if f = Some ''RootDevice'' then dec_field dec_str j (fc_RootDevice m) (\<lambda>v. m\<lparr>fc_RootDevice := v\<rparr>)
      else Ok m)"

section \<open>What to start\<close>

definition cloneSlice :: "string list \<Rightarrow> string list" where
  "cloneSlice xs = (if length xs = 0 then [] else xs)"

definition cloneIPConfigs :: "flyIPConfig list \<Rightarrow> flyIPConfig list" where
  "cloneIPConfigs xs = (if length xs = 0 then [] else xs)"

definition cloneMounts :: "flyMount list \<Rightarrow> flyMount list" where
  "cloneMounts xs = (if length xs = 0 then [] else xs)"

definition cloneEtcHosts :: "flyEtcHost list \<Rightarrow> flyEtcHost list" where
  "cloneEtcHosts xs = (if length xs = 0 then [] else xs)"

definition cloneEtcResolv :: "flyEtcResolv option \<Rightarrow> flyEtcResolv option" where
  "cloneEtcResolv r = map_option (\<lambda>r. \<lparr>er_Nameservers = er_Nameservers r\<rparr>) r"

fun parse_env :: "string list \<Rightarrow> string gomap \<Rightarrow> string gomap" where
  "parse_env [] out = out"
| "parse_env (item # envs) out =
     (if item = [] then parse_env envs out
      else case SplitN2 item CHR ''='' of
             [k, v] \<Rightarrow> (let key = TrimSpace k in if key = [] then parse_env envs out else parse_env envs (map_put key v out))
           | _ \<Rightarrow> parse_env envs out)"

definition parseEnvList :: "string list \<Rightarrow> string gomap" where
  "parseEnvList envs = parse_env envs []"

definition buildSpecFromMeta :: "imageMeta \<Rightarrow> startSpec" where
  "buildSpecFromMeta meta =
     (let argv1 = cloneSlice (im_StartCmd meta);
          argv2 = (if length argv1 = 0 then argv1 @ im_Entrypoint meta @ im_Cmd meta else argv1);
          argv = (if length argv2 = 0 then [''/bin/sh''] else argv2);
          userSpec = (if TrimSpace (im_User meta) = [] then ''root'' else TrimSpace (im_User meta))
      in \<lparr>ss_Argv = argv, ss_Env = parseEnvList (im_Env meta), ss_User = userSpec,
          ss_WorkingDir = TrimSpace (im_WorkingDir meta), ss_Hostname = [], ss_IPConfigs = [], ss_Mounts = [],
          ss_EtcHosts = [], ss_EtcResolv = None\<rparr>)"

definition buildSpecFromFlyConfig :: "flyRunConfig \<Rightarrow> startSpec" where
  "buildSpecFromFlyConfig cfg =
     (let img = (case fc_ImageConfig cfg of None \<Rightarrow> zero_flyImageConfig | Some i \<Rightarrow> i);
          argv1 = cloneSlice (fc_ExecOverride cfg);
          argv2 = (if length argv1 = 0 then
                     argv1 @ fi_Entrypoint img @
                     (if TrimSpace (fc_CmdOverride cfg) \<noteq> [] then [TrimSpace (fc_CmdOverride cfg)] else fi_Cmd img)
                   else argv1);
          argv = (if length argv2 = 0 then [''/bin/sh''] else argv2);
          envMap = map_puts (fc_ExtraEnv cfg) (parseEnvList (fi_Env img));
          user1 = TrimSpace (fc_UserOverride cfg);
          user2 = (if user1 = [] then TrimSpace (fi_User img) else user1);
          userSpec = (if user2 = [] then ''root'' else user2)
      in \<lparr>ss_Argv = argv, ss_Env = envMap, ss_User = userSpec, ss_WorkingDir = TrimSpace (fi_WorkingDir img),
          ss_Hostname = TrimSpace (fc_Hostname cfg), ss_IPConfigs = cloneIPConfigs (fc_IPConfigs cfg),
          ss_Mounts = cloneMounts (fc_Mounts cfg), ss_EtcHosts = cloneEtcHosts (fc_EtcHosts cfg),
          ss_EtcResolv = cloneEtcResolv (fc_EtcResolv cfg)\<rparr>)"

definition meta_word :: "string \<Rightarrow> string option" where
  "meta_word field =
     (if \<not> HasPrefix field ''mergen.meta='' then None
      else let val = TrimSpace (TrimPrefix field ''mergen.meta='') in if val \<noteq> [] then Some val else None)"

definition metadataPathFromCmdline :: "string \<Rightarrow> string" where
  "metadataPathFromCmdline cmdline =
     (case List.map_filter meta_word (Fields cmdline) of [] \<Rightarrow> [] | val # _ \<Rightarrow> val)"

datatype init_err =
    InitOs oserr
  | InitJson
  | NoMetadata
  | MountErr int
  | NetErr int
  | BadAddress
  | UserUnknown string
  | BadUid string
  | StartErr int
  | NoCandidates
  | WaitErr int

text \<open>The text of a file; \<open>json_text\<close> is the text of the documents in the file system.\<close>

definition file_text :: "(json \<Rightarrow> string) \<Rightarrow> body \<Rightarrow> string" where
  "file_text json_text b = (case b of Raw s \<Rightarrow> s | JSONDoc j \<Rightarrow> json_text j)"

definition resolveMetaPath :: "os_env \<Rightarrow> (json \<Rightarrow> string) \<Rightarrow> string \<Rightarrow> fs \<Rightarrow> string" where
  "resolveMetaPath env json_text defaultPath fs =
     (case os_ReadFile env ''/proc/cmdline'' fs of
        Err _ \<Rightarrow> defaultPath
      | Ok b \<Rightarrow>
          (let path = metadataPathFromCmdline (file_text json_text b) in if path \<noteq> [] then path else defaultPath))"

definition fileExists :: "os_env \<Rightarrow> string \<Rightarrow> fs \<Rightarrow> bool" where
  "fileExists env path fs = (case os_Stat env path fs of Err _ \<Rightarrow> False | Ok _ \<Rightarrow> True)"

definition unmarshal :: "(json \<Rightarrow> 'a \<Rightarrow> (json_error, 'a) result) \<Rightarrow> 'a \<Rightarrow> body \<Rightarrow> (init_err, 'a) result" where
  "unmarshal d z b = (case b of Raw _ \<Rightarrow> Err InitJson | JSONDoc j \<Rightarrow> map_err (\<lambda>_. InitJson) (d j z))"

definition loadImageMeta :: "os_env \<Rightarrow> string \<Rightarrow> fs \<Rightarrow> (init_err, imageMeta) result" where
  "loadImageMeta env path fs =
     (case os_ReadFile env path fs of
        Err e \<Rightarrow> Err (InitOs e)
      | Ok b \<Rightarrow> unmarshal dec_imageMeta zero_imageMeta b)"

definition loadFlyRunConfig :: "os_env \<Rightarrow> string \<Rightarrow> fs \<Rightarrow> (init_err, flyRunConfig) result" where
  "loadFlyRunConfig env path fs =
     (case os_ReadFile env path fs of
        Err e \<Rightarrow> Err (InitOs e)
      | Ok b \<Rightarrow> unmarshal (dec_struct dec_flyRunConfig_member) zero_flyRunConfig b)"

definition loadStartSpec :: "os_env \<Rightarrow> (json \<Rightarrow> string) \<Rightarrow> fs \<Rightarrow> (init_err, startSpec \<times> string) result" where
  "loadStartSpec env json_text fs =
     (let metaPath = resolveMetaPath env json_text defaultMetaPath fs
      in if fileExists env metaPath fs then
           (case loadImageMeta env metaPath fs of
              Err e \<Rightarrow> Err e
            | Ok meta \<Rightarrow> Ok (buildSpecFromMeta meta, metaPath))
         else if fileExists env defaultFlyRunPath fs then
           (case loadFlyRunConfig env defaultFlyRunPath fs of
              Err e \<Rightarrow> Err e
            | Ok cfg \<Rightarrow> Ok (buildSpecFromFlyConfig cfg, defaultFlyRunPath))
         else Err NoMetadata)"

section \<open>Mounts and files\<close>

text \<open>
  The kernel as the program sees it, with the numbers of the errors of its calls.  The guest consists of
  the file system and of the rest of the kernel's state; a mount may change both.
\<close>

abbreviation (input) EINTR :: int where "EINTR \<equiv> 4"
abbreviation (input) ESRCH :: int where "ESRCH \<equiv> 3"
abbreviation (input) ECHILD :: int where "ECHILD \<equiv> 10"
abbreviation (input) EBUSY :: int where "EBUSY \<equiv> 16"
abbreviation (input) SYS_EEXIST :: int where "SYS_EEXIST \<equiv> 17"

record 'w guest =
  g_fs :: fs
  g_sys :: 'w

record mount_call =
  mc_source :: string
  mc_target :: string
  mc_fsType :: string
  mc_flags :: "32 word"
  mc_data :: string

record ip_net =
  in_IP :: net_IP
  in_Mask :: net_mask

record 'w kernel =
  k_env :: os_env
  k_text :: "json \<Rightarrow> string"
  k_mount :: "mount_call \<Rightarrow> 'w guest \<Rightarrow> 'w guest \<times> int option"
  k_sethostname :: "string \<Rightarrow> 'w \<Rightarrow> 'w \<times> int option"
  k_readlink :: "string \<Rightarrow> 'w guest \<Rightarrow> string option"
  k_unlink :: "string \<Rightarrow> 'w guest \<Rightarrow> 'w guest \<times> int option"
  k_symlink :: "string \<Rightarrow> string \<Rightarrow> 'w guest \<Rightarrow> 'w guest \<times> int option"
  k_LinkByName :: "string \<Rightarrow> 'w \<Rightarrow> (int, int) result"
  k_LinkSetUp :: "int \<Rightarrow> 'w \<Rightarrow> 'w \<times> int option"
  k_AddrAdd :: "int \<Rightarrow> ip_net \<Rightarrow> 'w \<Rightarrow> 'w \<times> int option"
  k_RouteAdd :: "int \<Rightarrow> net_IP \<Rightarrow> 'w \<Rightarrow> 'w \<times> int option"

definition MS_NOSUID :: "32 word" where "MS_NOSUID = 2"
definition MS_NODEV :: "32 word" where "MS_NODEV = 4"
definition MS_NOEXEC :: "32 word" where "MS_NOEXEC = 8"
definition MS_NOATIME :: "32 word" where "MS_NOATIME = 1024"
definition MS_RELATIME :: "32 word" where "MS_RELATIME = 0x200000"

definition on_fs :: "(fs \<Rightarrow> fs \<times> (oserr, 'a) result) \<Rightarrow> 'w guest \<Rightarrow> 'w guest \<times> (init_err, 'a) result" where
  "on_fs f g = (case f (g_fs g) of (fs', r) \<Rightarrow> (g\<lparr>g_fs := fs'\<rparr>, map_err InitOs r))"

definition mountIfNeeded :: "'w kernel \<Rightarrow> mount_call \<Rightarrow> 'w guest \<Rightarrow> 'w guest \<times> int option" where
  "mountIfNeeded k m g =
     (case k_mount k m g of
        (g', None) \<Rightarrow> (g', None)
      | (g', Some e) \<Rightarrow> if e = EBUSY then (g', None) else (g', Some e))"

definition ensureSymlink :: "'w kernel \<Rightarrow> string \<Rightarrow> string \<Rightarrow> 'w guest \<Rightarrow> 'w guest \<times> int option" where
  "ensureSymlink k target link g =
     (case k_readlink k link g of
        Some current \<Rightarrow>
          if current = target then (g, None)
          else (case k_unlink k link g of
                  (g', Some e) \<Rightarrow> (g', Some e)
                | (g', None) \<Rightarrow> k_symlink k target link g')
      | None \<Rightarrow> k_symlink k target link g)"

definition base_mounts :: "mount_call list" where
  "base_mounts =
     [\<lparr>mc_source = ''devtmpfs'', mc_target = ''/dev'', mc_fsType = ''devtmpfs'', mc_flags = MS_NOSUID, mc_data = ''mode=0755''\<rparr>,
      \<lparr>mc_source = ''proc'', mc_target = ''/proc'', mc_fsType = ''proc'', mc_flags = MS_NODEV OR MS_NOEXEC OR MS_NOSUID, mc_data = []\<rparr>,
      \<lparr>mc_source = ''sysfs'', mc_target = ''/sys'', mc_fsType = ''sysfs'', mc_flags = MS_NODEV OR MS_NOEXEC OR MS_NOSUID, mc_data = []\<rparr>,
      \<lparr>mc_source = ''devpts'', mc_target = ''/dev/pts'', mc_fsType = ''devpts'', mc_flags = MS_NOEXEC OR MS_NOSUID OR MS_NOATIME,
       mc_data = ''mode=0620,gid=5,ptmxmode=666''\<rparr>,
      \<lparr>mc_source = ''tmpfs'', mc_target = ''/dev/shm'', mc_fsType = ''tmpfs'', mc_flags = MS_NOSUID OR MS_NODEV, mc_data = ''mode=1777''\<rparr>,
      \<lparr>mc_source = ''tmpfs'', mc_target = ''/run'', mc_fsType = ''tmpfs'', mc_flags = MS_NOSUID OR MS_NODEV, mc_data = ''mode=0755''\<rparr>]"

text \<open>
  Each target is made before it is mounted; a failing mount is only reported, as is a failing change of
  the mode of \<open>/tmp\<close>, which is not part of the file system of the model.
\<close>

fun mount_each :: "'w kernel \<Rightarrow> mount_call list \<Rightarrow> 'w guest \<Rightarrow> 'w guest \<times> (init_err, unit) result" where
  "mount_each k [] g = (g, Ok ())"
| "mount_each k (m # ms) g =
     and_then (on_fs (os_MkdirAll (k_env k) (mc_target m)) g) (\<lambda>g _. mount_each k ms (fst (mountIfNeeded k m g)))"

definition base_links :: "(string \<times> string) list" where
  "base_links =
     [(''/proc/self/fd'', ''/dev/fd''), (''/proc/self/fd/0'', ''/dev/stdin''),
      (''/proc/self/fd/1'', ''/dev/stdout''), (''/proc/self/fd/2'', ''/dev/stderr'')]"

definition setupBaseMounts :: "'w kernel \<Rightarrow> 'w guest \<Rightarrow> 'w guest \<times> (init_err, unit) result" where
  "setupBaseMounts k g =
     and_then (mount_each k base_mounts g) (\<lambda>g _.
     and_then (on_fs (os_MkdirAll (k_env k) ''/tmp'') g) (\<lambda>g _.
       (fold (\<lambda>(target, link) g. fst (ensureSymlink k target link g)) base_links g, Ok ())))"

definition setup_hostname :: "'w kernel \<Rightarrow> startSpec \<Rightarrow> 'w guest \<Rightarrow> 'w guest" where
  "setup_hostname k spec g =
     (if ss_Hostname spec \<noteq> [] then
        let g1 = g\<lparr>g_sys := fst (k_sethostname k (ss_Hostname spec) (g_sys g))\<rparr>
        in case on_fs (os_MkdirAll (k_env k) ''/etc'') g1 of
             (g2, Err _) \<Rightarrow> g2
           | (g2, Ok _) \<Rightarrow> fst (on_fs (os_WriteFile (k_env k) ''/etc/hostname'' (Raw (ss_Hostname spec @ [CHR 10]))) g2)
      else g)"

definition resolv_text :: "string list \<Rightarrow> string" where
  "resolv_text nameservers =
     concat (map (\<lambda>ns. if TrimSpace ns = [] then [] else ''nameserver '' @ TrimSpace ns @ [CHR 10]) nameservers)"

definition setup_resolv :: "'w kernel \<Rightarrow> startSpec \<Rightarrow> 'w guest \<Rightarrow> 'w guest \<times> (init_err, unit) result" where
  "setup_resolv k spec g =
     (case ss_EtcResolv spec of
        None \<Rightarrow> (g, Ok ())
      | Some r \<Rightarrow>
          if length (er_Nameservers r) > 0 then
            and_then (on_fs (os_MkdirAll (k_env k) ''/etc'') g) (\<lambda>g _.
              let b = resolv_text (er_Nameservers r)
              in if length b > 0 then on_fs (os_WriteFile (k_env k) ''/etc/resolv.conf'' (Raw b)) g else (g, Ok ()))
          else (g, Ok ()))"

text \<open>
  Writing at the end of an open file.  When the write fails, a part of the text may have been written;
  the caller does not look at the error.
\<close>

definition file_append :: "'w kernel \<Rightarrow> string \<Rightarrow> string \<Rightarrow> fs \<Rightarrow> fs" where
  "file_append k path s fs =
     (let p = resolve path;
          old = (case fs_get fs p of Some (NFile b) \<Rightarrow> file_text (k_text k) b | _ \<Rightarrow> []);
          new = (if os_fault (k_env k) CWrite p fs then file_text (k_text k) (os_partial (k_env k) (Raw s)) else s)
      in fs_put p (NFile (Raw (old @ new))) fs)"

definition host_lines :: "flyEtcHost \<Rightarrow> string list" where
  "host_lines host =
     (let ip = TrimSpace (eh_IP host); h = TrimSpace (eh_Host host)
      in if ip = [] \<or> h = [] then []
         else (if TrimSpace (eh_Desc host) \<noteq> [] then [[CHR 10] @ ''# '' @ TrimSpace (eh_Desc host) @ [CHR 10]] else []) @
              [ip @ [CHR 9] @ h @ [CHR 10]])"

definition setup_hosts :: "'w kernel \<Rightarrow> startSpec \<Rightarrow> 'w guest \<Rightarrow> 'w guest \<times> (init_err, unit) result" where
  "setup_hosts k spec g =
     (if length (ss_EtcHosts spec) > 0 then
        and_then (on_fs (os_MkdirAll (k_env k) ''/etc'') g) (\<lambda>g _.
        and_then (on_fs (os_OpenCreate (k_env k) ''/etc/hosts'') g) (\<lambda>g _.
          (g\<lparr>g_fs := fold (file_append k ''/etc/hosts'') (concat (map host_lines (ss_EtcHosts spec))) (g_fs g)\<rparr>, Ok ())))
      else (g, Ok ()))"

fun setup_mounts :: "'w kernel \<Rightarrow> flyMount list \<Rightarrow> 'w guest \<Rightarrow> 'w guest \<times> (init_err, unit) result" where
  "setup_mounts k [] g = (g, Ok ())"
| "setup_mounts k (m # ms) g =
     (if TrimSpace (mt_MountPath m) = [] \<or> TrimSpace (mt_DevicePath m) = [] then setup_mounts k ms g
      else
        and_then (on_fs (os_MkdirAll (k_env k) (mt_MountPath m)) g) (\<lambda>g _.
          case mountIfNeeded k \<lparr>mc_source = mt_DevicePath m, mc_target = mt_MountPath m, mc_fsType = ''ext4'',
                                mc_flags = MS_RELATIME, mc_data = []\<rparr> g of
            (g', Some e) \<Rightarrow> (g', Err (MountErr e))
          | (g', None) \<Rightarrow> setup_mounts k ms g'))"

section \<open>Addresses\<close>

definition bringLinkUp :: "'w kernel \<Rightarrow> string \<Rightarrow> 'w \<Rightarrow> 'w \<times> (init_err, unit) result" where
  "bringLinkUp k name w =
     (case k_LinkByName k name w of
        Err e \<Rightarrow> (w, Err (NetErr e))
      | Ok link \<Rightarrow>
          (case k_LinkSetUp k link w of
             (w', Some e) \<Rightarrow> (w', Err (NetErr e))
           | (w', None) \<Rightarrow> (w', Ok ())))"

definition parseIPConfigAddress :: "string \<Rightarrow> 8 word \<Rightarrow> (init_err, ip_net) result" where
  "parseIPConfigAddress raw0 maskv =
     (let raw = TrimSpace raw0
      in if raw = [] then Err BadAddress
         else if Contains raw ''/'' then
           (case ParseCIDR raw of
              None \<Rightarrow> Err BadAddress
            | Some (ip, m) \<Rightarrow>
                Ok \<lparr>in_IP = ip,
                    in_Mask = (if maskv > 0 then CIDRMask (unat maskv) (if To4 ip = None then 128 else 32) else m)\<rparr>)
         else
           (case net_ParseIP raw of
              None \<Rightarrow> Err BadAddress
            | Some ip \<Rightarrow>
                (let bits = (if To4 ip = None then 128 else 32);
                     mask1 = (if maskv = 0 then (if bits = 32 then 32 else 128) else maskv)
                 in Ok \<lparr>in_IP = ip, in_Mask = CIDRMask (unat mask1) bits\<rparr>)))"

definition parseGatewayIP :: "string \<Rightarrow> (init_err, net_IP option) result" where
  "parseGatewayIP raw0 =
     (let raw = TrimSpace raw0
      in if raw = [] then Ok None
         else if Contains raw ''/'' then
           (case ParseCIDR raw of None \<Rightarrow> Err BadAddress | Some (ip, _) \<Rightarrow> Ok (Some ip))
         else
           (case net_ParseIP raw of None \<Rightarrow> Err BadAddress | Some ip \<Rightarrow> Ok (Some ip)))"

fun apply_configs :: "'w kernel \<Rightarrow> int \<Rightarrow> flyIPConfig list \<Rightarrow> 'w \<Rightarrow> 'w \<times> (init_err, unit) result" where
  "apply_configs k link [] w = (w, Ok ())"
| "apply_configs k link (cfg # cfgs) w =
     (case parseIPConfigAddress (ip_IP cfg) (ip_Mask cfg) of
        Err e \<Rightarrow> (w, Err e)
      | Ok ipNet \<Rightarrow>
          (let (w1, err) = k_AddrAdd k link ipNet w
           in if err \<noteq> None \<and> err \<noteq> Some SYS_EEXIST then (w1, Err (NetErr (the err)))
              else case parseGatewayIP (ip_Gateway cfg) of
                     Err e \<Rightarrow> (w1, Err e)
                   | Ok None \<Rightarrow> apply_configs k link cfgs w1
                   | Ok (Some gw) \<Rightarrow>
                       (let (w2, err) = k_RouteAdd k link gw w1
                        in if err \<noteq> None \<and> err \<noteq> Some SYS_EEXIST then (w2, Err (NetErr (the err)))
                           else apply_configs k link cfgs w2)))"

definition applyIPConfigs :: "'w kernel \<Rightarrow> string \<Rightarrow> flyIPConfig list \<Rightarrow> 'w \<Rightarrow> 'w \<times> (init_err, unit) result" where
  "applyIPConfigs k ifaceName cfgs w =
     (if length cfgs = 0 then (w, Ok ())
      else case k_LinkByName k ifaceName w of
             Err e \<Rightarrow> (w, Err (NetErr e))
           | Ok link \<Rightarrow> apply_configs k link cfgs w)"

definition setup_network :: "'w kernel \<Rightarrow> startSpec \<Rightarrow> 'w guest \<Rightarrow> 'w guest" where
  "setup_network k spec g =
     (let w1 = fst (bringLinkUp k ''lo'' (g_sys g));
          w2 = fst (bringLinkUp k ''eth0'' w1);
          w3 = (if length (ss_IPConfigs spec) > 0 then fst (applyIPConfigs k ''eth0'' (ss_IPConfigs spec) w2) else w2)
      in g\<lparr>g_sys := w3\<rparr>)"

definition applyRuntimeSetup :: "'w kernel \<Rightarrow> startSpec \<Rightarrow> 'w guest \<Rightarrow> 'w guest \<times> (init_err, unit) result" where
  "applyRuntimeSetup k spec g =
     and_then (setup_resolv k spec (setup_hostname k spec g)) (\<lambda>g _.
     and_then (setup_hosts k spec g) (\<lambda>g _.
     and_then (setup_mounts k (ss_Mounts spec) g) (\<lambda>g _.
       (setup_network k spec g, Ok ()))))"

section \<open>Users\<close>

text \<open>The user database of the guest, as \<open>os/user\<close> answers from it; \<open>None\<close> is a lookup error.\<close>

record user_info =
  ui_Uid :: string
  ui_Gid :: string
  ui_HomeDir :: string

record user_db =
  db_Lookup :: "string \<Rightarrow> user_info option"
  db_LookupId :: "string \<Rightarrow> user_info option"
  db_LookupGroup :: "string \<Rightarrow> string option"

text \<open>\<open>strconv.ParseUint (s, 10, 32)\<close>: decimal digits only, within 32 bits.\<close>

definition ParseUint32 :: "string \<Rightarrow> u32 option" where
  "ParseUint32 s =
     (case parse_dec s of None \<Rightarrow> None | Some n \<Rightarrow> if int n < 2 ^ 32 then Some (of_nat n) else None)"

definition parseUint32 :: "string \<Rightarrow> u32 option" where
  "parseUint32 raw = ParseUint32 (TrimSpace raw)"

definition resolveUserPart :: "user_db \<Rightarrow> string \<Rightarrow> (init_err, u32 \<times> user_info option) result" where
  "resolveUserPart db value0 =
     (let val = (if value0 = [] then ''root'' else value0)
      in case ParseUint32 val of
           Some u \<Rightarrow> Ok (u, db_LookupId db (dec (unat u)))
         | None \<Rightarrow>
             (case db_Lookup db val of
                None \<Rightarrow> Err (UserUnknown val)
              | Some info \<Rightarrow>
                  (case parseUint32 (ui_Uid info) of
                     None \<Rightarrow> Err (BadUid val)
                   | Some u \<Rightarrow> Ok (u, Some info))))"

definition resolveGroupPart :: "user_db \<Rightarrow> string \<Rightarrow> (init_err, u32) result" where
  "resolveGroupPart db val =
     (if val = [] then Ok 0
      else case ParseUint32 val of
             Some g \<Rightarrow> Ok g
           | None \<Rightarrow>
               (case db_LookupGroup db val of
                  None \<Rightarrow> Err (UserUnknown val)
                | Some gid \<Rightarrow>
                    (case parseUint32 gid of None \<Rightarrow> Err (BadUid val) | Some g \<Rightarrow> Ok g)))"

definition resolveUser :: "user_db \<Rightarrow> string \<Rightarrow> (init_err, u32 \<times> u32 \<times> string) result" where
  "resolveUser db spec0 =
     (let spec = (if TrimSpace spec0 = [] then ''root'' else TrimSpace spec0);
          parts = SplitN2 spec CHR '':'';
          userPart = TrimSpace (parts ! 0);
          groupPart = (if length parts = 2 then TrimSpace (parts ! 1) else [])
      in case resolveUserPart db userPart of
           Err e \<Rightarrow> Err e
         | Ok (uidVal, userInfo) \<Rightarrow>
             (let homeDir = (case userInfo of None \<Rightarrow> ''/'' | Some info \<Rightarrow> ui_HomeDir info);
                  gid1 = (case userInfo of
                            None \<Rightarrow> uidVal
                          | Some info \<Rightarrow> (case parseUint32 (ui_Gid info) of None \<Rightarrow> uidVal | Some g \<Rightarrow> g));
                  home = (if homeDir = [] then ''/'' else homeDir)
              in if groupPart \<noteq> [] then
                   (case resolveGroupPart db groupPart of
                      Err e \<Rightarrow> Err e
                    | Ok gidVal \<Rightarrow> Ok (uidVal, gidVal, home))
                 else Ok (uidVal, gid1, home)))"

section \<open>The main process\<close>

definition shellQuote :: "string \<Rightarrow> string" where
  "shellQuote raw =
     (if raw = [] then [CHR 39, CHR 39]
      else [CHR 39] @ ReplaceAll raw (CHR 39) [CHR 39, CHR 34, CHR 39, CHR 34, CHR 39] @ [CHR 39])"

definition shellCommandLine :: "string list \<Rightarrow> string" where
  "shellCommandLine argv = (if length argv = 0 then [] else Join (map shellQuote argv) '' '')"

definition equalStringSlices :: "string list \<Rightarrow> string list \<Rightarrow> bool" where
  "equalStringSlices a b = (if length a \<noteq> length b then False else list_all (\<lambda>i. a ! i = b ! i) [0 ..< length a])"

definition commandCandidates :: "string list \<Rightarrow> string list list" where
  "commandCandidates argv0 =
     (let argv = (if length argv0 = 0 then [''/bin/sh''] else argv0);
          primary = cloneSlice argv;
          shellLine = shellCommandLine primary;
          fallback = [''/bin/sh'', ''-lc'', shellLine]
      in if shellLine = [] then [primary]
         else if \<not> equalStringSlices primary fallback then [primary, fallback] else [primary])"

definition envMapToList :: "string gomap \<Rightarrow> string list" where
  "envMapToList env =
     (if length env = 0 then []
      else let keys = sort (map fst env)
           in map (\<lambda>k. k @ ''='' @ (case map_of env k of None \<Rightarrow> [] | Some v \<Rightarrow> v)) keys)"

text \<open>
  What a command is started with: arguments, environment, directory (empty for the current one), ids,
  and the search path for the program.  The command gets a process group of its own.  The answer is its
  process number.
\<close>

record command =
  cm_Argv :: "string list"
  cm_Env :: "string list"
  cm_Dir :: string
  cm_Uid :: u32
  cm_Gid :: u32
  cm_Path :: string

type_synonym 'w starter = "command \<Rightarrow> 'w guest \<Rightarrow> 'w guest \<times> (int, int) result"

fun start_first ::
  "'w starter \<Rightarrow> (string list \<Rightarrow> command) \<Rightarrow> string list list \<Rightarrow> init_err \<Rightarrow> 'w guest \<Rightarrow>
   'w guest \<times> (init_err, int \<times> string list) result" where
  "start_first start cmd [] lastErr g = (g, Err lastErr)"
| "start_first start cmd (argv # candidates) lastErr g =
     (case start (cmd argv) g of
        (g', Err e) \<Rightarrow> start_first start cmd candidates (StartErr e) g'
      | (g', Ok pid) \<Rightarrow> (g', Ok (pid, argv)))"

definition startMainProcess ::
  "'w starter \<Rightarrow> startSpec \<Rightarrow> u32 \<Rightarrow> u32 \<Rightarrow> string \<Rightarrow> 'w guest \<Rightarrow> 'w guest \<times> (init_err, int \<times> string list) result" where
  "startMainProcess start spec uid gid path g =
     (let envList = envMapToList (ss_Env spec);
          cmd = (\<lambda>argv. \<lparr>cm_Argv = argv, cm_Env = envList, cm_Dir = ss_WorkingDir spec, cm_Uid = uid, cm_Gid = gid, cm_Path = path\<rparr>)
      in start_first start cmd (commandCandidates (ss_Argv spec)) NoCandidates g)"

section \<open>Supervision\<close>

text \<open>
  The status word of a process that has ended: the low seven bits are zero for an exit, 127 for a stop
  and otherwise the number of the signal; an exit has its status in the next byte.
\<close>

definition ws_Exited :: "u32 \<Rightarrow> bool" where "ws_Exited w \<longleftrightarrow> w AND 0x7F = 0"
definition ws_Signaled :: "u32 \<Rightarrow> bool" where "ws_Signaled w \<longleftrightarrow> w AND 0x7F \<noteq> 0x7F \<and> w AND 0x7F \<noteq> 0"
definition ws_ExitStatus :: "u32 \<Rightarrow> int" where
  "ws_ExitStatus w = (if \<not> ws_Exited w then -1 else uint (drop_bit 8 w AND 0xFF))"
definition ws_Signal :: "u32 \<Rightarrow> int" where
  "ws_Signal w = (if \<not> ws_Signaled w then -1 else uint (w AND 0x7F))"

definition waitStatusToExitCode :: "u32 \<Rightarrow> int" where
  "waitStatusToExitCode status =
     (if ws_Exited status then ws_ExitStatus status
      else if ws_Signaled status then 128 + ws_Signal status
      else 1)"

text \<open>
  What the kernel answers: the result of the n-th wait call, what the n-th wait in \<open>select\<close> ends with
  and the result of the n-th kill call.  A run of the program determines these sequences, and the
  theorems hold for all of them.
\<close>

datatype wait_result = WaitFails int | Waited int u32

datatype sup_event = GotSignal int | GotOther | Tick

record history =
  hi_wait :: "nat \<Rightarrow> wait_result"
  hi_event :: "nat \<Rightarrow> sup_event"
  hi_kill :: "nat \<Rightarrow> int option"

abbreviation (input) SIGCHLD :: int where "SIGCHLD \<equiv> 17"

partial_function (option) reapChildren :: "(nat \<Rightarrow> wait_result) \<Rightarrow> int \<Rightarrow> nat \<Rightarrow> (nat \<times> (init_err, bool \<times> int) result) option" where
  "reapChildren waits mainPID n =
     (case waits n of
        WaitFails e \<Rightarrow>
          if e = EINTR then reapChildren waits mainPID (Suc n)
          else if e = ECHILD then Some (Suc n, Ok (False, 0))
          else Some (Suc n, Err (WaitErr e))
      | Waited pid status \<Rightarrow>
          if pid = 0 then Some (Suc n, Ok (False, 0))
          else if pid = mainPID then Some (Suc n, Ok (True, waitStatusToExitCode status))
          else reapChildren waits mainPID (Suc n))"

text \<open>Forwarding a signal, with the list of the kill calls so far: target and signal.\<close>

definition forwardSignal ::
  "(nat \<Rightarrow> int option) \<Rightarrow> int \<Rightarrow> int \<Rightarrow> (int \<times> int) list \<Rightarrow> (int \<times> int) list \<times> int option" where
  "forwardSignal kills mainPID sig calls =
     (if sig = SIGCHLD then (calls, None)
      else
        let calls1 = calls @ [(- mainPID, sig)]; calls2 = calls1 @ [(mainPID, sig)]
        in case kills (length calls) of
             None \<Rightarrow> (calls1, None)
           | Some e \<Rightarrow>
               if e \<noteq> ESRCH then
                 (case kills (length calls1) of
                    None \<Rightarrow> (calls2, None)
                  | Some d \<Rightarrow> if d \<noteq> ESRCH then (calls2, Some d) else (calls2, None))
               else (calls1, None))"

definition handle_event :: "(nat \<Rightarrow> int option) \<Rightarrow> int \<Rightarrow> sup_event \<Rightarrow> (int \<times> int) list \<Rightarrow> (int \<times> int) list" where
  "handle_event kills mainPID ev calls =
     (case ev of
        GotSignal sig \<Rightarrow> if sig = SIGCHLD then calls else fst (forwardSignal kills mainPID sig calls)
      | GotOther \<Rightarrow> calls
      | Tick \<Rightarrow> calls)"

text \<open>The loop of \<open>runAndSupervise\<close>: \<open>n\<close> wait calls and \<open>m\<close> events so far.\<close>

partial_function (option) supervise_loop ::
  "history \<Rightarrow> int \<Rightarrow> nat \<Rightarrow> nat \<Rightarrow> (int \<times> int) list \<Rightarrow> ((int \<times> int) list \<times> (init_err, int) result) option" where
  "supervise_loop h mainPID n m calls =
     (case reapChildren (hi_wait h) mainPID n of
        None \<Rightarrow> None
      | Some (n', r) \<Rightarrow>
          (case r of
             Err e \<Rightarrow> Some (calls, Err e)
           | Ok (exited, exitCode) \<Rightarrow>
               if exited then Some (calls, Ok exitCode)
               else supervise_loop h mainPID n' (Suc m) (handle_event (hi_kill h) mainPID (hi_event h m) calls)))"

definition env_get :: "string gomap \<Rightarrow> string \<Rightarrow> string" where
  "env_get env k = (case map_of env k of None \<Rightarrow> [] | Some v \<Rightarrow> v)"

definition runtime_env :: "string \<Rightarrow> string gomap \<Rightarrow> string gomap" where
  "runtime_env home env =
     (let env1 = (if TrimSpace (env_get env ''HOME'') = [] then map_put ''HOME'' home env else env)
      in if TrimSpace (env_get env1 ''PATH'') = []
         then map_put ''PATH'' ''/usr/local/sbin:/usr/local/bin:/usr/sbin:/usr/bin:/sbin:/bin'' env1 else env1)"

text \<open>The outcome \<open>None\<close> stands for a run that does not end.\<close>

definition runAndSupervise ::
  "user_db \<Rightarrow> 'w starter \<Rightarrow> history \<Rightarrow> startSpec \<Rightarrow> 'w guest \<Rightarrow> 'w guest \<times> ((int \<times> int) list \<times> (init_err, int) result) option" where
  "runAndSupervise db start h spec g =
     (case resolveUser db (ss_User spec) of
        Err e \<Rightarrow> (g, Some ([], Err e))
      | Ok (uid, gid, home) \<Rightarrow>
          (let env = runtime_env home (ss_Env spec);
               argv = (if length (ss_Argv spec) = 0 then [''/bin/sh''] else ss_Argv spec)
           in case startMainProcess start (spec\<lparr>ss_Env := env, ss_Argv := argv\<rparr>) uid gid (env_get env ''PATH'') g of
                (g', Err e) \<Rightarrow> (g', Some ([], Err e))
              | (g', Ok (mainPID, startedArgv)) \<Rightarrow> (g', supervise_loop h mainPID 0 0 [])))"

definition run_init ::
  "'w kernel \<Rightarrow> user_db \<Rightarrow> 'w starter \<Rightarrow> history \<Rightarrow> 'w guest \<Rightarrow> 'w guest \<times> (init_err, int) result option" where
  "run_init k db start h g =
     (case setupBaseMounts k g of
        (g1, Err e) \<Rightarrow> (g1, Some (Err e))
      | (g1, Ok _) \<Rightarrow>
     (case loadStartSpec (k_env k) (k_text k) (g_fs g1) of
        Err e \<Rightarrow> (g1, Some (Err e))
      | Ok (spec, source) \<Rightarrow>
     (case applyRuntimeSetup k spec g1 of
        (g2, Err e) \<Rightarrow> (g2, Some (Err e))
      | (g2, Ok _) \<Rightarrow>
     (case runAndSupervise db start h spec g2 of
        (g3, r) \<Rightarrow> (g3, map_option snd r)))))"

text \<open>The status the program ends with, if it does.\<close>

definition init_main ::
  "'w kernel \<Rightarrow> user_db \<Rightarrow> 'w starter \<Rightarrow> history \<Rightarrow> 'w guest \<Rightarrow> int option" where
  "init_main k db start h g =
     map_option (\<lambda>r. case r of Err _ \<Rightarrow> 1 | Ok exitCode \<Rightarrow> exitCode) (snd (run_init k db start h g))"

end
