(* ===== verification/Init_Spec.thy ===== *)
theory Init_Spec
  imports Init Converter_Spec
begin

text \<open>
  Properties of the guest's init program: when it ends and with which code, what a shell makes of the
  fallback command line, the environment and the ids of the main process, and the way of an image's start
  command from the converter through the daemon to the guest.
\<close>

section \<open>Exit codes\<close>

lemma waitStatusToExitCode_cases:
  "ws_Exited s \<Longrightarrow> waitStatusToExitCode s = uint (drop_bit 8 s AND 0xFF)"
  "ws_Signaled s \<Longrightarrow> waitStatusToExitCode s = 128 + uint (s AND 0x7F)"
  "\<not> ws_Exited s \<Longrightarrow> \<not> ws_Signaled s \<Longrightarrow> waitStatusToExitCode s = 1"
  by (auto simp: waitStatusToExitCode_def ws_ExitStatus_def ws_Signal_def ws_Exited_def ws_Signaled_def)

lemma uint_and_mask: "uint (w AND 0xFF :: u32) \<le> 255" "uint (w AND 0x7F :: u32) \<le> 127"
proof -
  have "w AND 0xFF \<le> (0xFF :: u32)" "w AND 0x7F \<le> (0x7F :: u32)" by (rule word_and_le1)+
  then show "uint (w AND 0xFF) \<le> 255" "uint (w AND 0x7F) \<le> 127" by (simp_all add: word_le_def)
qed

lemma exit_code_byte: "0 \<le> waitStatusToExitCode s \<and> waitStatusToExitCode s \<le> 255"
  using uint_and_mask [of s] uint_and_mask [of "drop_bit 8 s"]
  by (cases "ws_Exited s"; cases "ws_Signaled s") (simp_all add: waitStatusToExitCode_cases)

section \<open>Supervision\<close>

text \<open>Which results of a wait call end the supervision and which end a round.\<close>

definition decisive :: "int \<Rightarrow> wait_result \<Rightarrow> bool" where
  "decisive pid r = (case r of WaitFails e \<Rightarrow> e \<noteq> EINTR \<and> e \<noteq> ECHILD | Waited p _ \<Rightarrow> p = pid)"

definition verdict :: "wait_result \<Rightarrow> (init_err, int) result" where
  "verdict r = (case r of WaitFails e \<Rightarrow> Err (WaitErr e) | Waited _ st \<Rightarrow> Ok (waitStatusToExitCode st))"

definition nothing_to_reap :: "wait_result \<Rightarrow> bool" where
  "nothing_to_reap r = (case r of WaitFails e \<Rightarrow> e = ECHILD | Waited p _ \<Rightarrow> p = 0)"

lemma reap_step:
  assumes "pid > 0"
  shows "reapChildren waits pid n =
    (if decisive pid (waits n) then Some (Suc n, case verdict (waits n) of Err e \<Rightarrow> Err e | Ok c \<Rightarrow> Ok (True, c))
     else if nothing_to_reap (waits n) then Some (Suc n, Ok (False, 0))
     else reapChildren waits pid (Suc n))"
  using assms
  by (subst reapChildren.simps) (auto simp: decisive_def nothing_to_reap_def verdict_def split: wait_result.splits)

text \<open>
  The supervision in one loop over the wait calls: a decisive result ends it, a call that finds nothing
  to reap lets one event be handled, and everything else goes on.
\<close>

lemma supervise_step:
  assumes "pid > 0"
  shows "supervise_loop h pid n m calls =
    (if decisive pid (hi_wait h n) then Some (calls, verdict (hi_wait h n))
     else if nothing_to_reap (hi_wait h n) then
       supervise_loop h pid (Suc n) (Suc m) (handle_event (hi_kill h) pid (hi_event h m) calls)
     else supervise_loop h pid (Suc n) m calls)"
  by (subst (1 3) supervise_loop.simps, subst reap_step [OF assms])
    (auto split: sum.splits option.splits prod.splits)

definition rounds :: "history \<Rightarrow> nat \<Rightarrow> nat \<Rightarrow> nat" where
  "rounds h n N = length (filter (\<lambda>i. nothing_to_reap (hi_wait h i)) [n ..< N])"

definition handled :: "history \<Rightarrow> int \<Rightarrow> nat \<Rightarrow> nat \<Rightarrow> (int \<times> int) list \<Rightarrow> (int \<times> int) list" where
  "handled h pid m k calls = fold (\<lambda>i. handle_event (hi_kill h) pid (hi_event h i)) [m ..< m + k] calls"

lemma handled_Suc: "handled h pid m (Suc k) calls = handled h pid (Suc m) k (handle_event (hi_kill h) pid (hi_event h m) calls)"
  using upt_conv_Cons [of m "m + Suc k"] by (simp add: handled_def)

lemma supervise_until:
  assumes "pid > 0" "decisive pid (hi_wait h N)" "\<And>i. n \<le> i \<Longrightarrow> i < N \<Longrightarrow> \<not> decisive pid (hi_wait h i)" "n \<le> N"
  shows "supervise_loop h pid n m calls = Some (handled h pid m (rounds h n N) calls, verdict (hi_wait h N))"
  using assms(3,4)
proof (induction "N - n" arbitrary: n m calls)
  case 0
  then show ?case using assms by (subst supervise_step) (auto simp: handled_def rounds_def)
next
  case (Suc d)
  then have n: "n < N" "d = N - Suc n" "\<not> decisive pid (hi_wait h n)" by auto
  have r: "rounds h n N = (if nothing_to_reap (hi_wait h n) then 1 else 0) + rounds h (Suc n) N"
    using n(1) by (simp add: rounds_def upt_conv_Cons)
  show ?case
    using Suc(1) [OF n(2)] Suc(3) n r
    by (subst supervise_step [OF assms(1)]) (simp add: handled_Suc)
qed

lemma reap_raw:
  assumes ret: "reapChildren waits pid n = Some (k, r)" and pid: "pid > 0"
  shows "n < k" "r \<noteq> Ok (False, 0) \<Longrightarrow> \<exists>i \<ge> n. decisive pid (waits i)"
proof -
  let ?P = "\<lambda>waits p n y. p = pid \<longrightarrow> n < fst y \<and> (snd y \<noteq> Ok (False, 0) \<longrightarrow> (\<exists>i \<ge> n. decisive pid (waits i)))"
  have "?P waits pid n (k, r)"
  proof (rule reapChildren.raw_induct [where P = ?P, OF _ ret])
    fix f :: "(nat \<Rightarrow> wait_result) \<Rightarrow> int \<Rightarrow> nat \<Rightarrow> (nat \<times> (init_err, bool \<times> int) result) option" and waits p n y
    assume IH: "\<And>waits p n y. f waits p n = Some y \<Longrightarrow> ?P waits p n y"
      and eq: "(case waits n of
         WaitFails e \<Rightarrow> if e = EINTR then f waits p (Suc n)
           else if e = ECHILD then Some (Suc n, Ok (False, 0)) else Some (Suc n, Err (WaitErr e))
       | Waited q st \<Rightarrow> if q = 0 then Some (Suc n, Ok (False, 0))
           else if q = p then Some (Suc n, Ok (True, waitStatusToExitCode st)) else f waits p (Suc n)) = Some y"
    show "?P waits p n y"
    proof (cases "f waits p (Suc n) = Some y")
      case True
      then show ?thesis using IH [OF True] by (meson Suc_leD Suc_lessD)
    next
      case False
      then show ?thesis using eq pid
        by (auto simp: decisive_def split: wait_result.splits if_splits intro!: exI [of _ n])
    qed
  qed
  then show "n < k" "r \<noteq> Ok (False, 0) \<Longrightarrow> \<exists>i \<ge> n. decisive pid (waits i)" by auto
qed

lemma supervise_raw:
  assumes ret: "supervise_loop h pid n m calls = Some y" and pid: "pid > 0"
  shows "\<exists>i \<ge> n. decisive pid (hi_wait h i)"
proof -
  let ?P = "\<lambda>h p n m calls y. p = pid \<longrightarrow> (\<exists>i \<ge> n. decisive pid (hi_wait h i))"
  have "?P h pid n m calls y"
  proof (rule supervise_loop.raw_induct [where P = ?P, OF _ ret])
    fix f :: "history \<Rightarrow> int \<Rightarrow> nat \<Rightarrow> nat \<Rightarrow> (int \<times> int) list \<Rightarrow> ((int \<times> int) list \<times> (init_err, int) result) option"
      and h p n m calls y
    assume IH: "\<And>h p n m calls y. f h p n m calls = Some y \<Longrightarrow> ?P h p n m calls y"
      and eq: "(case reapChildren (hi_wait h) p n of
         None \<Rightarrow> None
       | Some (n', r) \<Rightarrow>
           (case r of
              Err e \<Rightarrow> Some (calls, Err e)
            | Ok (exited, exitCode) \<Rightarrow>
                if exited then Some (calls, Ok exitCode)
                else f h p n' (Suc m) (handle_event (hi_kill h) p (hi_event h m) calls))) = Some y"
    obtain n' r where re: "reapChildren (hi_wait h) p n = Some (n', r)"
      using eq by (auto split: option.splits)
    show "?P h p n m calls y"
    proof (cases "\<exists>c. r = Ok (False, c)")
      case True
      then have "f h p n' (Suc m) (handle_event (hi_kill h) p (hi_event h m) calls) = Some y" using eq re by auto
      from IH [OF this] show ?thesis using reap_raw(1) [OF re] pid by (meson less_imp_le_nat order_trans)
    next
      case False
      then show ?thesis using reap_raw(2) [OF re] pid by auto
    qed
  qed
  then show ?thesis by simp
qed

text \<open>The signals that events ask to be passed on.\<close>

definition signals_of :: "sup_event list \<Rightarrow> int list" where
  "signals_of evs = concat (map (\<lambda>ev. case ev of GotSignal s \<Rightarrow> if s = SIGCHLD then [] else [s] | _ \<Rightarrow> []) evs)"

definition to_group :: "int \<Rightarrow> (int \<times> int) list \<Rightarrow> int list" where
  "to_group pid calls = map snd (filter (\<lambda>(t, _). t = - pid) calls)"

lemma handle_event_group:
  "pid > 0 \<Longrightarrow> to_group pid (handle_event kills pid ev calls) = to_group pid calls @ signals_of [ev]"
  by (auto simp: handle_event_def forwardSignal_def to_group_def signals_of_def Let_def split: sup_event.splits option.splits)

lemma handled_group:
  assumes "pid > 0"
  shows "to_group pid (handled h pid m k calls) = to_group pid calls @ signals_of (map (hi_event h) [m ..< m + k])"
  by (induction k) (auto simp: handled_def signals_of_def handle_event_group [OF assms])

text \<open>
  C17: the init program ends exactly when the main process does or a wait call fails for good: when the
  N-th wait call is the first to report the main process or such a failure, its result decides, with the
  exit code of the main process; if there is no such call it runs on.  Until then every signal it
  receives other than SIGCHLD is sent to the process group of the main process, in order, one for each
  round in which nothing was left to reap.
\<close>

theorem supervision_ends:
  assumes "pid > 0"
  shows "(decisive pid (hi_wait h N) \<and> (\<forall>i < N. \<not> decisive pid (hi_wait h i)) \<longrightarrow>
      (\<exists>calls. supervise_loop h pid 0 0 [] = Some (calls, verdict (hi_wait h N)) \<and>
         to_group pid calls = signals_of (map (hi_event h) [0 ..< rounds h 0 N]))) \<and>
    ((\<forall>i. \<not> decisive pid (hi_wait h i)) \<longrightarrow> supervise_loop h pid 0 0 [] = None)"
proof -
  have "(\<forall>i. \<not> decisive pid (hi_wait h i)) \<longrightarrow> supervise_loop h pid 0 0 [] = None"
    using supervise_raw [OF _ assms] by (metis not_None_eq)
  then show ?thesis
    using supervise_until [OF assms, of h N 0 0 "[]"] handled_group [OF assms, of h 0 "rounds h 0 N" "[]"]
    by (simp add: to_group_def)
qed

definition sample_history :: history where
  "sample_history =
     \<lparr>hi_wait = (\<lambda>n. if n = 0 then Waited 0 0 else if n = 1 then Waited 9 0 else Waited 7 (push_bit 8 3)),
      hi_event = (\<lambda>n. GotSignal 15), hi_kill = (\<lambda>n. None)\<rparr>"

lemma sample_history_decides:
  "decisive 7 (hi_wait sample_history 2)" "\<And>i. i < 2 \<Longrightarrow> \<not> decisive 7 (hi_wait sample_history i)"
  "verdict (hi_wait sample_history 2) = Ok 3" "rounds sample_history 0 2 = 1"
proof -
  show "verdict (hi_wait sample_history 2) = Ok 3" by code_simp
qed (auto simp: sample_history_def decisive_def rounds_def nothing_to_reap_def numeral_2_eq_2 less_Suc_eq)

theorem supervision_ends_witness:
  "\<exists>calls. supervise_loop sample_history 7 0 0 [] = Some (calls, Ok 3) \<and> to_group 7 calls = [15]"
proof -
  have "signals_of (map (hi_event sample_history) [0 ..< 1]) = [15]"
    by (simp add: sample_history_def signals_of_def)
  then show ?thesis using supervision_ends [of 7 sample_history 2] sample_history_decides by auto
qed

section \<open>The command line for the shell\<close>

text \<open>
  How a POSIX shell splits a line into words, for lines made of blanks, quotes and plain characters:
  between single quotes everything stands for itself, between double quotes everything but the
  characters dollar, backquote and backslash.  A line with one of the characters that mean something else
  to the shell gives no answer, nor does one that ends within quotes.
\<close>

datatype quoting = Unquoted | Single | Double

definition sh_special :: "char \<Rightarrow> bool" where
  "sh_special c \<longleftrightarrow> c \<in> set ''|&;<>()$*?[#~=%!{}'' \<or> c \<in> {CHR 10, CHR 92, CHR 96}"

definition open_word :: "string option \<Rightarrow> string" where
  "open_word cur = (case cur of None \<Rightarrow> [] | Some w \<Rightarrow> w)"

fun sh_words :: "quoting \<Rightarrow> string option \<Rightarrow> string \<Rightarrow> string list option" where
  "sh_words Unquoted cur [] = Some (case cur of None \<Rightarrow> [] | Some w \<Rightarrow> [w])"
| "sh_words Single cur [] = None"
| "sh_words Double cur [] = None"
| "sh_words Unquoted cur (c # cs) =
     (if c = CHR 39 then sh_words Single (Some (open_word cur)) cs
      else if c = CHR 34 then sh_words Double (Some (open_word cur)) cs
      else if c = CHR 32 \<or> c = CHR 9 then
        (case cur of None \<Rightarrow> sh_words Unquoted None cs | Some w \<Rightarrow> map_option (\<lambda>ws. w # ws) (sh_words Unquoted None cs))
      else if sh_special c then None
      else sh_words Unquoted (Some (open_word cur @ [c])) cs)"
| "sh_words Single cur (c # cs) =
     (if c = CHR 39 then sh_words Unquoted cur cs else sh_words Single (Some (open_word cur @ [c])) cs)"
| "sh_words Double cur (c # cs) =
     (if c = CHR 34 then sh_words Unquoted cur cs
      else if c \<in> {CHR 36, CHR 92, CHR 96} then None
      else sh_words Double (Some (open_word cur @ [c])) cs)"

lemma open_word_Some [simp]: "open_word (Some w) = w" "open_word None = []"
  by (simp_all add: open_word_def)

lemma sh_words_quoted:
  "sh_words Single (Some w) (ReplaceAll v (CHR 39) [CHR 39, CHR 34, CHR 39, CHR 34, CHR 39] @ CHR 39 # rest) =
     sh_words Unquoted (Some (w @ v)) rest"
  by (induction v arbitrary: w) (simp_all add: ReplaceAll_def)

lemma sh_words_shellQuote: "sh_words Unquoted None (shellQuote v @ rest) = sh_words Unquoted (Some v) rest"
  using sh_words_quoted [of "[]" v rest] by (simp add: shellQuote_def)

lemma sh_words_line: "argv \<noteq> [] \<Longrightarrow> sh_words Unquoted None (Join (map shellQuote argv) '' '') = Some argv"
proof (induction argv rule: list_nonempty_induct)
  case (single v)
  then show ?case using sh_words_shellQuote [of v "[]"] by simp
next
  case (cons v vs)
  then show ?case using sh_words_shellQuote [of v "'' '' @ Join (map shellQuote vs) '' ''"]
    by (simp add: Join_Cons_ne)
qed

lemma equalStringSlices_eq [simp]: "equalStringSlices a b \<longleftrightarrow> a = b"
  by (auto simp: equalStringSlices_def list_all_iff intro: nth_equalityI)

lemma shellQuote_ne [simp]: "shellQuote v \<noteq> []"
  by (simp add: shellQuote_def)

lemma shellCommandLine_ne: "argv \<noteq> [] \<Longrightarrow> shellCommandLine argv \<noteq> []"
  by (cases argv; cases "tl argv") (auto simp: shellCommandLine_def)

lemma length_Join: "x \<in> set xs \<Longrightarrow> length x \<le> length (Join xs sep)"
  by (induction xs sep rule: Join.induct) auto

lemma length_shellQuote: "length (shellQuote v) > length v"
proof -
  have "length v \<le> length (ReplaceAll v (CHR 39) [CHR 39, CHR 34, CHR 39, CHR 34, CHR 39])"
    by (induction v) (auto simp: ReplaceAll_def)
  then show ?thesis by (simp add: shellQuote_def)
qed

lemma shellCommandLine_longer: "v \<in> set argv \<Longrightarrow> length v < length (shellCommandLine argv)"
  using length_Join [of "shellQuote v" "map shellQuote argv" "'' ''"] length_shellQuote [of v]
  by (auto simp: shellCommandLine_def)

lemma commandCandidates_ne:
  assumes "argv \<noteq> []"
  shows "commandCandidates argv = [argv, [''/bin/sh'', ''-lc'', shellCommandLine argv]]"
proof -
  have "shellCommandLine argv \<notin> set argv"
    using shellCommandLine_longer [of "shellCommandLine argv" argv] by blast
  then have "argv \<noteq> [x, y, shellCommandLine argv]" for x y by (metis list.set_intros)
  then show ?thesis using shellCommandLine_ne assms by (simp add: commandCandidates_def cloneSlice_def Let_def)
qed

lemma commandCandidates_Nil: "commandCandidates [] = commandCandidates [''/bin/sh'']"
  by (simp add: commandCandidates_def)

text \<open>
  C30: the command of an image is tried as it is and then through a shell, never anything else, and the
  shell gets a line that it splits back into the same arguments, whatever characters they have.
\<close>

theorem command_fallback:
  "\<exists>argv. argv = (if argv0 = [] then [''/bin/sh''] else argv0) \<and>
     commandCandidates argv0 = [argv, [''/bin/sh'', ''-lc'', shellCommandLine argv]] \<and>
     sh_words Unquoted None (shellCommandLine argv) = Some argv"
proof (cases "argv0 = []")
  case True
  then show ?thesis
    using commandCandidates_ne [of "[''/bin/sh'']"] sh_words_line [of "[''/bin/sh'']"]
    by (simp add: commandCandidates_Nil shellCommandLine_def)
next
  case False
  then show ?thesis
    using commandCandidates_ne [of argv0] sh_words_line [of argv0] by (simp add: shellCommandLine_def)
qed

section \<open>The environment\<close>

lemma SplitN2_pair: "CHR ''='' \<notin> set k \<Longrightarrow> SplitN2 (k @ ''='' @ v) CHR ''='' = [k, v]"
proof -
  assume "CHR ''='' \<notin> set k"
  then have "\<forall>c \<in> set k. c \<noteq> CHR ''=''" by auto
  then show ?thesis by (simp add: SplitN2_def takeWhile_append2 dropWhile_append2)
qed

definition env_key :: "string \<Rightarrow> bool" where
  "env_key k \<longleftrightarrow> k \<noteq> [] \<and> TrimSpace k = k \<and> CHR ''='' \<notin> set k"

lemma parse_env_pairs:
  "list_all (\<lambda>(k, v). env_key k) kvs \<Longrightarrow> parse_env (map (\<lambda>(k, v). k @ ''='' @ v) kvs) m = map_puts kvs m"
  by (induction kvs arbitrary: m) (auto simp: SplitN2_pair [simplified] env_key_def)

lemma envMapToList_canon: "map_canon m \<Longrightarrow> envMapToList m = map (\<lambda>(k, v). k @ ''='' @ v) m"
  by (auto simp: envMapToList_def Let_def map_canon_sort map_canon_distinct)

lemma parseEnvList_envMapToList:
  assumes "map_canon m" "list_all (\<lambda>(k, v). env_key k) m"
  shows "parseEnvList (envMapToList m) = m"
  using parse_env_pairs [OF assms(2)] assms(1) by (simp add: parseEnvList_def envMapToList_canon)

text \<open>The assignments of a list: entries without an equals sign or without a name do not count.\<close>

definition assignments :: "string list \<Rightarrow> (string \<times> string) list" where
  "assignments envs =
     concat (map (\<lambda>item. case SplitN2 item CHR ''='' of [k, v] \<Rightarrow> if TrimSpace k = [] then [] else [(TrimSpace k, v)] | _ \<Rightarrow> []) envs)"

lemma SplitN2_cases: "(\<exists>k v. SplitN2 s d = [k, v]) \<or> SplitN2 s d = [s]"
  by (auto simp: SplitN2_def)

lemma parse_env_assignments: "parse_env envs m = map_puts (assignments envs) m"
proof (induction envs m rule: parse_env.induct)
  case (2 item envs out)
  have "SplitN2 [] CHR ''='' = [[]]" by (simp add: SplitN2_def)
  then show ?case using 2 SplitN2_cases [of item "CHR ''=''"] by (auto simp: assignments_def Let_def)
qed (simp add: assignments_def)

lemma set_map_put: "set (map_put k v m) \<subseteq> insert (k, v) (set m)"
  by (induction m) (auto split: if_splits)

lemma set_map_puts: "set (map_puts kvs m) \<subseteq> set kvs \<union> set m"
proof (induction kvs arbitrary: m)
  case (Cons kv kvs)
  obtain k v where "kv = (k, v)" by force
  then show ?case using Cons [of "map_put k v m"] set_map_put [of k v m] by auto
qed simp

lemma SplitN2_left: "SplitN2 s d = [k, v] \<Longrightarrow> d \<notin> set k"
  by (auto simp: SplitN2_def dest: set_takeWhileD split: if_splits)

lemma assignment_keys: "(k, v) \<in> set (assignments envs) \<Longrightarrow> env_key k"
proof -
  assume "(k, v) \<in> set (assignments envs)"
  then obtain item k' where "[k', v] = SplitN2 item CHR ''=''" "TrimSpace k' \<noteq> []" "k = TrimSpace k'"
    by (auto simp: assignments_def split: list.splits if_splits)
  then show ?thesis using SplitN2_left [of item "CHR ''=''" k' v] set_TrimSpace [of k'] by (auto simp: env_key_def)
qed

lemma parseEnvList_wf: "map_canon (parseEnvList envs)" "list_all (\<lambda>(k, v). env_key k) (parseEnvList envs)"
  using set_map_puts [of "assignments envs" "[]"] assignment_keys
  by (auto simp: parseEnvList_def parse_env_assignments list_all_iff)

lemma runtime_env_wf:
  assumes "map_canon m" "list_all (\<lambda>(k, v). env_key k) m"
  shows "map_canon (runtime_env home m)" "list_all (\<lambda>(k, v). env_key k) (runtime_env home m)"
proof -
  have put: "list_all (\<lambda>(k, v). env_key k) (map_put k v m)" if "env_key k" "list_all (\<lambda>(k, v). env_key k) m"
    for k v :: string and m
    using that set_map_put [of k v m] by (fastforce simp: list_all_iff)
  have k: "env_key ''HOME''" "env_key ''PATH''" by code_simp+
  show "map_canon (runtime_env home m)" using assms by (simp add: runtime_env_def Let_def)
  show "list_all (\<lambda>(k, v). env_key k) (runtime_env home m)"
    using assms put [OF k(1)] put [OF k(2)] by (simp add: runtime_env_def Let_def)
qed

text \<open>
  C31: the environment of an image reaches the main process: the list made for the process reads back as
  the variables of the image, where the last assignment of a name counts and entries without a name or
  an equals sign do not; a home directory and a search path are added just where the image has none or
  a blank one.
\<close>

theorem environment_reaches_process:
  "parseEnvList (envMapToList (runtime_env home (ss_Env (buildSpecFromMeta meta)))) =
     runtime_env home (ss_Env (buildSpecFromMeta meta)) \<and>
   map_of (ss_Env (buildSpecFromMeta meta)) = map_of (rev (assignments (im_Env meta))) \<and>
   (\<forall>k. map_of (runtime_env home (ss_Env (buildSpecFromMeta meta))) k =
      (let v = map_of (ss_Env (buildSpecFromMeta meta)) k in
       if k = ''HOME'' \<and> (v = None \<or> TrimSpace (the v) = []) then Some home
       else if k = ''PATH'' \<and> (v = None \<or> TrimSpace (the v) = [])
         then Some ''/usr/local/sbin:/usr/local/bin:/usr/sbin:/usr/bin:/sbin:/bin''
       else v))"
proof -
  have e: "ss_Env (buildSpecFromMeta meta) = parseEnvList (im_Env meta)" by (simp add: buildSpecFromMeta_def Let_def)
  have "map_of (parseEnvList (im_Env meta)) = map_of (rev (assignments (im_Env meta)))"
    by (simp add: parseEnvList_def parse_env_assignments map_of_map_puts)
  moreover have "map_of (runtime_env home m) k =
      (let v = map_of m k in
       if k = ''HOME'' \<and> (v = None \<or> TrimSpace (the v) = []) then Some home
       else if k = ''PATH'' \<and> (v = None \<or> TrimSpace (the v) = [])
         then Some ''/usr/local/sbin:/usr/local/bin:/usr/sbin:/usr/bin:/sbin:/bin''
       else v)" for m k
    by (auto simp: runtime_env_def env_get_def Let_def split: option.splits)
  ultimately show ?thesis
    unfolding e using parseEnvList_envMapToList runtime_env_wf parseEnvList_wf by blast
qed

section \<open>From the image to the main process\<close>

lemma dec_enc_strs [simp]: "dec_list dec_str [] (enc_strs xs) old = Ok xs"
  using str_codec.list_roundtrip [of xs old] by (simp add: enc_strs_def dec_list_def list_all_iff)

lemma dec_image_metadata:
  "dec_imageMeta (enc_image_metadata m) zero_imageMeta =
     Ok \<lparr>im_Image = md_Image m, im_Entrypoint = md_Entrypoint m, im_Cmd = md_Cmd m, im_StartCmd = md_StartCmd m,
         im_Env = md_Env m, im_WorkingDir = md_WorkingDir m, im_User = md_User m\<rparr>"
  by (simp add: dec_imageMeta_def enc_image_metadata_def dec_simps zero_imageMeta_def dec_str_def omit_int_def EqualFold_def ToLower_def lower_char_def)

lemma writeMetadataFiles_effect:
  assumes "writeMetadataFiles env rootfsDir outputDir meta fs = (fs', Ok ())" "fs_wf fs"
  shows "fs_get fs' (resolve rootfsDir @ [''etc'', ''mergen'', ''image-meta.json'']) = Some (NFile (JSONDoc (enc_image_metadata meta)))"
proof -
  let ?doc = "JSONDoc (enc_image_metadata meta)"
  let ?root = "path_Join [path_Join [rootfsDir, ''etc'', ''mergen''], ''image-meta.json'']"
  have f: "list_all file_name [''etc'', ''mergen'']" "list_all file_name [''image-meta.json'']" by code_simp+
  have p: "resolve ?root = resolve rootfsDir @ [''etc'', ''mergen'', ''image-meta.json'']"
    using resolve_path_Join_names(1) [OF f(1), of rootfsDir] resolve_path_Join_names(1) [OF f(2)] by simp
  obtain fs1 fs2 where w: "os_MkdirAll env (path_Join [rootfsDir, ''etc'', ''mergen'']) fs = (fs1, Ok ())"
    "os_WriteFile env ?root ?doc fs1 = (fs2, Ok ())"
    "os_WriteFile env (path_Join [outputDir, ''image-meta.json'']) ?doc fs2 = (fs', Ok ())"
    using assms(1) unfolding writeMetadataFiles_def Let_def
    by (auto dest!: file_step_Ok elim!: and_then_cases)
  have "fs_wf fs1" using os_MkdirAll_spec(1) [OF w(1) assms(2)] .
  note e1 = os_WriteFile_effect [OF w(2) this]
  note e2 = os_WriteFile_effect [OF w(3) e1(1)]
  show ?thesis using e1(2) e2(2,3) p by metis
qed

lemma metadataPath_converter:
  assumes "Fields cmdline = Fields (resolvedBootArgs converterBootArgs (addr_String addr)) @ extra"
  shows "metadataPathFromCmdline cmdline = ''/etc/mergen/image-meta.json''"
proof -
  have t: "TrimSpace converterBootArgs \<noteq> []" by code_simp
  obtain more where "Fields (resolvedBootArgs converterBootArgs (addr_String addr)) = Fields converterBootArgs @ more"
    using resolvedBootArgs_words [of converterBootArgs addr] t by (auto simp: Let_def)
  then have "Fields cmdline = Fields converterBootArgs @ more @ extra" using assms by simp
  moreover have "List.map_filter meta_word (Fields converterBootArgs) = [''/etc/mergen/image-meta.json'']" by code_simp
  ultimately show ?thesis by (simp add: metadataPathFromCmdline_def List.map_filter_def)
qed

lemma suggested_bootArgs:
  assumes "Bind (JSONBody (suggested_request img rootfs (inferHTTPPort exposed))) = Ok req"
  shows "req_BootArgs req = converterBootArgs"
proof -
  have "int64 (if inferHTTPPort exposed \<le> 0 then 80 else inferHTTPPort exposed)"
    using inferHTTPPort_range [of exposed] by (simp add: int64_def)
  from suggested_bound [OF this] assms show ?thesis by (auto simp: suggested_request_def Let_def)
qed

text \<open>
  What an image says it runs is what the guest runs: the metadata of the converter are found by the init
  program of a guest that was booted with the arguments of the suggested request, as the daemon renders
  them and with whatever else is added after them, and the program starts the image's entry point and
  command, with its environment, user and directory.
\<close>

lemma image_command_starts:
  assumes req: "Bind (JSONBody (suggested_request img rootfs (inferHTTPPort exposed))) = Ok req"
    and boot: "meta_GuestIP meta = addr_String addr"
      "Fields cmdline = Fields (bs_BootArgs (cfg_BootSource (RenderVMConfig req meta))) @ extra"
    and guest: "fs_wf gfs" "reads_ok genv"
      "fs_get gfs [''etc'', ''mergen'', ''image-meta.json''] = Some (NFile (JSONDoc (enc_image_metadata (image_meta opts now cfg))))"
      "fs_get gfs [''proc'', ''cmdline''] = Some (NFile (Raw cmdline))"
  shows "\<exists>spec. loadStartSpec genv json_text gfs = Ok (spec, ''/etc/mergen/image-meta.json'') \<and>
     ss_Argv spec = composeStartCommand (ic_Entrypoint cfg) (ic_Cmd cfg) \<and>
     ss_Env spec = parseEnvList (ic_Env cfg) \<and>
     ss_User spec = (if TrimSpace (ic_User cfg) = [] then ''root'' else TrimSpace (ic_User cfg)) \<and>
     ss_WorkingDir spec = TrimSpace (ic_WorkingDir cfg)"
proof -
  let ?m = "image_meta opts now cfg"
  have b: "req_BootArgs req = converterBootArgs" by (rule suggested_bootArgs [OF req])
  have r: "resolve ''/proc/cmdline'' = [''proc'', ''cmdline'']" "resolve ''/etc/mergen/image-meta.json'' = [''etc'', ''mergen'', ''image-meta.json'']"
    by code_simp+
  have "metadataPathFromCmdline cmdline = ''/etc/mergen/image-meta.json''"
    using metadataPath_converter [of cmdline addr extra] boot b by (simp add: RenderVMConfig_def Let_def)
  then have p: "resolveMetaPath genv json_text defaultMetaPath gfs = ''/etc/mergen/image-meta.json''"
    using os_ReadFile_Ok [OF guest(1), of genv "''/proc/cmdline''" "Raw cmdline"] guest(2,4) r
    by (simp add: resolveMetaPath_def reads_ok_def file_text_def)
  have rd: "os_ReadFile genv ''/etc/mergen/image-meta.json'' gfs = Ok (JSONDoc (enc_image_metadata ?m))"
    "fileExists genv ''/etc/mergen/image-meta.json'' gfs"
    using os_ReadFile_Ok [OF guest(1)] os_Stat_Ok [OF guest(1), of genv "''/etc/mergen/image-meta.json''" "NFile (JSONDoc (enc_image_metadata ?m))"] guest(2,3) r
    by (simp_all add: reads_ok_def fileExists_def)
  have "composeStartCommand (ic_Entrypoint cfg) (ic_Cmd cfg) \<noteq> []" by (simp add: composeStartCommand_def Let_def)
  then show ?thesis
    using rd by (simp add: loadStartSpec_def Let_def p loadImageMeta_def unmarshal_def dec_image_metadata
        buildSpecFromMeta_def image_meta_def cloneSlice_def)
qed

definition sample_image :: image_config where
  "sample_image = zero_image_config\<lparr>ic_Entrypoint := [''/app''], ic_Cmd := [''serve''], ic_Env := [''A=1'']\<rparr>"

definition sample_options :: conv_options where
  "sample_options = \<lparr>op_Image = ''app'', op_OutputDir = ''/o'', op_Name = ''app'', op_SizeMiB = 0, op_SkipPull = False, op_SbinInitPath = ''/i''\<rparr>"

definition sample_guest :: "string \<Rightarrow> fs" where
  "sample_guest cmdline =
     [([''etc''], NDir), ([''etc'', ''mergen''], NDir),
      ([''etc'', ''mergen'', ''image-meta.json''], NFile (JSONDoc (enc_image_metadata (image_meta sample_options 5 sample_image)))),
      ([''proc''], NDir), ([''proc'', ''cmdline''], NFile (Raw cmdline))]"

section \<open>The status of the program\<close>

lemma supervise_ends_byte:
  assumes "supervise_loop h pid 0 0 [] = Some (calls, Ok c)" "pid > 0"
  shows "0 \<le> c \<and> c \<le> 255"
proof -
  have ex: "\<exists>i. decisive pid (hi_wait h i)" using supervise_raw [OF assms] by blast
  define N where "N = (LEAST i. decisive pid (hi_wait h i))"
  have "decisive pid (hi_wait h N)" "\<And>i. i < N \<Longrightarrow> \<not> decisive pid (hi_wait h i)"
    using LeastI_ex [OF ex] not_less_Least by (auto simp: N_def)
  from supervise_until [OF assms(2) this(1), of 0] this(2) assms(1)
  have "verdict (hi_wait h N) = Ok c" by auto
  then show ?thesis using exit_code_byte by (auto simp: verdict_def split: wait_result.splits)
qed

lemma start_first_pid:
  assumes "start_first start cmd cs e g = (g', Ok (pid, argv))" "\<And>c g g' p. start c g = (g', Ok p) \<Longrightarrow> p > 0"
  shows "pid > 0"
  using assms(1)
proof (induction cs arbitrary: e g)
  case (Cons c cs)
  then show ?case using assms(2) by (auto split: prod.splits sum.splits)
qed simp

text \<open>
  C32: the status the program ends with is a byte, so that nothing of it is lost when the kernel is given
  it: whatever the status words, the startup data, the failures of calls and the signals are.
\<close>

theorem init_status_byte:
  assumes ret: "init_main k db start h g = Some c" and pids: "\<And>cmd g g' p. start cmd g = (g', Ok p) \<Longrightarrow> p > 0"
  shows "0 \<le> c \<and> c \<le> 255"
proof -
  obtain g' r where run: "run_init k db start h g = (g', Some r)" "c = (case r of Err _ \<Rightarrow> 1 | Ok exitCode \<Rightarrow> exitCode)"
    using ret by (cases "run_init k db start h g") (auto simp: init_main_def)
  show ?thesis
  proof (cases r)
    case (Inr exitCode)
    then obtain spec g2 calls where "runAndSupervise db start h spec g2 = (g', Some (calls, Ok exitCode))"
      using run(1) by (auto simp: run_init_def split: prod.splits sum.splits)
    then obtain pid where "supervise_loop h pid 0 0 [] = Some (calls, Ok exitCode)" "pid > 0"
      using start_first_pid [OF _ pids]
      by (fastforce simp: runAndSupervise_def startMainProcess_def Let_def split: prod.splits sum.splits)
    then show ?thesis using supervise_ends_byte run(2) Inr by simp
  qed (use run(2) in simp)
qed

definition sample_kernel :: "unit kernel" where
  "sample_kernel =
     \<lparr>k_env = quiet_env, k_text = (\<lambda>_. []), k_mount = (\<lambda>_ g. (g, None)), k_sethostname = (\<lambda>_ w. (w, None)),
      k_readlink = (\<lambda>_ _. None), k_unlink = (\<lambda>_ g. (g, None)), k_symlink = (\<lambda>_ _ g. (g, None)),
      k_LinkByName = (\<lambda>_ _. Ok 1), k_LinkSetUp = (\<lambda>_ w. (w, None)), k_AddrAdd = (\<lambda>_ _ w. (w, None)),
      k_RouteAdd = (\<lambda>_ _ w. (w, None))\<rparr>"

definition sample_users :: user_db where
  "sample_users = \<lparr>db_Lookup = (\<lambda>n. if n = ''root'' then Some \<lparr>ui_Uid = ''0'', ui_Gid = ''0'', ui_HomeDir = ''/root''\<rparr> else None),
     db_LookupId = (\<lambda>_. None), db_LookupGroup = (\<lambda>_. None)\<rparr>"

definition sample_start :: "unit starter" where
  "sample_start cmd g = (g, Ok 7)"

theorem init_status_byte_witness:
  "\<exists>c. init_main sample_kernel sample_users sample_start sample_history \<lparr>g_fs = sample_guest [], g_sys = ()\<rparr> = Some c \<and>
     c \<noteq> 1 \<and> 0 \<le> c \<and> c \<le> 255"
proof -
  let ?g = "\<lparr>g_fs = sample_guest [], g_sys = ()\<rparr> :: unit guest"
  have "init_main sample_kernel sample_users sample_start sample_history ?g =
      map_option (\<lambda>r. case r of Err _ \<Rightarrow> 1 | Ok exitCode \<Rightarrow> exitCode) (map_option snd (supervise_loop sample_history 7 0 0 []))"
    by code_simp
  then have "init_main sample_kernel sample_users sample_start sample_history ?g = Some 3"
    using supervise_until [of 7 sample_history 2 0 0 "[]"] sample_history_decides by simp
  moreover have "sample_start cmd g = (g', Ok p) \<Longrightarrow> p > 0" for cmd g g' p by (auto simp: sample_start_def)
  ultimately show ?thesis
    using init_status_byte [of sample_kernel sample_users sample_start sample_history ?g 3] by simp
qed

section \<open>Users\<close>

lemma ParseUint32_dec: "ParseUint32 (dec n) = (if n < 2 ^ 32 then Some (of_nat n) else None)"
  by (simp add: ParseUint32_def) 

lemma dec_plain: "TrimSpace (dec n) = dec n" "CHR '':'' \<notin> set (dec n)"
  using dec_char_digit is_digit_not_space by (auto simp: is_digit_def intro!: TrimSpace_no_space dest!: dec_char_digit)

text \<open>
  Numeric users and groups are taken as they are: a pair of numbers below 2 to the 32 gives just these
  ids, whatever the user database says, and a number that does not fit is not cut off but looked up as a
  name.
\<close>

theorem numeric_user:
  "(uid < 2 ^ 32 \<and> gid < 2 ^ 32 \<longrightarrow>
      (\<exists>home. home \<noteq> [] \<and> resolveUser db (dec uid @ '':'' @ dec gid) = Ok (of_nat uid, of_nat gid, home))) \<and>
   (uid \<ge> 2 ^ 32 \<and> db_Lookup db (dec uid) = None \<longrightarrow>
      resolveUser db (dec uid @ '':'' @ dec gid) = Err (UserUnknown (dec uid))) \<and>
   (uid < 2 ^ 32 \<and> gid \<ge> 2 ^ 32 \<and> db_LookupGroup db (dec gid) = None \<longrightarrow>
      resolveUser db (dec uid @ '':'' @ dec gid) = Err (UserUnknown (dec gid)))"
proof -
  define s where "s = dec uid @ '':'' @ dec gid"
  have "\<forall>c \<in> set s. \<not> is_space c" using dec_char_digit is_digit_not_space by (auto simp: s_def is_space_def)
  then have t: "TrimSpace s = s" "s \<noteq> []" using TrimSpace_no_space by (auto simp: s_def)
  have "\<forall>c \<in> set (dec uid). c \<noteq> CHR '':''" using dec_plain(2) by auto
  then have p: "SplitN2 s CHR '':'' = [dec uid, dec gid]"
    by (simp add: s_def SplitN2_def takeWhile_append2 dropWhile_append2)
  have "resolveUser db s =
    (if uid < 2 ^ 32 \<and> gid < 2 ^ 32 then
       Ok (of_nat uid, of_nat gid,
         let home = (case db_LookupId db (dec (unat (of_nat uid :: u32))) of None \<Rightarrow> ''/'' | Some info \<Rightarrow> ui_HomeDir info)
         in if home = [] then ''/'' else home)
     else resolveUser db s)"
    by (simp add: resolveUser_def Let_def t p dec_plain(1) resolveUserPart_def resolveGroupPart_def ParseUint32_dec)
  moreover have "uid \<ge> 2 ^ 32 \<Longrightarrow> db_Lookup db (dec uid) = None \<Longrightarrow> resolveUser db s = Err (UserUnknown (dec uid))"
    by (simp add: resolveUser_def Let_def t p dec_plain(1) resolveUserPart_def ParseUint32_dec)
  moreover have "uid < 2 ^ 32 \<Longrightarrow> gid \<ge> 2 ^ 32 \<Longrightarrow> db_LookupGroup db (dec gid) = None \<Longrightarrow>
      resolveUser db s = Err (UserUnknown (dec gid))"
    by (simp add: resolveUser_def Let_def t p dec_plain(1) resolveUserPart_def resolveGroupPart_def ParseUint32_dec)
  ultimately show ?thesis unfolding s_def [symmetric] by (auto simp: Let_def)
qed

theorem numeric_user_witness:
  "resolveUser sample_users ''1000:33'' = Ok (1000, 33, ''/'')"
proof -
  have d: "dec 1000 @ '':'' @ dec 33 = ''1000:33''" by code_simp
  have "snd (snd (projr (resolveUser sample_users ''1000:33''))) = ''/''" by code_simp
  moreover have "\<exists>home. resolveUser sample_users ''1000:33'' = Ok (of_nat 1000, of_nat 33, home)"
    using numeric_user [of 1000 33 sample_users] unfolding d by auto
  ultimately show ?thesis by auto
qed

section \<open>Addresses\<close>

text \<open>
  A configured address keeps its value and gets the prefix length asked for, all bits when none is
  given; but an IPv4 address with a length above 32 is accepted and has no mask at all.
\<close>

theorem ip_config_mask:
  "parseIPConfigAddress (addr_String w) len =
     Ok \<lparr>in_IP = IPv4 w, in_Mask = (if len = 0 then Some (32, 32) else if len \<le> 32 then Some (unat len, 32) else None)\<rparr>"
proof -
  have d: "\<forall>c \<in> set (addr_String w). is_digit c \<or> c = CHR ''.''"
    by (cases "As4 w") (auto simp: addr_String_def dest: dec_char_digit)
  then have "TrimSpace (addr_String w) = addr_String w"
    using is_digit_not_space by (intro TrimSpace_no_space) (auto simp: is_space_def)
  moreover have "CHR ''/'' \<notin> set (addr_String w)" using d by (auto simp: is_digit_def)
  moreover have "addr_String w \<noteq> []" by (cases "As4 w") (simp add: addr_String_def)
  moreover have "net_ParseIP (addr_String w) = Some (IPv4 w)" by (simp add: net_ParseIP_def parse_addr_def)
  ultimately show ?thesis
    by (auto simp: parseIPConfigAddress_def Let_def CIDRMask_def word_le_nat_alt)
qed

end
