(* ===== verification/Conversion_Spec.thy ===== *)
theory Conversion_Spec
  imports Conversion Init_Spec
begin

text \<open>
  Properties of a conversion: it touches nothing outside of its output directory, whatever fails, and
  when it succeeds the output has the init program, the metadata and the request that belong together.
\<close>

section \<open>What a conversion may touch\<close>

text \<open>
  From one state to the other only entries at or below \<open>d\<close> have changed, and directories on the way to
  \<open>d\<close> were made.
\<close>

definition only_below :: "string list \<Rightarrow> fs \<Rightarrow> fs \<Rightarrow> bool" where
  "only_below d fs fs' \<longleftrightarrow>
     fs_wf fs' \<and>
     (\<forall>q. fs_get fs' q = fs_get fs q \<or> prefix d q \<or> (prefix q d \<and> fs_get fs q = None \<and> fs_get fs' q = Some NDir))"

lemma only_below_refl: "fs_wf fs \<Longrightarrow> only_below d fs fs"
  by (simp add: only_below_def)

lemma only_below_trans: "only_below d fs1 fs2 \<Longrightarrow> only_below d fs2 fs3 \<Longrightarrow> only_below d fs1 fs3"
  unfolding only_below_def by (metis option.distinct(1))

lemma only_below_wf: "only_below d fs fs' \<Longrightarrow> fs_wf fs'"
  by (simp add: only_below_def)

lemma only_below_mono: "only_below d' fs fs' \<Longrightarrow> prefix d d' \<Longrightarrow> only_below d fs fs'"
  unfolding only_below_def by (metis prefix_order.trans prefix_same_cases)

lemma only_below_keep: "only_below d fs fs' \<Longrightarrow> \<not> prefix d q \<Longrightarrow> fs_get fs q = Some n \<Longrightarrow> fs_get fs' q = Some n"
  unfolding only_below_def by (metis option.distinct(1))

lemma only_below_one: "fs_wf fs' \<Longrightarrow> (\<And>q. q \<noteq> p \<Longrightarrow> fs_get fs' q = fs_get fs q) \<Longrightarrow> prefix d p \<Longrightarrow> only_below d fs fs'"
  unfolding only_below_def by metis

text \<open>An operation that stays below a directory, whatever it returns; such operations compose.\<close>

definition confined :: "string list \<Rightarrow> (fs \<Rightarrow> fs \<times> 'r) \<Rightarrow> bool" where
  "confined d f \<longleftrightarrow> (\<forall>fs. fs_wf fs \<longrightarrow> only_below d fs (fst (f fs)))"

named_theorems confine \<open>operations that stay below a directory\<close>

lemma confinedD: "confined d f \<Longrightarrow> f fs = (fs', r) \<Longrightarrow> fs_wf fs \<Longrightarrow> only_below d fs fs'"
  unfolding confined_def by (metis fst_conv)

lemma confinedI: "(\<And>fs fs' r. fs_wf fs \<Longrightarrow> f fs = (fs', r) \<Longrightarrow> only_below d fs fs') \<Longrightarrow> confined d f"
  unfolding confined_def by (metis prod.collapse)

lemma confined_mono: "confined d' f \<Longrightarrow> prefix d d' \<Longrightarrow> confined d f"
  unfolding confined_def using only_below_mono by blast

lemma confined_id [confine]: "confined d (\<lambda>fs. (fs, r fs))"
  by (simp add: confined_def only_below_refl)

lemma confined_file_step [confine]: "confined d f \<Longrightarrow> confined d (\<lambda>fs. file_step (f fs))"
  by (simp add: confined_def file_step_def split_beta)

lemma confined_and_then [confine]:
  assumes "confined d f" "\<And>x. confined d (g x)"
  shows "confined d (\<lambda>fs. and_then (f fs) (\<lambda>fs x. g x fs))"
proof (rule confinedI)
  fix fs fs' r
  assume wf: "fs_wf fs" and run: "and_then (f fs) (\<lambda>fs x. g x fs) = (fs', r)"
  obtain fs1 r1 where f: "f fs = (fs1, r1)" by force
  note c = confinedD [OF assms(1) f wf]
  show "only_below d fs fs'"
  proof (cases r1)
    case (Inr x)
    then have "g x fs1 = (fs', r)" using run f by simp
    from only_below_trans [OF c confinedD [OF assms(2) this only_below_wf [OF c]]] show ?thesis .
  qed (use run f c in simp)
qed

lemma confined_sum [confine]:
  "(\<And>e. confined d (f e)) \<Longrightarrow> (\<And>x. confined d (g x)) \<Longrightarrow> confined d (\<lambda>fs. case c fs of Inl e \<Rightarrow> f e fs | Inr x \<Rightarrow> g x fs)"
  by (auto simp: confined_def split: sum.splits)

lemma confined_option [confine]:
  "confined d f \<Longrightarrow> (\<And>x. confined d (g x)) \<Longrightarrow> confined d (\<lambda>fs. case c fs of None \<Rightarrow> f fs | Some x \<Rightarrow> g x fs)"
  by (auto simp: confined_def split: option.splits)

lemma confined_if [confine]: "confined d f \<Longrightarrow> confined d g \<Longrightarrow> confined d (\<lambda>fs. if c fs then f fs else g fs)"
  by (auto simp: confined_def)

lemma confined_prod [confine]: "(\<And>a b. confined d (f a b)) \<Longrightarrow> confined d (\<lambda>fs. case x of (a, b) \<Rightarrow> f a b fs)"
  by (simp add: split_beta)

lemma confined_MkdirAll [confine]:
  assumes "prefix d (resolve path)"
  shows "confined d (os_MkdirAll env path)"
proof (rule confinedI)
  fix fs fs' r
  assume "fs_wf fs" "os_MkdirAll env path fs = (fs', r)"
  from os_MkdirAll_spec [OF this(2,1)]
  show "only_below d fs fs'"
    using assms unfolding dirs_added_def only_below_def by (metis prefix_same_cases)
qed

lemma confined_RemoveAll [confine]:
  assumes "prefix d (resolve path)"
  shows "confined d (os_RemoveAll env path)"
proof (rule confinedI)
  fix fs fs' r
  assume wf: "fs_wf fs" and run: "os_RemoveAll env path fs = (fs', r)"
  show "only_below d fs fs'"
    using os_RemoveAll_wf [OF run wf] os_RemoveAll_frame(1) [OF run] assms
    unfolding only_below_def by (metis prefix_order.trans)
qed

lemma os_Remove_wf:
  assumes "os_Remove env path fs = (fs', r)" "fs_wf fs"
  shows "fs_wf fs'"
proof (cases "fs_get fs (resolve path) = Some NDir")
  case True
  then have "fs' = fs \<or> (children fs (resolve path) = [] \<and> fs' = fs_del (resolve path) fs)"
    using assms by (auto simp: os_Remove_def Let_def lookup_Ok split: if_splits sum.splits node.splits)
  moreover have "fs_wf (fs_del (resolve path) fs)" if e: "children fs (resolve path) = []"
  proof (rule fs_wf_del [OF assms(2)])
    fix q n assume q: "fs_get fs q = Some n" "q \<noteq> []"
    have "fs_get fs (resolve path @ [x]) \<noteq> Some n" for x
      using children_iff [OF assms(2), of x "n = NDir" "resolve path"] e by auto
    then show "butlast q \<noteq> resolve path" using q by (metis append_butlast_last_id)
  qed
  ultimately show ?thesis using assms(2) by auto
qed (use os_Remove_frame(2) [OF assms] in blast)

lemma confined_Remove [confine]:
  assumes "prefix d (resolve path)"
  shows "confined d (os_Remove env path)"
  using os_Remove_wf os_Remove_frame(1) assms by (intro confinedI only_below_one) blast+

lemma os_Create_any:
  assumes "os_Create env path fs = (fs', r)" "fs_wf fs"
  shows "fs_wf fs'" "q \<noteq> resolve path \<Longrightarrow> fs_get fs' q = fs_get fs q"
    "r = Ok () \<Longrightarrow> \<exists>b. fs_get fs' (resolve path) = Some (NFile b)"
proof -
  obtain fs1 r1 where o: "os_OpenCreate env path fs = (fs1, r1)" by force
  show "fs_wf fs'" "q \<noteq> resolve path \<Longrightarrow> fs_get fs' q = fs_get fs q"
    "r = Ok () \<Longrightarrow> \<exists>b. fs_get fs' (resolve path) = Some (NFile b)"
    using assms o os_Create_effect [of env path fs fs'] os_OpenCreate_effect [OF o assms(2)]
    by (cases r1; auto simp: os_Create_def)+
qed

lemma file_Write_any:
  assumes "file_Write env path c fs = (fs', r)" "fs_wf fs" "fs_get fs (resolve path) = Some (NFile b)"
  shows "fs_wf fs'" "q \<noteq> resolve path \<Longrightarrow> fs_get fs' q = fs_get fs q" "\<exists>b. fs_get fs' (resolve path) = Some (NFile b)"
  using assms(1) fs_wf_replace [OF assms(2,3)] by (auto simp: file_Write_def Let_def split: if_splits)

text \<open>Creating a file and writing to it, as often as one likes.\<close>

lemma confined_Create [confine]: "prefix d (resolve path) \<Longrightarrow> confined d (os_Create env path)"
  using os_Create_any(1,2) by (intro confinedI only_below_one) blast+

lemma confined_WriteFile [confine]:
  assumes "prefix d (resolve path)"
  shows "confined d (os_WriteFile env path c)"
proof (rule confinedI)
  fix fs fs' r
  assume wf: "fs_wf fs" and run: "os_WriteFile env path c fs = (fs', r)"
  obtain fs1 r1 where o: "os_Create env path fs = (fs1, r1)" by force
  note a = os_Create_any [OF o wf]
  show "only_below d fs fs'"
  proof (cases r1)
    case (Inr u)
    then obtain b where b: "fs_get fs1 (resolve path) = Some (NFile b)" using a(3) by auto
    obtain r2 where "file_Write env path c fs1 = (fs', r2)"
      using run o Inr by (auto simp: os_WriteFile_def split: prod.splits sum.splits)
    note w = file_Write_any [OF this a(1) b]
    show ?thesis using only_below_one [OF w(1) _ assms] w(2) a(2) by simp
  next
    case (Inl e)
    then have "fs' = fs1" using run o by (simp add: os_WriteFile_def)
    then show ?thesis using only_below_one [OF a(1) _ assms] a(2) by simp
  qed
qed

section \<open>Parts of a conversion\<close>

lemma prefix_Join: "list_all file_name xs \<Longrightarrow> xs \<noteq> [] \<Longrightarrow> prefix d (resolve p) \<Longrightarrow> prefix d (resolve (path_Join (p # xs)))"
  by (simp add: resolve_path_Join_names(1))

lemma output_names:
  "list_all file_name [''rootfs'']" "list_all file_name [''image-cache'']" "list_all file_name [''rootfs.tar'']"
  "list_all file_name [''rootfs.ext4'']" "list_all file_name [''suggested-bootargs.txt'']"
  "list_all file_name [''suggested-vm-request.json'']" "list_all file_name [''image-meta.json'']"
  "list_all file_name [''manifest.json'']" "list_all file_name [''config.json'']" "list_all file_name [''sbin'']"
  "list_all file_name [''init'']" "list_all file_name [''mergen-init'']" "list_all file_name [''etc'', ''mergen'']"
  by code_simp+

lemmas in_output [confine] = output_names [THEN prefix_Join, simplified]

lemma confined_writeExecutable [confine]:
  "prefix d (resolve path) \<Longrightarrow> confined d (writeExecutableFileReplacingSymlink ce path content)"
  unfolding writeExecutableFileReplacingSymlink_def by (intro confine) auto

lemma confined_injectSbinInit [confine]:
  "prefix d (resolve rootfsDir) \<Longrightarrow> confined d (injectSbinInit ce hostPath rootfsDir)"
  unfolding injectSbinInit_def Let_def by (intro confine)

lemma confined_writeMetadataFiles [confine]:
  "prefix d (resolve rootfsDir) \<Longrightarrow> prefix d (resolve outputDir) \<Longrightarrow> confined d (writeMetadataFiles env rootfsDir outputDir meta)"
  unfolding writeMetadataFiles_def Let_def by (intro confine)

lemma confined_writeSuggestedVMRequest [confine]:
  "prefix d (resolve path) \<Longrightarrow> confined d (writeSuggestedVMRequest env path img ext4 port)"
  unfolding writeSuggestedVMRequest_def by (intro confine)

lemma confined_create_then:
  assumes d: "prefix d (resolve path)"
    and g: "\<And>fs b. fs_wf fs \<Longrightarrow> fs_get fs (resolve path) = Some (NFile b) \<Longrightarrow> only_below d fs (fst (g () fs))"
  shows "confined d (\<lambda>fs. and_then (file_step (os_Create env path fs)) (\<lambda>fs x. g x fs))"
proof (rule confinedI)
  fix fs fs' r
  assume wf: "fs_wf fs" and run: "and_then (file_step (os_Create env path fs)) (\<lambda>fs x. g x fs) = (fs', r)"
  obtain fs1 r1 where o: "os_Create env path fs = (fs1, r1)" by force
  note a = os_Create_any [OF o wf]
  have b: "only_below d fs fs1" using only_below_one [OF a(1) _ d] a(2) by simp
  show "only_below d fs fs'"
  proof (cases r1)
    case (Inr u)
    then have "fs' = fst (g () fs1)" using run o by (simp add: file_step_def)
    then show ?thesis using only_below_trans [OF b] g [OF a(1)] a(3) Inr by auto
  qed (use run o b in \<open>simp add: file_step_def\<close>)
qed

lemma file_Write_below:
  assumes "fs_wf fs" "fs_get fs (resolve path) = Some (NFile b)" "prefix d (resolve path)"
  shows "only_below d fs (fst (file_Write env path c fs))" "\<exists>b. fs_get (fst (file_Write env path c fs)) (resolve path) = Some (NFile b)"
proof -
  obtain fs' r where w: "file_Write env path c fs = (fs', r)" by force
  note a = file_Write_any [OF w assms(1,2)]
  show "only_below d fs (fst (file_Write env path c fs))" "\<exists>b. fs_get (fst (file_Write env path c fs)) (resolve path) = Some (NFile b)"
    using w a only_below_one [OF a(1) _ assms(3)] by simp_all
qed

lemma confined_downloadBlobToFile [confine]:
  assumes "prefix d (resolve path)" "prefix d (resolve (path_Dir path))"
  shows "confined d (downloadBlobToFile env dl src h path)"
proof -
  have f: "fst (and_then (file_step m) (\<lambda>fs _. if c fs then (fs, Err e) else (fs, Ok ()))) = fst m" for m c e
    by (auto simp: and_then_def file_step_def split: prod.splits sum.splits)
  show ?thesis
    unfolding downloadBlobToFile_def
    by (intro confine confined_create_then assms) (simp add: f file_Write_below(1) [OF _ _ assms(1)])
qed

lemma path_Dir_below:
  assumes "strict_prefix d (resolve p)"
  shows "prefix d (resolve (path_Dir p))"
proof (cases "CHR ''/'' \<in> set p")
  case True
  then obtain a s where p: "p = a @ CHR ''/'' # s" "CHR ''/'' \<notin> set s" by (metis split_list_last)
  have r: "resolve p = rev (clean_step True (rev (resolve a)) s)" using p by (simp add: resolve_append Split_plain)
  have "prefix d (resolve a)"
  proof (cases "file_name s")
    case True
    then have "resolve p = resolve a @ [s]" using r by (simp add: clean_step_name)
    then show ?thesis using assms by (auto simp: strict_prefix_def prefix_snoc)
  next
    case False
    have "''..'' \<notin> set (resolve a)" using resolve_ne_names [of a] by (auto simp: list_all_iff file_name_def)
    then have "prefix (resolve p) (resolve a)"
      using False r p(2) by (auto simp: file_name_def clean_step_def prefix_order.refl split: list.splits if_splits)
    then show ?thesis using assms by (meson prefix_order.trans prefix_order.less_imp_le)
  qed
  then show ?thesis using path_Dir_slash [OF p(2), of a] p(1) by simp
next
  case False
  then have "resolve p = rev (clean_step True [] p)" by (simp add: resolve_def clean_segs_def Split_plain)
  then have "length (resolve p) \<le> 1" by (auto simp: clean_step_def)
  then have "d = []" using assms by (metis One_nat_def leD length_0_conv less_one order_less_le_trans prefix_length_less)
  then show ?thesis by simp
qed

lemma confined_pull_layers:
  assumes laws: "digest_laws dl" and d: "prefix d (resolve C)"
  shows "confined d (pull_layers env dl src C layers)"
proof (induction layers)
  case Nil
  then show ?case by (simp add: confine)
next
  case (Cons layer layers)
  have e: "pull_layers env dl src C (layer # layers) = (\<lambda>fs. case parseDigest dl (de_Digest layer) of
        Err e \<Rightarrow> (fs, Err e)
      | Ok h \<Rightarrow> and_then (downloadBlobToFile env dl src h (cachedLayerPath dl C h) fs) (\<lambda>fs _.
          and_then (pull_layers env dl src C layers fs) (\<lambda>fs ls. (fs, Ok (\<lparr>lf_Digest = h, lf_Path = cachedLayerPath dl C h\<rparr> # ls)))))"
    by (auto simp: fun_eq_iff Let_def and_then_def split: sum.splits prod.splits)
  show ?case
  proof (cases "parseDigest dl (de_Digest layer)")
    case (Inr h)
    then obtain s where s: "dg_parse dl s = Some h" by (auto simp: parseDigest_def split: option.splits)
    have "strict_prefix d (resolve (cachedLayerPath dl C h))"
      using resolve_cachedLayerPath [OF laws s, of C] d by (auto simp: strict_prefix_def prefix_def)
    then have p: "prefix d (resolve (cachedLayerPath dl C h))" "prefix d (resolve (path_Dir (cachedLayerPath dl C h)))"
      using path_Dir_below by auto
    show ?thesis unfolding e Inr by (simp, intro confine Cons p)
  qed (simp add: e confine)
qed

lemma confined_pullAndCacheImage [confine]:
  assumes "digest_laws dl" "prefix d (resolve C)"
  shows "confined d (pullAndCacheImage env dl os arch registry img C)"
  unfolding pullAndCacheImage_def store_image_def
  by (intro confine confined_pull_layers assms)

text \<open>
  What is assumed of the code outside of the repository: unpacking a layer into a directory and the
  programs that make a file system image change nothing but that directory and that image.
\<close>

definition apply_laws :: "conv_env \<Rightarrow> bool" where
  "apply_laws ce \<longleftrightarrow> (\<forall>dir n. confined (resolve dir) (ce_apply ce dir n))"

definition exec_laws :: "conv_env \<Rightarrow> bool" where
  "exec_laws ce \<longleftrightarrow>
     (\<forall>cmd. cmd \<noteq> [] \<and> hd cmd \<in> {''truncate'', ''mkfs.ext4''} \<longrightarrow> confined (resolve (last cmd)) (\<lambda>fs. ce_exec ce fs cmd))"

lemma confined_apply_each:
  assumes "apply_laws ce" "prefix d (resolve rootfsDir)"
  shows "confined d (apply_each ce rootfsDir layers)"
proof (induction layers)
  case Nil
  then show ?case by (simp add: confine)
next
  case (Cons layer layers)
  have a: "confined d (ce_apply ce rootfsDir n)" for n
    using assms confined_mono unfolding apply_laws_def by blast
  have e: "apply_each ce rootfsDir (layer # layers) = (\<lambda>fs. case os_Open (ce_os ce) (lf_Path layer) fs of
        Err e \<Rightarrow> (fs, Err (FileErr e))
      | Ok n \<Rightarrow> and_then (map_prod id (\<lambda>b. if b then Ok () else Err LayerApply) (ce_apply ce rootfsDir n fs)) (\<lambda>fs _.
          and_then (file_step (fs, file_Close (ce_os ce) (lf_Path layer) fs)) (\<lambda>fs _. apply_each ce rootfsDir layers fs)))"
    by (auto simp: fun_eq_iff and_then_def split: sum.splits prod.splits)
  have m: "confined d (\<lambda>fs. map_prod id g (ce_apply ce rootfsDir n fs))" for n and g :: "bool \<Rightarrow> (conv_err, unit) result"
    using a [of n] by (simp add: confined_def)
  show ?case unfolding e by (intro confine m Cons)
qed

lemma confined_applyLayers [confine]:
  "apply_laws ce \<Longrightarrow> prefix d (resolve rootfsDir) \<Longrightarrow> confined d (applyLayers ce layers rootfsDir)"
  unfolding applyLayers_def by (intro confine confined_apply_each)

lemma confined_createTarFromDir [confine]:
  assumes "prefix d (resolve tarPath)"
  shows "confined d (createTarFromDir ce srcDir tarPath)"
  unfolding createTarFromDir_def
proof (rule confined_create_then [OF assms])
  fix fs b
  assume f: "fs_wf fs" "fs_get fs (resolve tarPath) = Some (NFile b)"
  note w = file_Write_below [OF f assms]
  have w2: "only_below d fs (fst (file_Write (ce_os ce) tarPath c' (fst (file_Write (ce_os ce) tarPath c fs))))" for c c'
  proof -
    obtain b' where "fs_get (fst (file_Write (ce_os ce) tarPath c fs)) (resolve tarPath) = Some (NFile b')" using w(2) by blast
    from file_Write_below(1) [OF only_below_wf [OF w(1)] this assms] show ?thesis using only_below_trans [OF w(1)] by blast
  qed
  have s: "fst (file_step m) = fst m" for m :: "fs \<times> (oserr, unit) result" by (simp add: file_step_def split_beta)
  show "only_below d fs (fst (let e = resolve srcDir;
           es = walk e fs;
           ok = (\<lambda>e. archivable (ce_os ce) fs e);
           names = map (\<lambda>(p, n). (Join (drop (length e) p) ''/'', n)) (takeWhile ok es);
           rootOK = (lookup fs e = Ok NDir \<and> walkable (ce_os ce) fs (e, NDir) \<and> \<not> os_fault (ce_os ce) CStat e fs)
       in if \<not> rootOK then (fst (file_Write (ce_os ce) tarPath (ce_tar ce [] True) fs), Err (FileErr EIO))
          else
            let (fs1, r) = file_step (file_Write (ce_os ce) tarPath (ce_tar ce names False) fs);
                fs2 = fst (file_Write (ce_os ce) tarPath (ce_tar ce names True) fs1)
            in case r of
                 Err e \<Rightarrow> (fs1, Err e)
               | Ok _ \<Rightarrow> (fs2, if list_all ok es then Ok () else Err (FileErr EIO))))"
    by (auto simp: Let_def split_beta s w(1) w2 split: sum.split)
qed

lemma confined_buildExt4 [confine]:
  assumes "exec_laws ce" "prefix d (resolve ext4Path)"
  shows "confined d (buildExt4 (ce_exec ce) rootfsDir ext4Path sizeMiB)"
proof -
  have x: "confined d (\<lambda>fs. ce_exec ce fs c)" if "c \<in> set (ext4_commands rootfsDir ext4Path sizeMiB)" for c
  proof -
    have "c \<noteq> []" "hd c \<in> {''truncate'', ''mkfs.ext4''}" "last c = ext4Path" using that by (auto simp: ext4_commands_def)
    then have "confined (resolve ext4Path) (\<lambda>fs. ce_exec ce fs c)" using assms(1) unfolding exec_laws_def by metis
    then show ?thesis by (rule confined_mono [OF _ assms(2)])
  qed
  have "confined d (run_commands (ce_exec ce) cs)" if "set cs \<subseteq> set (ext4_commands rootfsDir ext4Path sizeMiB)" for cs
    using that
  proof (induction cs)
    case (Cons c cs)
    have e: "run_commands (ce_exec ce) (c # cs) = (\<lambda>fs.
        and_then (map_prod id (\<lambda>b. if b then Ok () else Err (CommandFailed (hd c))) (ce_exec ce fs c)) (\<lambda>fs _. run_commands (ce_exec ce) cs fs))"
      by (auto simp: fun_eq_iff and_then_def split: prod.splits bool.splits)
    have "confined d (\<lambda>fs. map_prod id g (ce_exec ce fs c))" for g :: "bool \<Rightarrow> (conv_err, unit) result"
      using x [of c] Cons.prems by (simp add: confined_def)
    then show ?case unfolding e using Cons by (intro confine) auto
  next
    case Nil
    have "run_commands (ce_exec ce) [] = (\<lambda>fs. (fs, Ok ()))" by (simp add: fun_eq_iff)
    then show ?case by (simp add: confine)
  qed
  then show ?thesis unfolding buildExt4_def by simp
qed

lemma confined_obtain_image [confine]:
  "digest_laws (ce_digest ce) \<Longrightarrow> prefix d (resolve cacheDir) \<Longrightarrow> confined d (obtain_image ce opts cacheDir)"
  unfolding obtain_image_def by (intro confine)

lemma confined_convert_in:
  assumes "digest_laws (ce_digest ce)" "apply_laws ce" "exec_laws ce"
  shows "confined (resolve (op_OutputDir opts)) (convert_in ce opts now)"
  unfolding convert_in_def Let_def by (intro confine assms) simp_all

lemma confined_Convert:
  assumes "normalizeOptions opts = Ok n" "digest_laws (ce_digest ce)" "apply_laws ce" "exec_laws ce"
  shows "confined (resolve (op_OutputDir n)) (Convert ce opts now)"
  unfolding Convert_def assms(1) sum.case by (intro confine confined_convert_in assms)

lemma conversion_confined_wf:
  assumes "Convert ce opts now fs = (fs', r)" "fs_wf fs" "normalizeOptions opts = Ok n"
    and "digest_laws (ce_digest ce)" "apply_laws ce" "exec_laws ce"
  shows "fs_wf fs'"
  using only_below_wf [OF confinedD [OF confined_Convert [OF assms(3-6)] assms(1,2)]] .


section \<open>The result\<close>

lemma writeExecutable_effect:
  assumes run: "writeExecutableFileReplacingSymlink ce path content fs = (fs', Ok ())" and wf: "fs_wf fs"
  shows "fs_get fs' (resolve path) = Some (NFile content)"
proof -
  obtain fs1 where w: "os_WriteFile (ce_os ce) path content fs1 = (fs', Ok ())" "fs_wf fs1"
    using run wf os_Remove_wf
    by (auto simp: writeExecutableFileReplacingSymlink_def split: sum.splits if_splits elim!: and_then_cases)
  show ?thesis by (rule os_WriteFile_effect(2) [OF w])
qed

lemma injectSbinInit_effect:
  assumes run: "injectSbinInit ce hostPath rootfsDir fs = (fs', Ok ())" and wf: "fs_wf fs"
    and host: "os_ReadFile (ce_os ce) hostPath fs = Ok content"
  shows "fs_get fs' (resolve rootfsDir @ [''sbin'', ''init'']) = Some (NFile content)"
proof -
  let ?s = "path_Join [rootfsDir, ''sbin'']"
  obtain fs1 fs2 where s: "os_MkdirAll (ce_os ce) ?s fs = (fs1, Ok ())"
    "writeExecutableFileReplacingSymlink ce (path_Join [?s, ''init'']) content fs1 = (fs2, Ok ())"
    "writeExecutableFileReplacingSymlink ce (path_Join [?s, ''mergen-init'']) content fs2 = (fs', Ok ())"
    using run host unfolding injectSbinInit_def Let_def by (auto dest!: file_step_Ok elim!: and_then_cases)
  have wf1: "fs_wf fs1" by (rule os_MkdirAll_spec(1) [OF s(1) wf])
  have p: "resolve (path_Join [?s, x]) = resolve rootfsDir @ [''sbin'', x]" if "file_name x" for x
    using that resolve_path_Join_names(1) [OF output_names(10), of rootfsDir] resolve_path_Join [of x ?s] by simp
  have n: "file_name ''init''" "file_name ''mergen-init''" using output_names by auto
  have g: "fs_get fs2 (resolve rootfsDir @ [''sbin'', ''init'']) = Some (NFile content)"
    using writeExecutable_effect [OF s(2) wf1] p [OF n(1)] by simp
  have c: "only_below (resolve rootfsDir @ [''sbin'', ''mergen-init'']) fs2 fs'"
    by (rule confinedD [OF confined_writeExecutable s(3)])
      (use p [OF n(2)] confinedD [OF confined_writeExecutable [OF prefix_order.refl] s(2) wf1] only_below_wf in auto)
  show ?thesis by (rule only_below_keep [OF c _ g]) simp
qed

lemma convert_in_steps:
  assumes "convert_in ce opts now fs = (fs', Ok res)" "out = op_OutputDir opts"
  obtains f1 f2 f3 f4 f5 f6 f7 f8 f9 f10 pulled sizeMiB where
    "os_MkdirAll (ce_os ce) out fs = (f1, Ok ())"
    "os_RemoveAll (ce_os ce) (path_Join [out, ''rootfs'']) f1 = (f2, Ok ())"
    "os_MkdirAll (ce_os ce) (path_Join [out, ''rootfs'']) f2 = (f3, Ok ())"
    "obtain_image ce opts (path_Join [out, ''image-cache'']) f3 = (f4, Ok pulled)"
    "applyLayers ce (pi_Layers pulled) (path_Join [out, ''rootfs'']) f4 = (f5, Ok ())"
    "injectSbinInit ce (op_SbinInitPath opts) (path_Join [out, ''rootfs'']) f5 = (f6, Ok ())"
    "writeMetadataFiles (ce_os ce) (path_Join [out, ''rootfs'']) out (image_meta opts now (pi_Config pulled)) f6 = (f7, Ok ())"
    "createTarFromDir ce (path_Join [out, ''rootfs'']) (path_Join [out, ''rootfs.tar'']) f7 = (f8, Ok ())"
    "buildExt4 (ce_exec ce) (path_Join [out, ''rootfs'']) (path_Join [out, ''rootfs.ext4'']) sizeMiB f8 = (f9, Ok ())"
    "os_WriteFile (ce_os ce) (path_Join [out, ''suggested-bootargs.txt'']) (Raw (converterBootArgs @ [CHR 10])) f9 = (f10, Ok ())"
    "writeSuggestedVMRequest (ce_os ce) (path_Join [out, ''suggested-vm-request.json'']) (op_Image opts) (path_Join [out, ''rootfs.ext4''])
       (inferHTTPPort (map fst (ic_ExposedPorts (pi_Config pulled)))) f10 = (fs', Ok ())"
    "cr_RootFSExt4Path res = path_Join [out, ''rootfs.ext4'']" "cr_SuggestedVMPath res = path_Join [out, ''suggested-vm-request.json'']"
    "cr_StartCommand res = composeStartCommand (ic_Entrypoint (pi_Config pulled)) (ic_Cmd (pi_Config pulled))"
    "cr_SuggestedHTTPPort res = inferHTTPPort (map fst (ic_ExposedPorts (pi_Config pulled)))"
  using assms unfolding convert_in_def Let_def
  by (auto elim!: and_then_cases dest!: file_step_Ok)

lemma writeMetadataFiles_keep:
  assumes run: "writeMetadataFiles env rootfsDir outputDir meta fs = (fs', Ok ())" and wf: "fs_wf fs"
    and q: "fs_get fs q = Some n" "last q \<noteq> ''image-meta.json''"
  shows "fs_get fs' q = Some n"
proof -
  let ?d = "path_Join [rootfsDir, ''etc'', ''mergen'']"
  obtain fs1 fs2 where w: "os_MkdirAll env ?d fs = (fs1, Ok ())"
    "os_WriteFile env (path_Join [?d, ''image-meta.json'']) (JSONDoc (enc_image_metadata meta)) fs1 = (fs2, Ok ())"
    "os_WriteFile env (path_Join [outputDir, ''image-meta.json'']) (JSONDoc (enc_image_metadata meta)) fs2 = (fs', Ok ())"
    using run unfolding writeMetadataFiles_def Let_def by (auto dest!: file_step_Ok elim!: and_then_cases)
  note m = os_MkdirAll_spec [OF w(1) wf]
  note e1 = os_WriteFile_effect [OF w(2) m(1)]
  note e2 = os_WriteFile_effect [OF w(3) e1(1)]
  have "resolve (path_Join [x, ''image-meta.json'']) \<noteq> q" for x
    using q(2) resolve_path_Join_names(1) [OF output_names(7), of x] by auto
  then show ?thesis using e2(3) e1(3) dirs_added_keep [OF m(2) q(1)] by metis
qed

text \<open>The last steps of a conversion each write one file of the output directory.\<close>

lemma final_steps_keep:
  assumes run: "createTarFromDir ce rootfsDir (path_Join [out, ''rootfs.tar'']) f7 = (f8, r8)"
    "buildExt4 (ce_exec ce) rootfsDir (path_Join [out, ''rootfs.ext4'']) sizeMiB f8 = (f9, r9)"
    "os_WriteFile env (path_Join [out, ''suggested-bootargs.txt'']) c f9 = (f10, r10)"
    "writeSuggestedVMRequest env (path_Join [out, ''suggested-vm-request.json'']) img ext4 port f10 = (f11, r11)"
    and wf: "fs_wf f7" and x: "exec_laws ce" and g: "fs_get f7 (resolve out @ ''rootfs'' # q) = Some n"
  shows "fs_get f11 (resolve out @ ''rootfs'' # q) = Some n" and "fs_wf f10"
proof -
  have p: "resolve (path_Join [out, y]) = resolve out @ [y]" if "list_all file_name [y]" for y
    using resolve_path_Join_names(1) [OF that] by simp
  note p = output_names(3-6) [THEN p]
  have c8: "only_below (resolve out @ [''rootfs.tar'']) f7 f8"
    using confinedD [OF confined_createTarFromDir [OF prefix_order.refl] run(1) wf] p by simp
  have c9: "only_below (resolve out @ [''rootfs.ext4'']) f8 f9"
    using confinedD [OF confined_buildExt4 [OF x prefix_order.refl] run(2) only_below_wf [OF c8]] p by simp
  have c10: "only_below (resolve out @ [''suggested-bootargs.txt'']) f9 f10"
    using confinedD [OF confined_WriteFile [OF prefix_order.refl] run(3) only_below_wf [OF c9]] p by simp
  have c11: "only_below (resolve out @ [''suggested-vm-request.json'']) f10 f11"
    using confinedD [OF confined_writeSuggestedVMRequest [OF prefix_order.refl] run(4) only_below_wf [OF c10]] p by simp
  note keep = only_below_keep [OF c8] only_below_keep [OF c9] only_below_keep [OF c10] only_below_keep [OF c11]
  show "fs_get f11 (resolve out @ ''rootfs'' # q) = Some n" by (intro keep g) simp_all
  show "fs_wf f10" by (rule only_below_wf [OF c10])
qed

text \<open>The steps up to the unpacked layers stay in the output directory.\<close>

lemma early_steps_below:
  assumes run: "os_MkdirAll env out fs = (f1, r1)" "os_RemoveAll env (path_Join [out, ''rootfs'']) f1 = (f2, r2)"
    "os_MkdirAll env (path_Join [out, ''rootfs'']) f2 = (f3, r3)"
    "obtain_image ce opts (path_Join [out, ''image-cache'']) f3 = (f4, r4)"
    "applyLayers ce layers (path_Join [out, ''rootfs'']) f4 = (f5, r5)"
    and wf: "fs_wf fs" and laws: "digest_laws (ce_digest ce)" "apply_laws ce"
  shows "only_below (resolve out) fs f5"
proof -
  have below: "prefix (resolve out) (resolve (path_Join [out, ''rootfs'']))" "prefix (resolve out) (resolve (path_Join [out, ''image-cache'']))"
    by (intro in_output; simp)+
  note c1 = confinedD [OF confined_MkdirAll [OF prefix_order.refl] run(1) wf]
  note c2 = only_below_trans [OF c1 confinedD [OF confined_RemoveAll [OF below(1)] run(2) only_below_wf [OF c1]]]
  note c3 = only_below_trans [OF c2 confinedD [OF confined_MkdirAll [OF below(1)] run(3) only_below_wf [OF c2]]]
  note c4 = only_below_trans [OF c3 confinedD [OF confined_obtain_image [OF laws(1) below(2)] run(4) only_below_wf [OF c3]]]
  show ?thesis by (rule only_below_trans [OF c4 confinedD [OF confined_applyLayers [OF laws(2) below(1)] run(5) only_below_wf [OF c4]]])
qed

text \<open>
  A conversion that succeeds leaves what belongs together: the root directory has the init program
  that was given and the metadata of the image, the suggested request names the file system image and
  the port of the image, and the start command reported is the image's.
\<close>

lemma conversion_output:
  assumes run: "Convert ce opts now fs = (fs', Ok res)" and wf: "fs_wf fs" and n: "normalizeOptions opts = Ok n"
    and laws: "digest_laws (ce_digest ce)" "apply_laws ce" "exec_laws ce"
    and host: "os_ReadFile (ce_os ce) (op_SbinInitPath n) fs = Ok content" "reads_ok (ce_os ce)"
      "\<not> prefix (resolve (op_OutputDir n)) (resolve (op_SbinInitPath n))"
  shows "\<exists>cfg.
    fs_get fs' (resolve (op_OutputDir n) @ [''rootfs'', ''sbin'', ''init'']) = Some (NFile content) \<and>
    fs_get fs' (resolve (op_OutputDir n) @ [''rootfs'', ''etc'', ''mergen'', ''image-meta.json'']) =
      Some (NFile (JSONDoc (enc_image_metadata (image_meta n now cfg)))) \<and>
    fs_get fs' (resolve (cr_SuggestedVMPath res)) =
      Some (NFile (JSONDoc (suggested_request (op_Image n) (cr_RootFSExt4Path res) (cr_SuggestedHTTPPort res)))) \<and>
    cr_StartCommand res = composeStartCommand (ic_Entrypoint cfg) (ic_Cmd cfg) \<and>
    cr_SuggestedHTTPPort res = inferHTTPPort (map fst (ic_ExposedPorts cfg))"
proof -
  define out where "out = op_OutputDir n"
  let ?rootfs = "path_Join [out, ''rootfs'']"
  have "convert_in ce n now fs = (fs', Ok res)"
    using run n by (auto simp: Convert_def split: option.splits)
  from convert_in_steps [OF this out_def]
  obtain f1 f2 f3 f4 f5 f6 f7 f8 f9 f10 pulled sizeMiB where s:
    "os_MkdirAll (ce_os ce) out fs = (f1, Ok ())"
    "os_RemoveAll (ce_os ce) ?rootfs f1 = (f2, Ok ())"
    "os_MkdirAll (ce_os ce) ?rootfs f2 = (f3, Ok ())"
    "obtain_image ce n (path_Join [out, ''image-cache'']) f3 = (f4, Ok pulled)"
    "applyLayers ce (pi_Layers pulled) ?rootfs f4 = (f5, Ok ())"
    "injectSbinInit ce (op_SbinInitPath n) ?rootfs f5 = (f6, Ok ())"
    "writeMetadataFiles (ce_os ce) ?rootfs out (image_meta n now (pi_Config pulled)) f6 = (f7, Ok ())"
    "createTarFromDir ce ?rootfs (path_Join [out, ''rootfs.tar'']) f7 = (f8, Ok ())"
    "buildExt4 (ce_exec ce) ?rootfs (path_Join [out, ''rootfs.ext4'']) sizeMiB f8 = (f9, Ok ())"
    "os_WriteFile (ce_os ce) (path_Join [out, ''suggested-bootargs.txt'']) (Raw (converterBootArgs @ [CHR 10])) f9 = (f10, Ok ())"
    "writeSuggestedVMRequest (ce_os ce) (path_Join [out, ''suggested-vm-request.json'']) (op_Image n) (path_Join [out, ''rootfs.ext4''])
       (inferHTTPPort (map fst (ic_ExposedPorts (pi_Config pulled)))) f10 = (fs', Ok ())"
    and res: "cr_RootFSExt4Path res = path_Join [out, ''rootfs.ext4'']" "cr_SuggestedVMPath res = path_Join [out, ''suggested-vm-request.json'']"
      "cr_StartCommand res = composeStartCommand (ic_Entrypoint (pi_Config pulled)) (ic_Cmd (pi_Config pulled))"
      "cr_SuggestedHTTPPort res = inferHTTPPort (map fst (ic_ExposedPorts (pi_Config pulled)))"
    by metis
  have R: "resolve ?rootfs = resolve out @ [''rootfs'']" using resolve_path_Join_names(1) [OF output_names(1)] by simp
  note c5 = early_steps_below [OF s(1-5) wf laws(1,2)]
  note wf5 = only_below_wf [OF c5]
  have "os_ReadFile (ce_os ce) (op_SbinInitPath n) f5 = Ok content"
    using host only_below_keep [OF c5] os_ReadFile_Ok [OF wf] os_ReadFile_Ok [OF wf5] by (auto simp: out_def reads_ok_def)
  note i = injectSbinInit_effect [OF s(6) wf5 this]
  have wf6: "fs_wf f6" using only_below_wf confinedD [OF confined_injectSbinInit [OF prefix_order.refl] s(6) wf5] by blast
  note m = writeMetadataFiles_effect [OF s(7) wf6]
  have wf7: "fs_wf f7" using only_below_wf confinedD [OF confined_writeMetadataFiles [OF _ prefix_order.refl] s(7) wf6] R by simp
  have i7: "fs_get f7 (resolve out @ ''rootfs'' # [''sbin'', ''init'']) = Some (NFile content)"
    using writeMetadataFiles_keep [OF s(7) wf6 i] R by simp
  note keep = final_steps_keep [OF s(8-11) wf7 laws(3)]
  note wf10 = keep(2) [OF i7]
  have k: "fs_get fs' (resolve out @ ''rootfs'' # [''sbin'', ''init'']) = Some (NFile content)"
    "fs_get fs' (resolve out @ ''rootfs'' # [''etc'', ''mergen'', ''image-meta.json'']) =
      Some (NFile (JSONDoc (enc_image_metadata (image_meta n now (pi_Config pulled)))))"
    using keep(1) [OF i7] m keep(1) [of "[''etc'', ''mergen'', ''image-meta.json'']"] R by auto
  have "fs_get fs' (resolve (path_Join [out, ''suggested-vm-request.json''])) =
      Some (NFile (JSONDoc (suggested_request (op_Image n) (path_Join [out, ''rootfs.ext4'']) (cr_SuggestedHTTPPort res))))"
    using os_WriteFile_effect(2) [OF file_step_Ok wf10] s(11) res(4) by (simp add: writeSuggestedVMRequest_def)
  then show ?thesis using k res unfolding out_def [symmetric] by (intro exI [of _ "pi_Config pulled"]) simp
qed

section \<open>A sample conversion\<close>

definition sample_conv :: conv_env where
  "sample_conv =
     \<lparr>ce_os = quiet_env, ce_digest = sample_digests, ce_goos = ''linux'', ce_goarch = ''amd64'',
      ce_registry = sample_registry ''layer'', ce_lookPath = (\<lambda>p. Some (''/bin/'' @ p)),
      ce_apply = (\<lambda>_ _ fs. (fs, True)), ce_islink = (\<lambda>_ _. False), ce_tar = (\<lambda>_ _. Raw ''tar''), ce_text = (\<lambda>_. ''{}''),
      ce_exec = (\<lambda>fs _. (fs, True))\<rparr>"

definition conv_request :: conv_options where
  "conv_request = \<lparr>op_Image = ''nginx'', op_OutputDir = ''/o'', op_Name = [], op_SizeMiB = 0, op_SkipPull = False, op_SbinInitPath = ''/i''\<rparr>"

lemma sample_conv_laws: "digest_laws (ce_digest sample_conv)" "apply_laws sample_conv" "exec_laws sample_conv"
  using sample_digest_laws by (simp_all add: sample_conv_def apply_laws_def exec_laws_def confine)

lemma sample_converted:
  "map_sum (\<lambda>_. ()) (\<lambda>_. ()) (snd (Convert sample_conv conv_request 5 [([''i''], NFile (Raw ''ELF''))])) = Ok ()"
  by code_simp

lemma conv_request_normal: "normalizeOptions conv_request = Ok (conv_request\<lparr>op_Name := ''nginx''\<rparr>)"
  by code_simp

lemma sample_conv_run:
  obtains fs' res where "Convert sample_conv conv_request 5 [([''i''], NFile (Raw ''ELF''))] = (fs', Ok res)"
  using sample_converted
  by (cases "Convert sample_conv conv_request 5 [([''i''], NFile (Raw ''ELF''))]"; cases "snd (Convert sample_conv conv_request 5 [([''i''], NFile (Raw ''ELF''))])") auto


section \<open>The guest of a conversion\<close>

text \<open>The files of a guest: those below a directory, and the command line of its kernel.\<close>

definition guest_of :: "string list \<Rightarrow> string \<Rightarrow> fs \<Rightarrow> fs" where
  "guest_of d cmdline fs =
     ([''proc''], NDir) # ([''proc'', ''cmdline''], NFile (Raw cmdline)) #
     map (\<lambda>(p, n). (drop (length d) p, n)) (filter (\<lambda>(p, _). strict_prefix d p \<and> p ! length d \<noteq> ''proc'') fs)"

lemma map_of_below:
  "map_of (map (\<lambda>(p, n). (drop (length d) p, n)) (filter (\<lambda>(p, _). strict_prefix d p \<and> p ! length d \<noteq> x) fs)) q =
     (if q \<noteq> [] \<and> hd q \<noteq> x then map_of fs (d @ q) else None)"
proof (induction fs)
  case (Cons e fs)
  obtain p n where e: "e = (p, n)" by force
  show ?case
  proof (cases "strict_prefix d p")
    case True
    then obtain r where "p = d @ r" "r \<noteq> []" by (auto simp: strict_prefix_def prefix_def)
    then show ?thesis using Cons True by (auto simp: e nth_append hd_conv_nth)
  next
    case False
    then have "p \<noteq> d @ q \<or> q = []" by (auto simp: strict_prefix_def)
    then show ?thesis using Cons False by (auto simp: e)
  qed
qed simp

lemma guest_of_get: "q \<noteq> [] \<Longrightarrow> hd q \<noteq> ''proc'' \<Longrightarrow> d \<noteq> [] \<Longrightarrow> fs_get (guest_of d cmdline fs) q = fs_get fs (d @ q)"
  by (auto simp: guest_of_def fs_get_def map_of_below)

lemma guest_of_proc:
  "fs_get (guest_of d cmdline fs) (''proc'' # q) =
     (if q = [] then Some NDir else if q = [''cmdline''] then Some (NFile (Raw cmdline)) else None)"
  by (auto simp: guest_of_def fs_get_def map_of_below)

lemma guest_of_wf:
  assumes wf: "fs_wf fs" and d: "fs_get fs d = Some NDir" "d \<noteq> []"
  shows "fs_wf (guest_of d cmdline fs)"
proof (rule fs_wfI)
  let ?below = "filter (\<lambda>(p, _). strict_prefix d p \<and> p ! length d \<noteq> ''proc'') fs"
  have dd: "distinct (map fst ?below)" using wf distinct_filter_keys by (auto simp: fs_wf_def)
  have "inj_on (drop (length d)) (set (map fst ?below))"
    by (auto simp: inj_on_def strict_prefix_def prefix_def)
  with dd have "distinct (map (drop (length d)) (map fst ?below))" by (simp only: distinct_map)
  moreover have "x \<notin> set (map (drop (length d)) (map fst ?below))" if "hd x = ''proc''" "x \<noteq> []" for x
    using that by (auto simp: strict_prefix_def prefix_def nth_append hd_conv_nth)
  ultimately show "distinct (map fst (guest_of d cmdline fs))" by (simp add: guest_of_def split_beta comp_def)
  show "map_of (guest_of d cmdline fs) [] = None" by (simp add: guest_of_def map_of_below)
  fix q m assume q: "q \<noteq> []" "fs_get (guest_of d cmdline fs) q = Some m"
  show "list_all file_name q \<and> fs_get (guest_of d cmdline fs) (butlast q) = Some NDir"
  proof (cases "hd q = ''proc''")
    case True
    then obtain r where "q = ''proc'' # r" using q(1) by (cases q) auto
    then show ?thesis using q guest_of_proc [of d cmdline fs] by (auto simp: file_name_def split: if_splits)
  next
    case False
    then have g: "fs_get fs (d @ q) = Some m" using q guest_of_get d(2) by metis
    have "list_all file_name (d @ q)" "fs_get fs (butlast (d @ q)) = Some NDir" using fs_wf_get [OF wf g] q(1) by auto
    moreover have "fs_get (guest_of d cmdline fs) (butlast q) = fs_get fs (d @ butlast q)"
      using False q(1) d guest_of_get [of "butlast q" d cmdline fs] by (cases q) auto
    ultimately show ?thesis using q(1) by (simp add: butlast_append)
  qed
qed

end
