(* ===== verification/Logging.thy ===== *)
theory Logging
  imports Prelude
begin

text \<open>
  \<open>src/internal/logging/logging.go\<close>: the logger of the programs.  Levels, the choice of the handler and
  the handler for consoles, which writes a record as one line of text, are modelled.  The texts of
  floating point numbers, durations, times and values of other types are parameters, as is the table of
  the printable characters outside of ASCII.
\<close>

section \<open>Levels\<close>

type_synonym level = int

definition LevelDebug :: level where "LevelDebug = -4"
definition LevelInfo :: level where "LevelInfo = 0"
definition LevelWarn :: level where "LevelWarn = 4"
definition LevelError :: level where "LevelError = 8"

definition parseLevel :: "string \<Rightarrow> level" where
  "parseLevel raw =
     (let l = ToLower (TrimSpace raw)
      in if l = ''debug'' then LevelDebug
         else if l = ''warn'' \<or> l = ''warning'' then LevelWarn
         else if l = ''error'' then LevelError
         else LevelInfo)"

text \<open>\<open>slog.Level.String\<close>: a name and the distance to it.\<close>

definition level_offset :: "string \<Rightarrow> int \<Rightarrow> string" where
  "level_offset base d = (if d = 0 then base else base @ (if d < 0 then [] else ''+'') @ Itoa d)"

definition level_String :: "level \<Rightarrow> string" where
  "level_String l =
     (if l < LevelInfo then level_offset ''DEBUG'' (l - LevelDebug)
      else if l < LevelWarn then level_offset ''INFO'' (l - LevelInfo)
      else if l < LevelError then level_offset ''WARN'' (l - LevelWarn)
      else level_offset ''ERROR'' (l - LevelError))"

definition colorReset :: string where "colorReset = CHR 27 # ''[0m''"
definition colorBlue :: string where "colorBlue = CHR 27 # ''[34m''"
definition colorYellow :: string where "colorYellow = CHR 27 # ''[33m''"
definition colorRed :: string where "colorRed = CHR 27 # ''[31m''"
definition colorCyan :: string where "colorCyan = CHR 27 # ''[36m''"

definition colorForLevel :: "level \<Rightarrow> string" where
  "colorForLevel l =
     (if l \<ge> LevelError then colorRed
      else if l \<ge> LevelWarn then colorYellow
      else if l \<ge> LevelInfo then colorBlue
      else colorCyan)"

section \<open>Quoting\<close>

text \<open>The first rune of a string and the number of its bytes; an invalid byte counts as the rune FFFD.\<close>

abbreviation byte :: "string \<Rightarrow> nat \<Rightarrow> nat" where
  "byte s i \<equiv> of_char (s ! i)"

definition in_range :: "string \<Rightarrow> nat \<Rightarrow> nat \<Rightarrow> nat \<Rightarrow> bool" where
  "in_range s i lo hi \<longleftrightarrow> i < length s \<and> lo \<le> byte s i \<and> byte s i \<le> hi"

definition DecodeRune :: "string \<Rightarrow> nat \<times> nat" where
  "DecodeRune s =
     (let b = byte s 0; tail = (\<lambda>i. in_range s i 128 191)
      in if b < 128 then (b, 1)
         else if 194 \<le> b \<and> b \<le> 223 \<and> tail 1 then ((b - 192) * 64 + (byte s 1 - 128), 2)
         else if 224 \<le> b \<and> b \<le> 239 \<and>
                 in_range s 1 (if b = 224 then 160 else 128) (if b = 237 then 159 else 191) \<and> tail 2 then
           ((b - 224) * 4096 + (byte s 1 - 128) * 64 + (byte s 2 - 128), 3)
         else if 240 \<le> b \<and> b \<le> 244 \<and>
                 in_range s 1 (if b = 240 then 144 else 128) (if b = 244 then 143 else 191) \<and> tail 2 \<and> tail 3 then
           ((b - 240) * 262144 + (byte s 1 - 128) * 4096 + (byte s 2 - 128) * 64 + (byte s 3 - 128), 4)
         else (65533, 1))"

definition hex_digits :: "nat \<Rightarrow> nat \<Rightarrow> string" where
  "hex_digits n k = map (\<lambda>i. hex_char (n div 16 ^ (k - 1 - i) mod 16)) [0 ..< k]"

text \<open>\<open>strconv.Quote\<close>: the bytes \<open>bs\<close> of a rune as they appear between the quotes.\<close>

definition escape_rune :: "(nat \<Rightarrow> bool) \<Rightarrow> nat \<Rightarrow> string \<Rightarrow> string" where
  "escape_rune isPrint r bs =
     (if r = 34 \<or> r = 92 then CHR 92 # bs
      else if (if r < 128 then 32 \<le> r \<and> r < 127 else isPrint r) then bs
      else if r = 7 then CHR 92 # ''a''
      else if r = 8 then CHR 92 # ''b''
      else if r = 12 then CHR 92 # ''f''
      else if r = 10 then CHR 92 # ''n''
      else if r = 13 then CHR 92 # ''r''
      else if r = 9 then CHR 92 # ''t''
      else if r = 11 then CHR 92 # ''v''
      else if r < 32 \<or> r = 127 then CHR 92 # ''x'' @ hex_digits r 2
      else if r < 65536 then CHR 92 # ''u'' @ hex_digits r 4
      else CHR 92 # ''U'' @ hex_digits r 8)"

lemma DecodeRune_width: "DecodeRune s = (r, width) \<Longrightarrow> 1 \<le> width"
  by (auto simp: DecodeRune_def Let_def split: if_splits)

function quote_body :: "(nat \<Rightarrow> bool) \<Rightarrow> string \<Rightarrow> string" where
  "quote_body isPrint s =
     (if s = [] then []
      else let (r, width) = DecodeRune s
           in (if width = 1 \<and> r = 65533 then CHR 92 # ''x'' @ hex_digits (byte s 0) 2
               else escape_rune isPrint r (take width s)) @ quote_body isPrint (drop width s))"
  by pat_completeness auto
termination
  by (relation "measure (\<lambda>(p, s). length s)") (auto dest: DecodeRune_width [OF sym])

declare quote_body.simps [simp del]

definition Quote :: "(nat \<Rightarrow> bool) \<Rightarrow> string \<Rightarrow> string" where
  "Quote isPrint s = [CHR 34] @ quote_body isPrint s @ [CHR 34]"

section \<open>Values and attributes\<close>

datatype ('f, 'a) log_value =
    KindString string
  | KindBool bool
  | KindInt64 int
  | KindUint64 int
  | KindFloat64 'f
  | KindDuration int
  | KindTime int
  | KindAny 'a
  | KindGroup "(string \<times> ('f, 'a) log_value) list"

record ('f, 'a) formats =
  fm_isPrint :: "nat \<Rightarrow> bool"
  fm_float :: "'f \<Rightarrow> string"
  fm_duration :: "int \<Rightarrow> string"
  fm_time :: "int \<Rightarrow> string"
  fm_any :: "'a \<Rightarrow> string"

definition needs_quotes :: "string \<Rightarrow> bool" where
  "needs_quotes text \<longleftrightarrow> list_ex (\<lambda>c. c \<in> {CHR 32, CHR 9, CHR 10, CHR 34, CHR 61}) text"

definition formatValue :: "('f, 'a) formats \<Rightarrow> ('f, 'a) log_value \<Rightarrow> string" where
  "formatValue fm v =
     (case v of
        KindString text \<Rightarrow>
          if text = [] then [CHR 34, CHR 34]
          else if needs_quotes text then Quote (fm_isPrint fm) text
          else text
      | KindBool b \<Rightarrow> if b then ''true'' else ''false''
      | KindInt64 i \<Rightarrow> Itoa i
      | KindUint64 i \<Rightarrow> Itoa i
      | KindFloat64 f \<Rightarrow> fm_float fm f
      | KindDuration d \<Rightarrow> fm_duration fm d
      | KindTime t \<Rightarrow> fm_time fm t
      | KindAny a \<Rightarrow> fm_any fm a
      | KindGroup _ \<Rightarrow> [])"

fun appendAttr :: "('f, 'a) formats \<Rightarrow> string list \<Rightarrow> string \<Rightarrow> ('f, 'a) log_value \<Rightarrow> string" where
  "appendAttr fm groups name (KindGroup attrs) =
     (let nextGroups = (if name \<noteq> [] then groups @ [name] else groups)
      in concat (map (\<lambda>(n, v). appendAttr fm nextGroups n v) attrs))"
| "appendAttr fm groups name v =
     (let key = Join (groups @ (if name \<noteq> [] then [name] else [])) ''.''
      in if key = [] then [] else '' '' @ key @ ''='' @ formatValue fm v)"

section \<open>Handlers\<close>

record ('f, 'a) consoleHandler =
  ch_minLevel :: level
  ch_attrs :: "(string \<times> ('f, 'a) log_value) list"
  ch_groups :: "string list"

definition newConsoleHandler :: "level \<Rightarrow> ('f, 'a) consoleHandler" where
  "newConsoleHandler minLevel = \<lparr>ch_minLevel = minLevel, ch_attrs = [], ch_groups = []\<rparr>"

definition Enabled :: "('f, 'a) consoleHandler \<Rightarrow> level \<Rightarrow> bool" where
  "Enabled h l \<longleftrightarrow> l \<ge> ch_minLevel h"

record ('f, 'a) log_record =
  lr_Level :: level
  lr_Time :: int
  lr_Message :: string
  lr_Attrs :: "(string \<times> ('f, 'a) log_value) list"

definition Handle :: "('f, 'a) formats \<Rightarrow> ('f, 'a) consoleHandler \<Rightarrow> ('f, 'a) log_record \<Rightarrow> string" where
  "Handle fm h r =
     colorForLevel (lr_Level r) @ ''['' @ ToUpper (level_String (lr_Level r)) @ '']'' @ colorReset @ '' '' @
     fm_time fm (lr_Time r) @ '' '' @ lr_Message r @
     concat (map (\<lambda>(n, v). appendAttr fm (ch_groups h) n v) (ch_attrs h @ lr_Attrs r)) @ [CHR 10]"

definition WithAttrs :: "('f, 'a) consoleHandler \<Rightarrow> (string \<times> ('f, 'a) log_value) list \<Rightarrow> ('f, 'a) consoleHandler" where
  "WithAttrs h attrs = h\<lparr>ch_attrs := ch_attrs h @ attrs\<rparr>"

definition WithGroup :: "('f, 'a) consoleHandler \<Rightarrow> string \<Rightarrow> ('f, 'a) consoleHandler" where
  "WithGroup h name = (if TrimSpace name = [] then h else h\<lparr>ch_groups := ch_groups h @ [name]\<rparr>)"

datatype ('f, 'a) log_handler = JSONHandler level | TextHandler level | ConsoleHandler "('f, 'a) consoleHandler"

definition New :: "string \<Rightarrow> string \<Rightarrow> ('f, 'a) log_handler" where
  "New lev format0 =
     (let minLevel = parseLevel lev; fmt = ToLower (TrimSpace format0)
      in if fmt = ''json'' then JSONHandler minLevel
         else if fmt = ''text'' then TextHandler minLevel
         else ConsoleHandler (newConsoleHandler minLevel))"

text \<open>The logger of the init program, \<open>newLogger\<close> of \<open>cmd/mergen-init-snapshot/main.go\<close>.\<close>

definition init_newLogger :: "string \<Rightarrow> ('f, 'a) log_handler" where
  "init_newLogger lev =
     TextHandler
       (let l = ToLower (TrimSpace lev)
        in if l = ''debug'' then LevelDebug
           else if l \<in> {''warn'', ''warning''} then LevelWarn
           else if l = ''error'' then LevelError
           else LevelInfo)"

section \<open>One record, one line\<close>

definition one_line :: "string \<Rightarrow> bool" where
  "one_line s \<longleftrightarrow> CHR 10 \<notin> set s"

lemma one_line_simps [simp]:
  "one_line []"
  "one_line (c # s) \<longleftrightarrow> c \<noteq> CHR 10 \<and> one_line s"
  "one_line (s @ t) \<longleftrightarrow> one_line s \<and> one_line t"
  by (auto simp: one_line_def)

lemma one_line_concat [simp]: "one_line (concat xs) \<longleftrightarrow> (\<forall>x \<in> set xs. one_line x)"
  by (auto simp: one_line_def)

lemma one_line_Join: "one_line sep \<Longrightarrow> \<forall>x \<in> set xs. one_line x \<Longrightarrow> one_line (Join xs sep)"
  by (induction xs sep rule: Join.induct) auto

lemma of_char_10: "(of_char c = (10 :: nat)) \<longleftrightarrow> c = CHR 10"
  using of_char_eq_iff [of c "CHR 10", where 'a = nat] by simp

lemma digit_char_line [simp]: "n < 10 \<Longrightarrow> digit_char n \<noteq> CHR 10"
  unfolding of_char_10 [symmetric] by (simp add: digit_char_def)

lemma hex_char_line [simp]: "n < 16 \<Longrightarrow> hex_char n \<noteq> CHR 10"
  unfolding of_char_10 [symmetric] by (simp add: hex_char_def)

lemma one_line_dec [simp]: "one_line (dec n)"
  by (induction n rule: dec.induct) (subst dec.simps, simp)

lemma one_line_Itoa [simp]: "one_line (Itoa i)"
  by (simp add: Itoa_def)

lemma one_line_hex [simp]: "one_line (hex_digits n k)"
  by (auto simp: one_line_def hex_digits_def dest: sym)

lemma one_line_level [simp]: "one_line (ToUpper (level_String l))"
proof -
  have "upper_char c = CHR 10 \<Longrightarrow> c = CHR 10" for c
    unfolding of_char_10 [symmetric] by (auto simp: upper_char_def split: if_splits)
  then have "one_line s \<Longrightarrow> one_line (ToUpper s)" for s
    by (fastforce simp: one_line_def ToUpper_def)
  then show ?thesis by (simp add: level_String_def level_offset_def)
qed

lemma one_line_color [simp]: "one_line (colorForLevel l)" "one_line colorReset"
  by (simp_all add: colorForLevel_def colorReset_def colorRed_def colorYellow_def colorBlue_def colorCyan_def)

text \<open>A rune other than the line feed has no line feed among its bytes.\<close>

lemma DecodeRune_bytes:
  assumes "DecodeRune s = (r, width)"
  shows "width = 1 \<and> r \<in> {byte s 0, 65533} \<or> (\<forall>i < width. 128 \<le> byte s i)"
proof -
  have all: "(\<forall>i < (2 :: nat). P i) \<longleftrightarrow> P 0 \<and> P 1" "(\<forall>i < (3 :: nat). P i) \<longleftrightarrow> P 0 \<and> P 1 \<and> P 2"
    "(\<forall>i < (4 :: nat). P i) \<longleftrightarrow> P 0 \<and> P 1 \<and> P 2 \<and> P 3" for P
    by (auto simp: numeral_eq_Suc less_Suc_eq)
  have "width = 1 \<and> r \<in> {byte s 0, 65533} \<or> width \<in> {2, 3, 4} \<and> (\<forall>i < width. 128 \<le> byte s i)"
    using assms unfolding DecodeRune_def Let_def
    by (simp split: if_splits; auto simp: all in_range_def)
  then show ?thesis by blast
qed

lemma DecodeRune_line:
  assumes "DecodeRune s = (r, width)" "r \<noteq> 10" "\<not> (width = 1 \<and> r = 65533)"
  shows "one_line (take width s)"
  using DecodeRune_bytes [OF assms(1)] assms(2,3)
  by (cases s) (fastforce simp: one_line_def in_set_conv_nth simp flip: of_char_10)+

lemma escape_rune_line: "r \<noteq> 10 \<Longrightarrow> one_line bs \<Longrightarrow> one_line (escape_rune isPrint r bs)"
  by (simp add: escape_rune_def)

lemma one_line_quote_body: "one_line (quote_body isPrint s)"
proof (induction isPrint s rule: quote_body.induct)
  case (1 isPrint s)
  obtain r width where d: "DecodeRune s = (r, width)" by force
  have "one_line (escape_rune isPrint r (take width s))"
    if "s \<noteq> []" "\<not> (width = 1 \<and> r = 65533)"
    using that DecodeRune_line [OF d] escape_rune_line
    by (cases "r = 10") (auto simp: escape_rune_def)
  then show ?case using 1 d by (subst quote_body.simps) auto
qed

lemma one_line_Quote [simp]: "one_line (Quote isPrint s)"
  by (simp add: Quote_def one_line_quote_body)

fun plain_value :: "('f, 'a) formats \<Rightarrow> ('f, 'a) log_value \<Rightarrow> bool" where
  "plain_value fm (KindFloat64 f) = one_line (fm_float fm f)"
| "plain_value fm (KindDuration d) = one_line (fm_duration fm d)"
| "plain_value fm (KindTime t) = one_line (fm_time fm t)"
| "plain_value fm (KindAny a) = one_line (fm_any fm a)"
| "plain_value fm (KindGroup attrs) = list_all (\<lambda>(n, v). one_line n \<and> plain_value fm v) attrs"
| "plain_value fm _ = True"

lemma unquoted_line: "\<not> needs_quotes s \<Longrightarrow> one_line s"
  by (auto simp: needs_quotes_def one_line_def list_ex_iff)

lemma formatValue_line: "plain_value fm v \<Longrightarrow> one_line (formatValue fm v)"
  by (cases v) (simp_all add: formatValue_def unquoted_line)

lemma appendAttr_line:
  "plain_value fm v \<Longrightarrow> one_line name \<Longrightarrow> \<forall>g \<in> set groups. one_line g \<Longrightarrow> one_line (appendAttr fm groups name v)"
proof (induction fm groups name v rule: appendAttr.induct)
  case (1 fm groups name attrs)
  then show ?case by (fastforce simp: list_all_iff)
qed (auto simp: Let_def one_line_Join formatValue_line)

definition plain_attrs :: "('f, 'a) formats \<Rightarrow> (string \<times> ('f, 'a) log_value) list \<Rightarrow> bool" where
  "plain_attrs fm attrs \<longleftrightarrow> list_all (\<lambda>(n, v). one_line n \<and> plain_value fm v) attrs"

definition plain_handler :: "('f, 'a) formats \<Rightarrow> ('f, 'a) consoleHandler \<Rightarrow> bool" where
  "plain_handler fm h \<longleftrightarrow> plain_attrs fm (ch_attrs h) \<and> list_all one_line (ch_groups h)"

definition plain_record :: "('f, 'a) formats \<Rightarrow> ('f, 'a) log_record \<Rightarrow> bool" where
  "plain_record fm r \<longleftrightarrow>
     one_line (fm_time fm (lr_Time r)) \<and> one_line (lr_Message r) \<and> plain_attrs fm (lr_Attrs r)"

text \<open>Handlers that are made by the operations of the handler stay plain.\<close>

lemma plain_handlers [simp]:
  "plain_handler fm (newConsoleHandler l)"
  "plain_attrs fm attrs \<Longrightarrow> plain_handler fm h \<Longrightarrow> plain_handler fm (WithAttrs h attrs)"
  "one_line g \<Longrightarrow> plain_handler fm h \<Longrightarrow> plain_handler fm (WithGroup h g)"
  by (simp_all add: plain_handler_def plain_attrs_def newConsoleHandler_def WithAttrs_def WithGroup_def)

lemma Handle_line:
  assumes "plain_handler fm h" "plain_record fm r"
  obtains l where "Handle fm h r = l @ [CHR 10]" "one_line l"
proof -
  have "one_line (appendAttr fm (ch_groups h) n v)" if "(n, v) \<in> set (ch_attrs h @ lr_Attrs r)" for n v
    using assms that
    by (intro appendAttr_line)
      (auto simp: plain_handler_def plain_record_def plain_attrs_def list_all_iff)
  then have "one_line (concat (map (\<lambda>(n, v). appendAttr fm (ch_groups h) n v) (ch_attrs h @ lr_Attrs r)))"
    by auto
  with assms that show thesis by (auto simp: Handle_def plain_record_def)
qed

text \<open>
  A group that is opened after attributes were added also qualifies these attributes: the handler keeps one
  list of groups for all of its attributes.
\<close>

lemma group_order: "WithGroup (WithAttrs h attrs) g = WithAttrs (WithGroup h g) attrs"
  by (simp add: WithGroup_def WithAttrs_def)


definition sample_formats :: "(nat, string) formats" where
  "sample_formats = \<lparr>fm_isPrint = (\<lambda>r. False), fm_float = dec, fm_duration = (\<lambda>d. Itoa d @ ''ns''),
     fm_time = (\<lambda>t. ''2024-01-01T00:00:00Z''), fm_any = (\<lambda>a. a)\<rparr>"

definition sample_record :: "(nat, string) log_record" where
  "sample_record = \<lparr>lr_Level = LevelWarn, lr_Time = 0, lr_Message = ''vm start'',
     lr_Attrs = [(''vmID'', KindString (''a'' @ [CHR 10] @ ''b'')),
                 (''net'', KindGroup [(''port'', KindInt64 8080), (''up'', KindBool True)])]\<rparr>"

definition sample_handler :: "(nat, string) consoleHandler" where
  "sample_handler = WithAttrs (newConsoleHandler LevelInfo) [(''component'', KindString ''api'')]"

lemma sample_quote: "formatValue sample_formats (KindString (''a'' @ [CHR 10] @ ''b'')) = [CHR 34, CHR ''a'', CHR 92, CHR ''n'', CHR ''b'', CHR 34]"
  by (simp add: formatValue_def needs_quotes_def Quote_def quote_body.simps DecodeRune_def escape_rune_def sample_formats_def)


end
