(* ===== verification/Programs.thy ===== *)
theory Programs
  imports API Forwarder_Run Conversion_Spec Logging
begin

text \<open>
  The main functions: \<open>src/cmd/mergend/main.go\<close>, \<open>src/cmd/mergen-forwarder/main.go\<close> and
  \<open>src/cmd/mergen-converter/main.go\<close> with the flags of its command line.  A main function gives the exit
  status of the program.  Listening, signals and the end of the HTTP server are parameters; the texts
  of log records are left out, the output of the converter is kept.
\<close>

section \<open>The daemon\<close>

text \<open>
  What \<open>ListenAndServe\<close> returns, and what happens first: the server ends by itself or a signal arrives, in
  which case \<open>Shutdown\<close> is called with a timeout and says whether it succeeded within it.
\<close>

datatype serve_error = ErrServerClosed | ServeFailed

datatype daemon_event = ServerEnds serve_error | Signal (sg_shutdown: "int \<Rightarrow> bool") (sg_serve: serve_error)

definition server_result :: "serve_error \<Rightarrow> serve_error option" where
  "server_result e = (if e = ErrServerClosed then None else Some e)"

definition daemon_exit :: "config \<Rightarrow> daemon_event \<Rightarrow> nat" where
  "daemon_exit cfg ev =
     (case ev of
        ServerEnds e \<Rightarrow> if server_result e \<noteq> None then 1 else 0
      | Signal shutdown served \<Rightarrow>
          let shutdownTimeout = (if cf_ShutdownTimeout cfg \<le> 0 then 15 * second else cf_ShutdownTimeout cfg)
          in if \<not> shutdown shutdownTimeout then 1
             else if server_result served \<noteq> None then 1 else 0)"

text \<open>
  The whole main function: the configuration, the service, then the requests that are served one after
  the other, each with the time and the random bytes it reads, until the event that ends the program.
  A process starts with no lock held and no hook scheduled; what it leaves behind are the files and the
  units.  The first function lets the server answer a list of requests.
\<close>

type_synonym timed_request = "int \<times> 8 word list option \<times> api_request"

fun serve_all :: "'u service \<Rightarrow> timed_request list \<Rightarrow> 'u world \<Rightarrow> 'u world \<times> response list" where
  "serve_all svc [] w = (w, [])"
| "serve_all svc ((now, random, r) # reqs) w =
     (let (w1, resp) = ServeHTTP svc now random r w; (w2, resps) = serve_all svc reqs w1
      in (w2, resp # resps))"

definition new_world :: "fs \<Rightarrow> 'u \<Rightarrow> 'u world" where
  "new_world fs u = \<lparr>w_fs = fs, w_units = u, w_held = [], w_hooks = []\<rparr>"

definition daemon_main ::
  "os_env \<Rightarrow> 'u systemctl \<Rightarrow> (string \<Rightarrow> string option) \<Rightarrow> environ \<Rightarrow> timed_request list \<Rightarrow> daemon_event \<Rightarrow>
   fs \<times> 'u \<Rightarrow> (fs \<times> 'u) \<times> response list \<times> nat" where
  "daemon_main env ctl lookPath vars reqs ev m =
     (case bootstrap env ctl lookPath (FromEnv vars) (fst m) of
        (fs, None) \<Rightarrow> ((fs, snd m), [], 1)
      | (fs, Some svc) \<Rightarrow>
          (case serve_all svc reqs (new_world fs (snd m)) of
             (w, resps) \<Rightarrow> ((w_fs w, w_units w), resps, daemon_exit (FromEnv vars) ev)))"

section \<open>The forwarder\<close>

definition forwarder_main ::
  "(string \<Rightarrow> string \<Rightarrow> 'c option) \<Rightarrow> (string \<Rightarrow> bool) \<Rightarrow> (nat \<Rightarrow> accept_result) \<Rightarrow> int option \<Rightarrow> bool \<Rightarrow> nat list \<Rightarrow>
   environ \<Rightarrow> (nat list \<times> nat) option" where
  "forwarder_main loadKeyPair listen accepts drained ends conns vars =
     (case fwd_FromEnv vars of
        Err _ \<Rightarrow> Some ([], 1)
      | Ok cfg \<Rightarrow>
          let resolver = NewResolver (fc_ConfigRoot cfg) (fc_DomainPrefix cfg) (fc_DomainSuffix cfg) (fc_ResolverCacheTTL cfg);
              dialer = NewNetNSDialer (fc_NetNSRoot cfg)
          in case NewServer loadKeyPair cfg (Some resolver) (Some dialer) of
               Err _ \<Rightarrow> Some ([], 1)
             | Ok server \<Rightarrow>
                 (case server_Run listen accepts (se_config server) drained ends conns of
                    None \<Rightarrow> None
                  | Some (started, Err _) \<Rightarrow> Some (started, 1)
                  | Some (started, Ok _) \<Rightarrow> Some (started, 0)))"

section \<open>Package flag\<close>

text \<open>\<open>strconv.ParseInt (s, 0, 64)\<close>: the prefix chooses the base, and underscores may separate digits.\<close>

definition digit_of :: "char \<Rightarrow> nat option" where
  "digit_of c =
     (let b = of_char (lower_char c) :: nat
      in if is_digit c then Some (digit_val c)
         else if 97 \<le> b \<and> b \<le> 122 then Some (b - 87)
         else None)"

fun digits_value :: "nat \<Rightarrow> nat \<Rightarrow> string \<Rightarrow> nat option" where
  "digits_value base acc [] = Some acc"
| "digits_value base acc (c # cs) =
     (if c = CHR ''_'' then digits_value base acc cs
      else case digit_of c of
             None \<Rightarrow> None
           | Some d \<Rightarrow> if d \<ge> base then None else digits_value base (base * acc + d) cs)"

definition int_base :: "string \<Rightarrow> nat \<times> string" where
  "int_base s =
     (if s = [] \<or> hd s \<noteq> CHR ''0'' then (10, s)
      else if length s \<ge> 3 \<and> lower_char (s ! 1) = CHR ''b'' then (2, drop 2 s)
      else if length s \<ge> 3 \<and> lower_char (s ! 1) = CHR ''o'' then (8, drop 2 s)
      else if length s \<ge> 3 \<and> lower_char (s ! 1) = CHR ''x'' then (16, drop 2 s)
      else (8, drop 1 s))"

text \<open>\<open>underscoreOK\<close>: the character before is a digit or the prefix (0), an underscore, or something else.\<close>

datatype seen = SeenDigit | SeenUnderscore | SeenOther

fun underscores_ok :: "bool \<Rightarrow> seen \<Rightarrow> string \<Rightarrow> bool" where
  "underscores_ok hex saw [] = (saw \<noteq> SeenUnderscore)"
| "underscores_ok hex saw (c # cs) =
     (if is_digit c \<or> hex \<and> lower_char c \<in> set ''abcdef'' then underscores_ok hex SeenDigit cs
      else if c = CHR ''_'' then saw = SeenDigit \<and> underscores_ok hex SeenUnderscore cs
      else saw \<noteq> SeenUnderscore \<and> underscores_ok hex SeenOther cs)"

definition underscoreOK :: "string \<Rightarrow> bool" where
  "underscoreOK s =
     (if length s \<ge> 2 \<and> hd s = CHR ''0'' \<and> lower_char (s ! 1) \<in> set ''box''
      then underscores_ok (lower_char (s ! 1) = CHR ''x'') SeenDigit (drop 2 s)
      else underscores_ok False SeenOther s)"

definition ParseUint0 :: "string \<Rightarrow> nat option" where
  "ParseUint0 s =
     (if s = [] then None
      else case digits_value (fst (int_base s)) 0 (snd (int_base s)) of
             None \<Rightarrow> None
           | Some n \<Rightarrow> if CHR ''_'' \<in> set s \<and> \<not> underscoreOK s then None else Some n)"

definition ParseInt0 :: "string \<Rightarrow> int option" where
  "ParseInt0 s =
     (let neg = (s \<noteq> [] \<and> hd s = CHR ''-'');
          body = (if s \<noteq> [] \<and> hd s \<in> {CHR ''-'', CHR ''+''} then tl s else s)
      in case ParseUint0 body of
           None \<Rightarrow> None
         | Some n \<Rightarrow>
             (let v = (if neg then - int n else int n) in if int64 v then Some v else None))"

section \<open>The converter\<close>

record conv_flags =
  fl_image :: string
  fl_outputDir :: string
  fl_name :: string
  fl_sizeMiB :: int
  fl_skipPull :: bool
  fl_sbinInitPath :: string
  fl_logLevel :: string
  fl_logFormat :: string

definition default_flags :: conv_flags where
  "default_flags = \<lparr>fl_image = [], fl_outputDir = [], fl_name = [], fl_sizeMiB = 0, fl_skipPull = False,
     fl_sbinInitPath = ''./artifacts/sbin-init/sbin-init'', fl_logLevel = ''info'', fl_logFormat = ''console''\<rparr>"

datatype flag_err = BadFlagSyntax | FlagNotDefined | FlagNeedsArgument | InvalidFlagValue | ErrHelp

definition set_flag :: "string \<Rightarrow> string \<Rightarrow> conv_flags \<Rightarrow> (flag_err, conv_flags) result" where
  "set_flag name value f =
     (if name = ''image'' then Ok (f\<lparr>fl_image := value\<rparr>)
      else if name = ''output-dir'' then Ok (f\<lparr>fl_outputDir := value\<rparr>)
      else if name = ''name'' then Ok (f\<lparr>fl_name := value\<rparr>)
      else if name = ''size-mib'' then
        (case ParseInt0 value of None \<Rightarrow> Err InvalidFlagValue | Some i \<Rightarrow> Ok (f\<lparr>fl_sizeMiB := i\<rparr>))
      else if name = ''skip-pull'' then
        (case ParseBool value of None \<Rightarrow> Err InvalidFlagValue | Some b \<Rightarrow> Ok (f\<lparr>fl_skipPull := b\<rparr>))
      else if name = ''sbin-init'' then Ok (f\<lparr>fl_sbinInitPath := value\<rparr>)
      else if name = ''log-level'' then Ok (f\<lparr>fl_logLevel := value\<rparr>)
      else if name = ''log-format'' then Ok (f\<lparr>fl_logFormat := value\<rparr>)
      else if name = ''help'' \<or> name = ''h'' then Err ErrHelp
      else Err FlagNotDefined)"

definition known_flags :: "string list" where
  "known_flags = [''image'', ''output-dir'', ''name'', ''size-mib'', ''skip-pull'', ''sbin-init'', ''log-level'', ''log-format'']"

text \<open>
  \<open>flag.Parse\<close>: the arguments up to the first that is not a flag or to a double minus.  Only a flag of
  another type than bool takes its value from the next argument.
\<close>

fun parse_flags :: "string list \<Rightarrow> conv_flags \<Rightarrow> (flag_err, conv_flags) result" where
  "parse_flags [] f = Ok f"
| "parse_flags (s # args) f =
     (if length s < 2 \<or> hd s \<noteq> CHR ''-'' then Ok f
      else if s = ''--'' then Ok f
      else let body = (if s ! 1 = CHR ''-'' then drop 2 s else drop 1 s)
      in if body = [] \<or> hd body = CHR ''-'' \<or> hd body = CHR ''='' then Err BadFlagSyntax
      else case SplitN2 body (CHR ''='') of
             [name, value] \<Rightarrow>
               (case set_flag name value f of Err e \<Rightarrow> Err e | Ok f' \<Rightarrow> parse_flags args f')
           | _ \<Rightarrow>
               if body = ''skip-pull'' then
                 (case set_flag body ''true'' f of Err e \<Rightarrow> Err e | Ok f' \<Rightarrow> parse_flags args f')
               else if body \<notin> set known_flags then set_flag body [] f
               else (case args of
                       [] \<Rightarrow> Err FlagNeedsArgument
                     | value # args' \<Rightarrow>
                         (case set_flag body value f of Err e \<Rightarrow> Err e | Ok f' \<Rightarrow> parse_flags args' f')))"

declare parse_flags.simps(2) [simp del]

text \<open>The exit status and what is printed on the standard output.\<close>

definition converter_output :: "conv_result \<Rightarrow> string list" where
  "converter_output r =
     [''image: '' @ cr_Image r, ''output dir: '' @ cr_OutputDir r, ''rootfs dir: '' @ cr_RootFSDir r,
      ''rootfs tar: '' @ cr_RootFSTarPath r, ''rootfs ext4: '' @ cr_RootFSExt4Path r,
      ''image metadata: '' @ cr_MetadataPath r, ''suggested boot args: '' @ cr_SuggestedBootArgsPath r,
      ''suggested VM request: '' @ cr_SuggestedVMPath r] @
     (if cr_SuggestedHTTPPort r > 0 then [''suggested httpPort: '' @ Itoa (cr_SuggestedHTTPPort r)] else [])"

definition flags_options :: "conv_flags \<Rightarrow> conv_options" where
  "flags_options f = \<lparr>op_Image = fl_image f, op_OutputDir = fl_outputDir f, op_Name = fl_name f,
     op_SizeMiB = fl_sizeMiB f, op_SkipPull = fl_skipPull f, op_SbinInitPath = fl_sbinInitPath f\<rparr>"

definition converter_main :: "conv_env \<Rightarrow> int \<Rightarrow> string list \<Rightarrow> fs \<Rightarrow> fs \<times> nat \<times> string list" where
  "converter_main ce now args fs =
     (case parse_flags args default_flags of
        Err e \<Rightarrow> (fs, if e = ErrHelp then 0 else 2, [])
      | Ok f \<Rightarrow>
          if fl_image f = [] then (fs, 1, [])
          else case Convert ce (flags_options f) now fs of
                 (fs', Err _) \<Rightarrow> (fs', 1, [])
               | (fs', Ok r) \<Rightarrow> (fs', 0, converter_output r))"

section \<open>Runs of the daemon\<close>

lemma mkdir_each_roots:
  assumes "mkdir_each env dirs fs = (fs', r)" "fs_wf fs"
    and "\<forall>d \<in> set dirs. resolve d \<in> {croot st, rroot st, droot st}"
  shows "fs_wf fs'" "vm_frame st vid fs fs'"
proof -
  have "fs_wf fs' \<and> vm_frame st vid fs fs'"
    using assms
  proof (induction dirs arbitrary: fs)
    case (Cons d dirs)
    obtain fs1 r1 where m: "os_MkdirAll env d fs = (fs1, r1)" by fastforce
    note s = os_MkdirAll_spec [OF m Cons.prems(2)]
    have f: "vm_frame st vid fs fs1"
      using s(2) Cons.prems(3) by (auto simp: vm_frame_def dirs_added_def)
    show ?case
    proof (cases r1)
      case (Inl e)
      then show ?thesis using Cons.prems(1) m s(1) f by auto
    next
      case (Inr u)
      then have "mkdir_each env dirs fs1 = (fs', r)" using Cons.prems(1) m by auto
      from Cons.IH [OF this s(1)] Cons.prems(3) show ?thesis using vm_frame_trans [OF f] by auto
    qed
  qed auto
  then show "fs_wf fs'" "vm_frame st vid fs fs'" by auto
qed

text \<open>The invariant of the service is one of its store.\<close>

definition stored_inv :: "os_env \<Rightarrow> fs_store \<Rightarrow> fs \<Rightarrow> bool" where
  "stored_inv env st fs \<longleftrightarrow>
     store_ok env st fs \<and> fs_get fs (croot st @ [''meta.json'']) = None \<and>
     (\<exists>ms. ListMetas env st fs = Ok ms \<and> unique_resources ms)"

lemma svc_inv_stored: "svc_inv svc w \<longleftrightarrow> stored_inv (sv_env svc) (sv_store svc) (w_fs w)"
  by (simp add: svc_inv_def stored_inv_def)

lemma EnsureBaseDirs_stored:
  assumes "EnsureBaseDirs env st fs = (fs', r)" "stored_inv env st fs"
  shows "stored_inv env st fs'"
proof -
  have ok: "fs_wf fs" "roots_ok st" "store_ok env st fs" using assms(2) by (auto simp: stored_inv_def store_ok_def)
  obtain ms where ms: "ListMetas env st fs = Ok ms" "unique_resources ms" using assms(2) by (auto simp: stored_inv_def)
  have roots: "\<forall>d \<in> set [st_configRoot st, st_dataRoot st, st_runRoot st]. resolve d \<in> {croot st, rroot st, droot st}"
    by (simp add: croot_def rroot_def droot_def)
  note run = assms(1) [unfolded EnsureBaseDirs_def]
  note m = mkdir_each_roots(1) [OF run ok(1) roots] mkdir_each_roots(2) [OF run ok(1) roots, of "[]"]
  have none: "fs_get f (croot st @ [[]]) \<noteq> Some NDir" if "fs_wf f" for f
    using fs_wf_get(1) [OF that, of "croot st @ [[]]"] by (auto simp: file_name_def)
  obtain ms' where ms': "ListMetas env st fs' = Ok ms'" "mset ms' = mset ms"
    by (rule ListMetas_frame [OF ok(3) m ms(1), where m = undefined]) (use none ok(1) m(1) in auto)
  have "fs_get fs' (croot st @ [''meta.json'']) = None"
    using vm_frame_other [OF m(2) ok(2), of "''meta.json''" "[]"] assms(2) by (simp add: stored_inv_def)
  with ms' ms(2) m(1) ok(3) show ?thesis
    using unique_resources_mset [OF ms'(2)] by (simp add: stored_inv_def store_ok_def)
qed

text \<open>Random bytes that name no VM that exists when the request is served.\<close>

fun fresh_requests :: "'u service \<Rightarrow> timed_request list \<Rightarrow> 'u world \<Rightarrow> bool" where
  "fresh_requests svc [] w = True"
| "fresh_requests svc ((now, random, r) # reqs) w \<longleftrightarrow>
     fresh_random svc random w \<and> fresh_requests svc reqs (fst (ServeHTTP svc now random r w))"

lemma serve_all_inv:
  "svc_inv svc w \<Longrightarrow> alloc_wf (sv_alloc svc) \<Longrightarrow> fresh_requests svc reqs w \<Longrightarrow> svc_inv svc (fst (serve_all svc reqs w))"
proof (induction svc reqs w rule: serve_all.induct)
  case (2 svc now random r reqs w)
  then have "svc_inv svc (fst (ServeHTTP svc now random r w))" using ServeHTTP_inv by auto
  with 2 show ?case by (auto simp: Let_def split: prod.splits)
qed simp

definition config_store :: "environ \<Rightarrow> fs_store" where
  "config_store vars =
     (let cfg = FromEnv vars in NewFSStore (cf_ConfigRoot cfg) (cf_DataRoot cfg) (cf_RunRoot cfg) (cf_GlobalHooksDir cfg))"

lemma bootstrap_service:
  assumes "bootstrap env ctl lookPath (FromEnv vars) fs = (fs', s)"
  shows "\<exists>r. EnsureBaseDirs env (config_store vars) fs = (fs', r)"
    and "s = Some svc \<Longrightarrow> sv_store svc = config_store vars \<and> sv_env svc = env \<and> alloc_wf (sv_alloc svc)"
  using assms FromEnv_ports
  by (auto simp: bootstrap_def config_store_def Let_def NewAllocator_def alloc_wf_def split: prod.splits sum.splits)

lemma daemon_main_stored:
  assumes "stored_inv env (config_store vars) (fst m)"
    and fresh: "\<And>fs svc. bootstrap env ctl lookPath (FromEnv vars) (fst m) = (fs, Some svc) \<Longrightarrow>
           fresh_requests svc reqs (new_world fs (snd m))"
  shows "stored_inv env (config_store vars) (fst (fst (daemon_main env ctl lookPath vars reqs ev m)))"
proof -
  obtain fs s where b: "bootstrap env ctl lookPath (FromEnv vars) (fst m) = (fs, s)" by fastforce
  have i: "stored_inv env (config_store vars) fs"
    using bootstrap_service(1) [OF b] EnsureBaseDirs_stored assms(1) by blast
  show ?thesis
  proof (cases s)
    case (Some svc)
    note p = bootstrap_service(2) [OF b Some]
    then have "svc_inv svc (new_world fs (snd m))" using i by (simp add: svc_inv_stored new_world_def)
    then have "svc_inv svc (fst (serve_all svc reqs (new_world fs (snd m))))"
      using p fresh b Some by (intro serve_all_inv) auto
    with p b Some show ?thesis by (auto simp: daemon_main_def svc_inv_stored split: prod.splits)
  qed (use b i in \<open>simp add: daemon_main_def\<close>)
qed

text \<open>
  A machine on which the daemon runs any number of times, each run with an environment of its own that
  keeps the roots of the store, from a machine without VMs on.
\<close>

inductive machine :: "os_env \<Rightarrow> fs_store \<Rightarrow> fs \<times> 'u \<Rightarrow> bool" for env st where
  machine_new:
    "store_ok env st fs \<Longrightarrow> ListMetas env st fs = Ok [] \<Longrightarrow> fs_get fs (croot st @ [''meta.json'']) = None \<Longrightarrow>
     machine env st (fs, u)"
| machine_run:
    "machine env st m \<Longrightarrow> config_store vars = st \<Longrightarrow>
     (\<forall>fs svc. bootstrap env ctl lookPath (FromEnv vars) (fst m) = (fs, Some svc) \<longrightarrow>
        fresh_requests svc reqs (new_world fs (snd m))) \<Longrightarrow>
     machine env st (fst (daemon_main env ctl lookPath vars reqs ev m))"

lemma machine_stored: "machine env st m \<Longrightarrow> stored_inv env st (fst m)"
proof (induction rule: machine.induct)
  case (machine_new fs u)
  then show ?case by (simp add: stored_inv_def unique_resources_def used_ips_def used_ports_def)
next
  case (machine_run m vars ctl lookPath reqs ev)
  then show ?case using daemon_main_stored [of env vars m ctl lookPath reqs ev] by blast
qed


lemma quiet_machine: "machine quiet_env (config_store []) ([], [])"
proof (rule machine_new)
  have "roots_ok (config_store [])" "fs_wf []" by code_simp+
  then show "store_ok quiet_env (config_store []) []"
    using quiet_reads_ok [OF quiet_quiet_env] by (simp add: store_ok_def)
  show "ListMetas quiet_env (config_store []) [] = Ok []" by code_simp
qed (simp add: fs_get_def croot_def)


section \<open>The command line of the converter\<close>

text \<open>The arguments that set all flags.\<close>

definition flag_args :: "conv_flags \<Rightarrow> string list" where
  "flag_args f = [''-image'', fl_image f, ''--output-dir='' @ fl_outputDir f, ''-name'', fl_name f,
     ''-size-mib='' @ Itoa (fl_sizeMiB f), ''-skip-pull='' @ (if fl_skipPull f then ''true'' else ''false''),
     ''-sbin-init='' @ fl_sbinInitPath f, ''-log-level='' @ fl_logLevel f, ''--log-format'', fl_logFormat f]"

lemma digits_value_dec:
  "list_all is_digit s \<Longrightarrow> digits_value 10 acc s = Some (foldl (\<lambda>v c. 10 * v + digit_val c) acc s)"
proof (induction s arbitrary: acc)
  case (Cons c s)
  then have "c \<noteq> CHR ''_''" "digit_val c < 10" by (auto simp: is_digit_def digit_val_def)
  with Cons show ?case by (simp add: digit_of_def)
qed simp

lemma ParseUint0_dec [simp]: "ParseUint0 (dec n) = Some n"
proof -
  have u: "CHR ''_'' \<notin> set (dec n)" using dec_char_digit [of "CHR ''_''" n] by (auto simp: is_digit_def)
  show ?thesis
  proof (cases "n = 0")
    case True
    moreover have "dec 0 = ''0''" by code_simp
    ultimately show ?thesis by (simp add: ParseUint0_def int_base_def)
  next
    case False
    then have "int_base (dec n) = (10, dec n)" using dec_leading [of n] by (auto simp: int_base_def)
    with u show ?thesis
      using digits_value_dec [OF dec_digits, of 0 n] dec_val_dec [of n] by (simp add: ParseUint0_def dec_val_def)
  qed
qed

lemma ParseInt0_Itoa:
  assumes "int64 i"
  shows "ParseInt0 (Itoa i) = Some i"
proof (cases "i < 0")
  case False
  have "is_digit (hd (dec (nat i)))" using dec_char_digit dec_ne by (metis hd_in_set)
  then have "hd (dec (nat i)) \<notin> {CHR ''-'', CHR ''+''}" by (auto simp: is_digit_def)
  with assms False show ?thesis by (simp add: ParseInt0_def Itoa_def)
qed (use assms in \<open>simp add: ParseInt0_def Itoa_def\<close>)

lemma known_name: "name \<in> set known_flags \<Longrightarrow> name \<noteq> [] \<and> hd name \<noteq> CHR ''-'' \<and> CHR ''='' \<notin> set name"
  by (auto simp: known_flags_def)

lemma parse_value:
  assumes "s = dash @ name @ ''='' @ v" "dash \<in> {''-'', ''--''}" "name \<in> set known_flags"
  shows "parse_flags (s # args) f = (case set_flag name v f of Err e \<Rightarrow> Err e | Ok f' \<Rightarrow> parse_flags args f')"
proof -
  obtain c cs where n: "name = c # cs" "c \<noteq> CHR ''-''" "c \<noteq> CHR ''=''" using known_name [OF assms(3)] by (cases name) auto
  have "SplitN2 (name @ ''='' @ v) (CHR ''='') = [name, v]" using known_name [OF assms(3)] by (intro SplitN2_pair) auto
  with n assms(1,2) show ?thesis by (auto simp: parse_flags.simps(2))
qed

lemma parse_argument:
  assumes "s = dash @ name" "dash \<in> {''-'', ''--''}" "name \<in> set known_flags" "name \<noteq> ''skip-pull''"
  shows "parse_flags (s # v # args) f = (case set_flag name v f of Err e \<Rightarrow> Err e | Ok f' \<Rightarrow> parse_flags args f')"
proof -
  obtain c cs where n: "name = c # cs" "c \<noteq> CHR ''-''" "c \<noteq> CHR ''=''" using known_name [OF assms(3)] by (cases name) auto
  have "SplitN2 name (CHR ''='') = [name]" using known_name [OF assms(3)] by (simp add: SplitN2_def)
  with n assms show ?thesis by (auto simp: parse_flags.simps(2))
qed

lemma flag_steps:
  "parse_flags (''-image'' # v # args) f = parse_flags args (f\<lparr>fl_image := v\<rparr>)"
  "parse_flags ((''--output-dir='' @ v) # args) f = parse_flags args (f\<lparr>fl_outputDir := v\<rparr>)"
  "parse_flags (''-name'' # v # args) f = parse_flags args (f\<lparr>fl_name := v\<rparr>)"
  "parse_flags ((''-skip-pull='' @ (if b then ''true'' else ''false'')) # args) f = parse_flags args (f\<lparr>fl_skipPull := b\<rparr>)"
  "parse_flags ((''-sbin-init='' @ v) # args) f = parse_flags args (f\<lparr>fl_sbinInitPath := v\<rparr>)"
  "parse_flags ((''-log-level='' @ v) # args) f = parse_flags args (f\<lparr>fl_logLevel := v\<rparr>)"
  "parse_flags (''--log-format'' # v # args) f = parse_flags args (f\<lparr>fl_logFormat := v\<rparr>)"
  using parse_argument [of "''-image''" "''-''" "''image''" v args f]
    parse_value [of "''--output-dir='' @ v" "''--''" "''output-dir''" v args f]
    parse_argument [of "''-name''" "''-''" "''name''" v args f]
    parse_value [of "''-skip-pull='' @ (if b then ''true'' else ''false'')" "''-''" "''skip-pull''" "if b then ''true'' else ''false''" args f]
    parse_value [of "''-sbin-init='' @ v" "''-''" "''sbin-init''" v args f]
    parse_value [of "''-log-level='' @ v" "''-''" "''log-level''" v args f]
    parse_argument [of "''--log-format''" "''--''" "''log-format''" v args f]
  by (simp_all add: known_flags_def set_flag_def ParseBool_def)

lemma size_step:
  assumes "int64 i"
  shows "parse_flags ((''-size-mib='' @ Itoa i) # args) f = parse_flags args (f\<lparr>fl_sizeMiB := i\<rparr>)"
  using parse_value [of "''-size-mib='' @ Itoa i" "''-''" "''size-mib''" "Itoa i" args f] ParseInt0_Itoa [OF assms]
  by (simp add: known_flags_def set_flag_def)

lemma parse_flag_args:
  assumes "int64 (fl_sizeMiB f)"
  shows "parse_flags (flag_args f) g = Ok f"
  unfolding flag_args_def flag_steps size_step [OF assms] by simp

text \<open>
  The command line of the converter.  Any values of the flags can be given on the command line, a value
  in the next argument or after an equals sign, with one or two minus signs; the program then converts
  with exactly these options and ends with status 0 and the report of the result just when the conversion
  succeeds, and with status 1 and no report when the image is missing or the conversion fails.
\<close>

theorem converter_command_line:
  assumes "int64 (fl_sizeMiB f)"
  shows "converter_main ce now (flag_args f) fs =
    (if fl_image f = [] then (fs, 1, [])
     else case Convert ce (flags_options f) now fs of
            (fs', Err _) \<Rightarrow> (fs', 1, []) | (fs', Ok r) \<Rightarrow> (fs', 0, converter_output r))"
  using parse_flag_args [OF assms] by (simp add: converter_main_def)

definition sample_flags :: conv_flags where
  "sample_flags = \<lparr>fl_image = ''nginx:alpine'', fl_outputDir = ''/srv/out'', fl_name = ''web'', fl_sizeMiB = 512, fl_skipPull = True,
     fl_sbinInitPath = ''/usr/lib/sbin-init'', fl_logLevel = ''warn'', fl_logFormat = ''json''\<rparr>"

theorem converter_command_line_witness:
  "\<forall>ce now fs. converter_main ce now
     [''-image'', ''nginx:alpine'', ''--output-dir=/srv/out'', ''-name'', ''web'', ''-size-mib='' @ Itoa 512, ''-skip-pull=true'',
      ''-sbin-init=/usr/lib/sbin-init'', ''-log-level=warn'', ''--log-format'', ''json''] fs =
   (case Convert ce (flags_options sample_flags) now fs of
      (fs', Err _) \<Rightarrow> (fs', 1, []) | (fs', Ok r) \<Rightarrow> (fs', 0, converter_output r))"
  using converter_command_line [of sample_flags] by (simp add: sample_flags_def flag_args_def int64_def del: One_nat_def)

end
