(* ===== verification/Concurrency.thy ===== *)
theory Concurrency
  imports Manager_Spec
begin

text \<open>
  Two calls of \<open>Service.CreateVM\<close> (\<open>src/internal/manager/service.go\<close>) at the same time.  The function takes no
  lock, so other calls can run between its two halves: the reading half, which lists the VMs and allocates
  an address and ports, and the writing half, which saves the files of the VM and starts it.
\<close>

section \<open>The two halves\<close>

record create_plan =
  cp_ID :: string
  cp_Meta :: vm_metadata
  cp_Config :: vm_config

definition plan_create :: "'u service \<Rightarrow> int \<Rightarrow> 8 word list option \<Rightarrow> create_vm_request \<Rightarrow> fs \<Rightarrow> (mgr_err, create_plan) result" where
  "plan_create svc now random req fs =
     (case check_create (sv_env svc) req fs of
        Some e \<Rightarrow> Err (ErrInvalidRequest e)
      | None \<Rightarrow>
     (case ListMetas (sv_env svc) (sv_store svc) fs of
        Err e \<Rightarrow> Err (StoreError e)
      | Ok metas \<Rightarrow>
     (case Allocate (sv_alloc svc) metas (req_Ports req) of
        Err e \<Rightarrow> Err (ErrInvalidRequest (AllocationErr e))
      | Ok (guestIP, ports) \<Rightarrow>
     (case newUUIDv4 random of
        Err e \<Rightarrow> Err e
      | Ok vmID \<Rightarrow>
          Ok \<lparr>cp_ID = vmID, cp_Meta = new_metadata req vmID now guestIP ports (PathsFor (sv_store svc) vmID),
              cp_Config = RenderVMConfig req (new_metadata req vmID now guestIP ports zero_paths)\<rparr>))))"

definition commit_create :: "'u service \<Rightarrow> create_vm_request \<Rightarrow> create_plan \<Rightarrow> 'u world \<Rightarrow> 'u world \<times> (mgr_err, string) result" where
  "commit_create svc req p w =
     (case SaveVM (sv_env svc) (sv_store svc) (cp_ID p) (cp_Config p) (cp_Meta p) (hooksFromMap (req_Hooks req))
             (baseEnv (cp_Meta p) (PathsFor (sv_store svc) (cp_ID p)) (req_ExtraEnv req)) (w_fs w) of
        (fs', Err e) \<Rightarrow> (w\<lparr>w_fs := fs'\<rparr>, Err (StoreError e))
      | (fs', Ok _) \<Rightarrow>
          (let w1 = triggerHooks svc HookOnCreate (cp_Meta p) None (w\<lparr>w_fs := fs'\<rparr>)
           in if req_AutoStart req then
                (case StartVM svc (cp_ID p) w1 of
                   (w2, Err e) \<Rightarrow> (w2, Err e)
                 | (w2, Ok _) \<Rightarrow> (w2, Ok (cp_ID p)))
              else (w1, Ok (cp_ID p))))"

lemma CreateVM_halves:
  "CreateVM svc now random req w =
     (case plan_create svc now random req (w_fs w) of Err e \<Rightarrow> (w, Err e) | Ok p \<Rightarrow> commit_create svc req p w)"
  by (simp add: CreateVM_def plan_create_def commit_create_def Let_def split: option.splits sum.splits prod.splits)

section \<open>The place of a VM\<close>

lemma vm_frame_root:
  assumes "vm_frame st v fs fs'" "roots_ok st" "x \<in> {croot st, rroot st, droot st}" "u \<noteq> v" "prefix q (x @ u # zs)"
  shows "fs_get fs' q = fs_get fs q \<or> fs_get fs q = None \<and> fs_get fs' q = Some NDir"
proof -
  have "\<not> owns st v q"
    using assms(5) owns_root(1) [OF assms(2,3)] owns_root(2) [OF assms(2,3,4)] by (auto simp: prefix_append prefix_Cons)
  with assms(1) show ?thesis by (auto simp: vm_frame_def)
qed

lemma vm_free_frame:
  assumes "vm_frame st v fs fs'" "roots_ok st" "u \<noteq> v" "vm_free st u fs"
  shows "vm_free st u fs'"
proof -
  have "unblocked fs' (x @ u # zs)" if "unblocked fs (x @ u # zs)" "x \<in> {croot st, rroot st, droot st}" for x zs
    using that(1) vm_frame_root [OF assms(1,2) that(2) assms(3)] unfolding unblocked_def by metis
  moreover have "fs_get fs' (vfile st u y) = fs_get fs (vfile st u y)" for y
    using vm_frame_other [OF assms(1,2), of u "[y]"] assms(3) by (simp add: vfile_def)
  ultimately show ?thesis using assms(4) unfolding vm_free_def by simp
qed

section \<open>Two creations at once\<close>

lemma plan_createD:
  assumes "plan_create svc now random req fs = Ok p" "req_wf req" "alloc_wf (sv_alloc svc)" "fresh_random svc random w"
  shows "\<exists>metas. ListMetas (sv_env svc) (sv_store svc) fs = Ok metas \<and>
       allocateGuestIP (sv_alloc svc) metas = Ok (meta_GuestIP (cp_Meta p))"
    and "meta_wf (cp_Meta p)" "meta_Paths (cp_Meta p) = PathsFor (sv_store svc) (cp_ID p)" "ident (cp_ID p)"
proof -
  obtain metas ip ports v where p: "check_create (sv_env svc) req fs = None" "ListMetas (sv_env svc) (sv_store svc) fs = Ok metas"
      "Allocate (sv_alloc svc) metas (req_Ports req) = Ok (ip, ports)" "newUUIDv4 random = Ok v"
      "cp_ID p = v" "cp_Meta p = new_metadata req v now ip ports (PathsFor (sv_store svc) v)"
    using assms(1) by (auto simp: plan_create_def split: option.splits sum.splits)
  obtain raw where "random = Some raw" "length raw = 16"
    using assms(4) p(4) by (auto simp: fresh_random_def newUUIDv4_def split: option.splits)
  then show "ident (cp_ID p)" using newUUIDv4_chars(3) p(4,5) by blast
  show "meta_wf (cp_Meta p)" using new_metadata_wf [OF assms(2,3) p(1,3)] p(6) by simp
  show "meta_Paths (cp_Meta p) = PathsFor (sv_store svc) (cp_ID p)" using p(5,6) by (simp add: new_metadata_def)
  show "\<exists>metas. ListMetas (sv_env svc) (sv_store svc) fs = Ok metas \<and>
       allocateGuestIP (sv_alloc svc) metas = Ok (meta_GuestIP (cp_Meta p))"
    using p(2,6) AllocateD(1) [OF p(3)] by (simp add: new_metadata_def)
qed

lemma commit_saves:
  assumes ok: "store_ok (sv_env svc) (sv_store svc) (w_fs w)" and q: "quiet (sv_env svc)"
    and p: "meta_wf (cp_Meta p)" "meta_Paths (cp_Meta p) = PathsFor (sv_store svc) (cp_ID p)" "ident (cp_ID p)"
    and free: "vm_free (sv_store svc) (cp_ID p) (w_fs w)" and "\<not> req_AutoStart req"
  shows "\<exists>w'. commit_create svc req p w = (w', Ok (cp_ID p)) \<and> store_ok (sv_env svc) (sv_store svc) (w_fs w') \<and>
     vm_frame (sv_store svc) (cp_ID p) (w_fs w) (w_fs w') \<and> 
     ReadMeta (sv_env svc) (sv_store svc) (cp_ID p) (w_fs w') = Ok (cp_Meta p) \<and>
     fs_get (w_fs w') (croot (sv_store svc) @ [cp_ID p]) = Some NDir"
proof -
  let ?st = "sv_store svc" and ?env = "sv_env svc"
  have s: "fs_wf (w_fs w)" "roots_ok ?st" using ok by (auto simp: store_ok_def)
  obtain fs' where run: "SaveVM ?env ?st (cp_ID p) (cp_Config p) (cp_Meta p) (hooksFromMap (req_Hooks req))
      (baseEnv (cp_Meta p) (PathsFor ?st (cp_ID p)) (req_ExtraEnv req)) (w_fs w) = (fs', Ok (PathsFor ?st (cp_ID p)))"
    using SaveVM_Ok [OF q s p(3)] free unfolding vm_free_def by blast
  note e = SaveVM_effect [OF run s identD(1) [OF p(3)]]
  have "cp_Meta p\<lparr>meta_Paths := PathsFor ?st (cp_ID p)\<rparr> = cp_Meta p" using p(2) by simp
  then have "ReadMeta ?env ?st (cp_ID p) fs' = Ok (cp_Meta p)"
    using fs_prov.save_reads [OF run ok p(3,1)] by simp
  moreover have "fs_get fs' (croot ?st @ [cp_ID p]) = Some NDir"
    using e fs_wf_above [of fs' "croot ?st @ [cp_ID p]" "[''meta.json'']"] by (auto simp: vfile_def)
  moreover have "commit_create svc req p w = (triggerHooks svc HookOnCreate (cp_Meta p) None (w\<lparr>w_fs := fs'\<rparr>), Ok (cp_ID p))"
    using run assms(7) by (simp add: commit_create_def Let_def)
  ultimately show ?thesis using e fs_prov.save_inv [OF run ok p(3)] by auto
qed

text \<open>
  C13: Two VMs can be created with the same address.  When two requests are planned on the same state, as
  happens when the second one lists the VMs before the first one has saved its own, then both are carried
  out, and afterwards both VMs are stored under different identifiers with one and the same guest address.
  The uniqueness of addresses needs the requests to be served one after the other.
\<close>

theorem create_race:
  assumes inv: "svc_inv svc w" and svc: "quiet (sv_env svc)" "alloc_wf (sv_alloc svc)"
    and reqs: "req_wf req1" "req_wf req2" "\<not> req_AutoStart req1" "\<not> req_AutoStart req2"
    and fresh: "fresh_random svc random1 w" "fresh_random svc random2 w"
    and plans: "plan_create svc now1 random1 req1 (w_fs w) = Ok p1" "plan_create svc now2 random2 req2 (w_fs w) = Ok p2"
    and ids: "cp_ID p1 \<noteq> cp_ID p2" "vm_free (sv_store svc) (cp_ID p1) (w_fs w)" "vm_free (sv_store svc) (cp_ID p2) (w_fs w)"
  shows "\<exists>w1 w2 m1 m2.
     commit_create svc req1 p1 w = (w1, Ok (cp_ID p1)) \<and> commit_create svc req2 p2 w1 = (w2, Ok (cp_ID p2)) \<and>
     ReadMeta (sv_env svc) (sv_store svc) (cp_ID p1) (w_fs w2) = Ok m1 \<and>
     ReadMeta (sv_env svc) (sv_store svc) (cp_ID p2) (w_fs w2) = Ok m2 \<and> meta_GuestIP m1 = meta_GuestIP m2"
proof -
  let ?st = "sv_store svc" and ?env = "sv_env svc"
  have ok: "store_ok ?env ?st (w_fs w)" using inv by (simp add: svc_inv_def)
  then have s: "roots_ok ?st" "reads_ok ?env" by (auto simp: store_ok_def)
  note p1 = plan_createD [OF plans(1) reqs(1) svc(2) fresh(1)] and p2 = plan_createD [OF plans(2) reqs(2) svc(2) fresh(2)]
  obtain w1 where w1: "commit_create svc req1 p1 w = (w1, Ok (cp_ID p1))" "store_ok ?env ?st (w_fs w1)"
      "vm_frame ?st (cp_ID p1) (w_fs w) (w_fs w1)" "ReadMeta ?env ?st (cp_ID p1) (w_fs w1) = Ok (cp_Meta p1)"
      "fs_get (w_fs w1) (croot ?st @ [cp_ID p1]) = Some NDir"
    using commit_saves [OF ok svc(1) p1(2-4) ids(2) reqs(3)] by blast
  have "vm_free ?st (cp_ID p2) (w_fs w1)" by (rule vm_free_frame [OF w1(3) s(1) _ ids(3)]) (use ids(1) in simp)
  then obtain w2 where w2: "commit_create svc req2 p2 w1 = (w2, Ok (cp_ID p2))" "store_ok ?env ?st (w_fs w2)"
      "vm_frame ?st (cp_ID p2) (w_fs w1) (w_fs w2)" "ReadMeta ?env ?st (cp_ID p2) (w_fs w2) = Ok (cp_Meta p2)"
    using commit_saves [OF w1(2) svc(1) p2(2-4) _ reqs(4)] by blast
  have same: "fs_get (w_fs w2) (croot ?st @ cp_ID p1 # zs) = fs_get (w_fs w1) (croot ?st @ cp_ID p1 # zs)" for zs
    using vm_frame_other [OF w2(3) s(1)] ids(1) by metis
  have "ReadMeta ?env ?st (cp_ID p1) (w_fs w2) = ReadMeta ?env ?st (cp_ID p1) (w_fs w1)"
    using w1(2,5) w2(2) same [of "[]"] same [of "[''meta.json'']"] identD(1) [OF p1(4)] s(2)
    by (intro ReadMeta_cong) (auto simp: store_ok_def vfile_def)
  moreover have "meta_GuestIP (cp_Meta p1) = meta_GuestIP (cp_Meta p2)" using p1(1) p2(1) by auto
  ultimately show ?thesis using w1 w2 by metis
qed

definition other_bytes :: "8 word list" where
  "other_bytes = replicate 16 8"

theorem create_race_witness:
  "\<exists>p1 p2 w1 w2 m1 m2.
     plan_create sample_service 5 (Some sample_bytes) sample_request (w_fs sample_world) = Ok p1 \<and>
     plan_create sample_service 5 (Some other_bytes) sample_request (w_fs sample_world) = Ok p2 \<and>
     commit_create sample_service sample_request p1 sample_world = (w1, Ok sample_vm_id) \<and>
     commit_create sample_service sample_request p2 w1 = (w2, Ok ''08080808-0808-4808-8808-080808080808'') \<and>
     ReadMeta quiet_env sample_store sample_vm_id (w_fs w2) = Ok m1 \<and>
     ReadMeta quiet_env sample_store ''08080808-0808-4808-8808-080808080808'' (w_fs w2) = Ok m2 \<and> meta_GuestIP m1 = meta_GuestIP m2"
proof -
  let ?v = "''08080808-0808-4808-8808-080808080808''"
  have u: "newUUIDv4 (Some other_bytes) = Ok ?v" by code_simp
  have c: "check_create (sv_env sample_service) sample_request (w_fs sample_world) = None" by code_simp
  have a: "Allocate (sv_alloc sample_service) [] (req_Ports sample_request) =
      Ok (''172.30.0.2'', [\<lparr>pb_Guest = 80, pb_Host = 20000, pb_Protocol = ''tcp''\<rparr>])" by code_simp
  obtain p1 p2 where p: "plan_create sample_service 5 (Some sample_bytes) sample_request (w_fs sample_world) = Ok p1" "cp_ID p1 = sample_vm_id"
      "plan_create sample_service 5 (Some other_bytes) sample_request (w_fs sample_world) = Ok p2" "cp_ID p2 = ?v"
    using c a u sample_uuid sample_world_list by (simp add: plan_create_def)
  have "ReadMeta (sv_env sample_service) (sv_store sample_service) ?v (w_fs sample_world) = Err ErrNotFound" by code_simp
  then have f: "fresh_random sample_service (Some other_bytes) sample_world"
    using u by (simp add: fresh_random_def other_bytes_def)
  have free: "vm_free (sv_store sample_service) (cp_ID p1) (w_fs sample_world)" "vm_free (sv_store sample_service) (cp_ID p2) (w_fs sample_world)"
    unfolding p vm_free_def unblocked_code by code_simp+
  have q: "quiet (sv_env sample_service)" "\<not> req_AutoStart sample_request"
    using quiet_quiet_env by (simp_all add: sample_service_def sample_request_def)
  have ne: "cp_ID p1 \<noteq> cp_ID p2" unfolding p sample_vm_id_def by simp
  have sv: "sv_env sample_service = quiet_env" "sv_store sample_service = sample_store" by (simp_all add: sample_service_def)
  from create_race [OF svc_reachable_inv [OF sample_reachable sample_alloc_wf] q(1) sample_alloc_wf sample_req_wf sample_req_wf q(2) q(2)
      sample_fresh f p(1,3) ne free] p
  show ?thesis unfolding sv by metis
qed

end
