(* ===== verification/Spec2Isabelle.thy ===== *)
theory Spec2Isabelle
  imports Programs Concurrency
begin

text \<open>
  Verification of mergen-fire, a daemon that runs Firecracker micro VMs, with a forwarder that routes
  TLS connections into them, a converter that makes root file systems of container images and an init
  program that runs inside of them.  The sources are under \<open>src/\<close>.

  \<^bold>\<open>The parts and where they are modelled.\<close>

  \<^item> \<open>Prelude\<close>, \<open>Go_Netip\<close>, \<open>Go_Net\<close>, \<open>Go_Path\<close>: what the sources use of Go and its library: results,
    strings, numbers, maps as sorted association lists, stable sorting, IP addresses and prefixes, paths.
  \<^item> \<open>Model\<close> (\<open>internal/model\<close>): the records and their JSON form, encoding and decoding by field tags.
  \<^item> \<open>Network\<close> (\<open>internal/network\<close>): allocation of host ports and guest addresses.
  \<^item> \<open>Firecracker\<close> (\<open>internal/firecracker\<close>): boot arguments, the VM configuration, the API requests.
  \<^item> \<open>OS\<close>: a file system as a map from paths to nodes with failing calls; it stands for the operating
    system under the store, the converter and the init program.
  \<^item> \<open>Store\<close>, \<open>Store_Spec\<close> (\<open>internal/store\<close>): the files of a VM, atomic writes, listing.
  \<^item> \<open>Lock\<close> (\<open>internal/lock\<close>), \<open>Systemd\<close> (\<open>internal/systemd\<close>), \<open>Hooks\<close> (\<open>internal/hooks\<close>).
  \<^item> \<open>Manager\<close>, \<open>Manager_Spec\<close> (\<open>internal/manager\<close>): the operations of the service on a world of file
    system, units, held locks and scheduled hooks; \<open>Concurrency\<close>: two calls of \<open>CreateVM\<close> at once, each in
    the two halves between which another call can run.
  \<^item> \<open>Config\<close> (\<open>internal/config\<close>) and \<open>API\<close> (\<open>internal/api\<close>, \<open>third_party/echo\<close>, the wiring of
    \<open>cmd/mergend\<close>): the configuration, the routes, binding of requests, status codes.
  \<^item> \<open>Forwarder\<close>, \<open>Forwarder_Spec\<close> (\<open>internal/forwarder\<close>): resolver with its cache, routing of one
    connection, dialing in a network namespace, bookkeeping of connections; \<open>Forwarder_Run\<close>: the listener,
    the copying between client and guest as a step relation, the shutdown.
  \<^item> \<open>Converter\<close>, \<open>Converter_Spec\<close> (\<open>internal/converter\<close>): options, choice of a manifest, image cache,
    metadata and suggested request; \<open>Conversion\<close>, \<open>Conversion_Spec\<close>: the run of a conversion
    (\<open>Runner.Run\<close>) with all the files it writes.
  \<^item> \<open>Init\<close>, \<open>Init_Spec\<close> (\<open>cmd/mergen-init-snapshot\<close>): the first process of the guest.
  \<^item> \<open>Logging\<close> (\<open>internal/logging\<close>): levels, the choice of a handler and the handler for consoles.
  \<^item> \<open>Programs\<close> (\<open>cmd/mergend\<close>, \<open>cmd/mergen-forwarder\<close>, \<open>cmd/mergen-converter\<close>): the main functions, with
    package flag for the command line of the converter.

  \<^bold>\<open>Conventions.\<close>  A Go function that can fail returns \<open>Ok\<close> or \<open>Err\<close> with a value of an error type of
  its component; a function with effects takes the state and returns it.  The file system, the units,
  the kernel of the guest and the connections are such states.  System calls fail as the field
  \<open>os_fault\<close> of the environment says, which theorems quantify over, so they hold under any combination
  of failures unless they ask for an environment without.  Integers are unbounded where the source
  checks a range, with the range \<open>int64\<close> as part of the well-formedness of decoded data, and words where
  the source computes with bits.  Code outside of \<open>src/\<close> is a parameter: systemctl, the registry and the
  digest library, the programs of a conversion, text/template, the kernel, netlink and the user database
  of the guest.  So are the network, TLS and signals, as the results of the calls in their order.

  \<^bold>\<open>Interfaces.\<close>  \<open>json_codec\<close> states that an encoder and a decoder belong together and is interpreted
  for the records of the model.  \<open>resource_allocator\<close> is the contract of the allocator and \<open>vm_store\<close>
  that of the store: what a listing has after a save and after a delete.  \<open>provisioning\<close> extends both and
  proves once that creating and deleting VMs keeps addresses and ports unique; its interpretation on
  the model's store and allocator is what the theorems on the service and the daemon rest on.

  \<^bold>\<open>What is shown.\<close>
  Uniqueness of guest addresses and host ports after any sequence of operations of the service and over
  any number of runs of the daemon with any HTTP requests, under any failing calls; soundness and
  completeness of the allocation; and that two creations at once can share an address.  A VM that was created is reached through the forwarder under its
  identifier.
  Atomicity of writes, isolation of VMs, round trip of saved data, and that the listing follows saves
  and deletes.  Mutual exclusion of locks, conflicts while a lock is held.  Functional correctness of
  create, start and delete with their refusals.  Each HTTP request is one step of the service or none.
  The resolver answers with the oldest VM of a label from a recent reading; a connection is joined only
  to the guest its server name resolves to; the count of connections is right and the copying of data is
  faithful under every interleaving.
  The search for a manifest ends, the image cache returns what was pulled, the suggested request is
  accepted by the daemon, a conversion stays inside of its output directory, and the command of a converted
  image is what the guest starts.  The init program ends exactly with its main process, with a status that
  fits a byte.  The lines of a log are its records.  The command line of the converter reads back.

  \<^bold>\<open>Bounds and fuel.\<close>  The search for a manifest makes at most four attempts, as the source does.  The loops
  of the init program and of the listener that may run for ever are partial functions whose value \<open>None\<close>
  stands for not ending; the theorems on supervision and on the listener say exactly when that is.  All
  other loops are total functions.

  \<^bold>\<open>Not modelled.\<close>  The insides of TLS and net/http and of the handlers of log/slog; the unpacking of a
  layer and the format of an archive, which are parameters of a conversion; symbolic links, but for the
  removal of one that stands in place of the init program; permissions of files; the texts of log records
  that the components write; concurrent operations of the service other than on locks and the two halves of
  a creation (operations are steps one after the other); the end of the daemon in the middle of a request.
\<close>

text \<open>
  C14: from an image to a process: when a conversion succeeded, the request it wrote was bound by the daemon
  and a guest was booted from the converted root directory with the arguments the daemon renders for that
  request, then the init program of the guest starts the command the conversion reported, and the root
  directory has the init program that was given to the conversion.
\<close>

theorem converted_image_runs:
  assumes conv: "Convert ce opts now fs = (fs', Ok res)" "fs_wf fs" "normalizeOptions opts = Ok n"
    and laws: "digest_laws (ce_digest ce)" "apply_laws ce" "exec_laws ce"
    and host: "os_ReadFile (ce_os ce) (op_SbinInitPath n) fs = Ok content" "reads_ok (ce_os ce)"
      "\<not> prefix (resolve (op_OutputDir n)) (resolve (op_SbinInitPath n))"
    and req: "fs_get fs' (resolve (cr_SuggestedVMPath res)) = Some (NFile (JSONDoc j))" "Bind (JSONBody j) = Ok req"
    and boot: "meta_GuestIP meta = addr_String addr"
      "Fields cmdline = Fields (bs_BootArgs (cfg_BootSource (RenderVMConfig req meta))) @ extra"
    and guest: "fs_wf gfs" "reads_ok genv" "fs_get gfs [''proc'', ''cmdline''] = Some (NFile (Raw cmdline))"
      "\<And>x p. x \<in> {''etc'', ''sbin''} \<Longrightarrow> fs_get gfs (x # p) = fs_get fs' (resolve (op_OutputDir n) @ [''rootfs''] @ x # p)"
  shows "fs_get gfs [''sbin'', ''init''] = Some (NFile content) \<and>
    (\<exists>spec. loadStartSpec genv json_text gfs = Ok (spec, ''/etc/mergen/image-meta.json'') \<and> ss_Argv spec = cr_StartCommand res)"
proof -
  obtain cfg where
    o: "fs_get fs' (resolve (op_OutputDir n) @ [''rootfs'', ''sbin'', ''init'']) = Some (NFile content)"
      "fs_get fs' (resolve (op_OutputDir n) @ [''rootfs'', ''etc'', ''mergen'', ''image-meta.json'']) =
        Some (NFile (JSONDoc (enc_image_metadata (image_meta n now cfg))))"
      "fs_get fs' (resolve (cr_SuggestedVMPath res)) =
        Some (NFile (JSONDoc (suggested_request (op_Image n) (cr_RootFSExt4Path res) (inferHTTPPort (map fst (ic_ExposedPorts cfg))))))"
      "cr_StartCommand res = composeStartCommand (ic_Entrypoint cfg) (ic_Cmd cfg)"
    using conversion_output [OF conv laws host] by metis
  have b: "Bind (JSONBody (suggested_request (op_Image n) (cr_RootFSExt4Path res) (inferHTTPPort (map fst (ic_ExposedPorts cfg))))) = Ok req"
    using req o(3) by simp
  have g: "fs_get gfs [''etc'', ''mergen'', ''image-meta.json''] = Some (NFile (JSONDoc (enc_image_metadata (image_meta n now cfg))))"
    "fs_get gfs [''sbin'', ''init''] = Some (NFile content)"
    using guest(4) [of "''etc''" "[''mergen'', ''image-meta.json'']"] guest(4) [of "''sbin''" "[''init'']"] o(1,2) by simp_all
  show ?thesis using image_command_starts [OF b boot guest(1,2) g(1) guest(3), of json_text] g(2) o(4) by auto
qed

theorem converted_image_runs_witness:
  "\<exists>fs' res cmdline spec.
     Convert sample_conv conv_request 5 [([''i''], NFile (Raw ''ELF''))] = (fs', Ok res) \<and>
     fs_get (guest_of [''o'', ''rootfs''] cmdline fs') [''sbin'', ''init''] = Some (NFile (Raw ''ELF'')) \<and>
     loadStartSpec quiet_env (\<lambda>_. []) (guest_of [''o'', ''rootfs''] cmdline fs') = Ok (spec, ''/etc/mergen/image-meta.json'') \<and>
     ss_Argv spec = cr_StartCommand res"
proof -
  let ?n = "conv_request\<lparr>op_Name := ''nginx''\<rparr>" and ?fs = "[([''i''], NFile (Raw ''ELF''))]"
  obtain fs' res where run: "Convert sample_conv conv_request 5 ?fs = (fs', Ok res)" by (rule sample_conv_run)
  have wf: "fs_wf ?fs" and o: "resolve ''/o'' = [''o'']" and i: "resolve ''/i'' = [''i'']" by code_simp+
  have rd: "os_ReadFile (ce_os sample_conv) (op_SbinInitPath ?n) ?fs = Ok (Raw ''ELF'')" by code_simp
  have q: "reads_ok quiet_env" by (rule quiet_reads_ok [OF quiet_quiet_env])
  have q': "reads_ok (ce_os sample_conv)" using q by (simp add: sample_conv_def)
  have np: "\<not> prefix (resolve (op_OutputDir ?n)) (resolve (op_SbinInitPath ?n))" by (simp add: conv_request_def o i)
  have out: "resolve (op_OutputDir ?n) = [''o'']" by (simp add: conv_request_def o)
  obtain cfg :: image_config where c: "fs_get fs' (resolve (op_OutputDir ?n) @ [''rootfs'', ''sbin'', ''init'']) = Some (NFile (Raw ''ELF''))"
    "fs_get fs' (resolve (cr_SuggestedVMPath res)) =
       Some (NFile (JSONDoc (suggested_request (op_Image ?n) (cr_RootFSExt4Path res) (cr_SuggestedHTTPPort res))))"
    "cr_SuggestedHTTPPort res = inferHTTPPort (map fst (ic_ExposedPorts cfg))"
    using conversion_output [OF run wf conv_request_normal sample_conv_laws rd q' np] by blast
  note c = c(1) [unfolded out] c(2) [unfolded c(3)]
  let ?port = "inferHTTPPort (map fst (ic_ExposedPorts cfg))"
  have "int64 (if ?port \<le> 0 then 80 else ?port)" using inferHTTPPort_range [of "map fst (ic_ExposedPorts cfg)"] by (simp add: int64_def)
  then obtain req where b: "Bind (JSONBody (suggested_request (op_Image ?n) (cr_RootFSExt4Path res) ?port)) = Ok req"
    using suggested_bound by (auto simp: suggested_request_def Let_def)
  let ?meta = "zero_meta\<lparr>meta_GuestIP := addr_String 0x0a000002\<rparr>"
  let ?c = "bs_BootArgs (cfg_BootSource (RenderVMConfig req ?meta))"
  let ?g = "guest_of [''o'', ''rootfs''] ?c fs'"
  have wf': "fs_wf fs'" using conversion_confined_wf [OF run wf conv_request_normal sample_conv_laws] .
  have "fs_get fs' ([''o'', ''rootfs''] @ [''sbin'', ''init'']) = Some (NFile (Raw ''ELF''))" using c(1) by simp
  then have d: "fs_get fs' [''o'', ''rootfs''] = Some NDir" by (rule fs_wf_above [OF wf']) simp
  have g: "fs_wf ?g" "fs_get ?g [''proc'', ''cmdline''] = Some (NFile (Raw ?c))"
    using guest_of_wf [OF wf' d] guest_of_proc by auto
  have e: "fs_get ?g (x # p) = fs_get fs' (resolve (op_OutputDir ?n) @ [''rootfs''] @ x # p)" if "x \<in> {''etc'', ''sbin''}" for x p
    using that guest_of_get [of "x # p" "[''o'', ''rootfs'']" ?c fs'] out by auto
  have ip: "meta_GuestIP ?meta = addr_String 0x0a000002" "Fields ?c = Fields ?c @ []" by simp_all
  show ?thesis
    using converted_image_runs [OF run wf conv_request_normal sample_conv_laws rd q' np c(2) b ip g(1) q g(2) e, of "\<lambda>_. []"] run
    by blast
qed

lemma ToLower_uuid: "list_all uuid_char v \<Longrightarrow> ToLower v = v"
proof -
  have "uuid_char c \<Longrightarrow> lower_char c = c" for c
    unfolding uuid_char_def by (simp, elim disjE) (simp_all add: lower_char_def)
  then show "list_all uuid_char v \<Longrightarrow> ToLower v = v" by (simp add: ToLower_def list_all_iff map_idI)
qed

text \<open>
  C2: A created VM is reachable under its identifier.  After the daemon created a VM with an HTTP port, a
  TLS client that asks a forwarder on the same configuration root for the identifier under the domain of
  the forwarder is joined to the address the VM was given, which no VM had before, and to the port of the
  request, inside of the network namespace of the VM, as soon as the cache of the resolver has expired, the
  namespace exists and the guest accepts connections.  The condition on aliases says that no other VM
  claims the identifier as a name of its own.
\<close>

theorem created_VM_reachable:
  assumes run: "CreateVM svc now random req w = (w', Ok vmID)" and inv: "svc_inv svc w"
    and wf: "req_wf req" "alloc_wf (sv_alloc svc)" and fresh: "fresh_random svc random w"
    and http: "0 < req_HTTPPort req"
    and r: "r = fst (NewResolver (st_configRoot (sv_store svc)) domainPrefix domainSuffix ttl)"
      "\<forall>c \<in> set (rv_domainTail r). \<not> is_space c"
    and stale: "\<not> cache_valid t1 s" "\<not> cache_valid t2 s"
    and only: "\<forall>metas. readAllMetas (sv_env svc) r (w_fs w') = Ok metas \<longrightarrow>
      (\<forall>m \<in> set metas. vmID \<in> set (aliasesForMeta m) \<longrightarrow> ReadMeta (sv_env svc) (sv_store svc) vmID (w_fs w') = Ok m)"
    and conn: "tc_handshake conn" "ToLower (TrimSpace (tc_serverName conn)) = vmID @ rv_domainTail r"
    and net: "ne_open ne ''/proc/self/ns/net''" "openTargetNS ne roots (NetNSName vmID) = Some ns" "ne_setns ne (Named ns)"
  shows "\<exists>meta metas addr s' thread'.
     ReadMeta (sv_env svc) (sv_store svc) vmID (w_fs w') = Ok meta \<and>
     ListMetas (sv_env svc) (sv_store svc) (w_fs w) = Ok metas \<and> meta_GuestIP meta \<notin> set (map meta_GuestIP metas) \<and>
     addr = JoinHostPort (meta_GuestIP meta) (Itoa (req_HTTPPort req)) \<and>
     (\<forall>c. ne_dial ne (Named ns) ''tcp'' addr = Some c \<longrightarrow>
        handleTLSConn (sv_env svc) r (w_fs w') (t1, t2, t3) ne roots conn s thread = (s', thread', Proxied meta addr c))"
proof -
  obtain metas ip ports where c: "ListMetas (sv_env svc) (sv_store svc) (w_fs w) = Ok metas"
      "ip \<notin> set (map meta_GuestIP metas)"
      "ReadMeta (sv_env svc) (sv_store svc) vmID (w_fs w') = Ok (new_metadata req vmID now ip ports (PathsFor (sv_store svc) vmID))"
      "list_all uuid_char vmID" "ident vmID" "req_HTTPPort req \<le> 65535"
    using CreateVM_created [OF run inv wf fresh] by blast
  let ?m = "new_metadata req vmID now ip ports (PathsFor (sv_store svc) vmID)"
  have m: "meta_ID ?m = vmID" "meta_HTTPPort ?m = req_HTTPPort req" "meta_GuestIP ?m = ip" "meta_NetNS ?m = NetNSName vmID"
    by (simp_all add: new_metadata_def)
  have "store_ok (sv_env svc) (sv_store svc) (w_fs w')"
    using CreateVM_inv [OF run inv wf fresh] by (simp add: svc_inv_def)
  moreover have "CHR ''.'' \<notin> set vmID" "\<forall>c \<in> set (vmID @ rv_domainTail r). \<not> is_space c"
    using c(4) r(2) uuid_char_simps by (auto simp: list_all_iff)
  ultimately have "snd (Resolve (sv_env svc) r (w_fs w') (t1, t2, t3) (vmID @ rv_domainTail r) s) = Ok ?m"
    using c(3,5) m(1) ToLower_uuid [OF c(4)] stale only
    by (intro stored_VM_resolves [OF _ r(1)]) auto
  then obtain s' where res: "Resolve (sv_env svc) r (w_fs w') (t1, t2, t3) (vmID @ rv_domainTail r) s = (s', Ok ?m)"
    by (metis prod.collapse)
  have "vmID \<noteq> []" using identD(1) [OF c(5)] by (simp add: file_name_def)
  moreover have "NetNSName vmID \<noteq> []" by (simp add: NetNSName_def)
  ultimately have "handleTLSConn (sv_env svc) r (w_fs w') (t1, t2, t3) ne roots conn s thread =
      (s', if ne_setns ne thread then thread else Named ns, Proxied ?m (JoinHostPort ip (Itoa (req_HTTPPort req))) b)"
    if "ne_dial ne (Named ns) ''tcp'' (JoinHostPort ip (Itoa (req_HTTPPort req))) = Some b" for b
    using that conn net res http c(6) m by (simp add: handleTLSConn_def targetHTTPPort_def DialContext_def)
  then show ?thesis
    using c m by (intro exI [of _ ?m] exI [of _ metas] exI [of _ "JoinHostPort ip (Itoa (req_HTTPPort req))"]) auto
qed

definition open_net :: "string net_env" where
  "open_net = \<lparr>ne_open = (\<lambda>p. True), ne_setns = (\<lambda>n. True), ne_dial = (\<lambda>n network address. Some address)\<rparr>"

definition sample_resolver :: resolver where
  "sample_resolver = fst (NewResolver (st_configRoot sample_store) [] ''example'' 0)"

text \<open>Whoever claims a name on a machine with one VM is this VM.\<close>

lemma single_alias:
  assumes frame: "vm_frame st vid fs fs'" "\<forall>x. fs_get fs (croot st @ [x]) = None"
    and ok: "roots_ok st" "fs_wf fs'" "reads_ok env" "ident vid" and root: "rv_configRoot r = st_configRoot st"
    and ms: "readAllMetas env r fs' = Ok metas" "m \<in> set metas"
  shows "ReadMeta env st vid fs' = Ok m"
proof -
  obtain entries name j where e: "os_ReadDir env (rv_configRoot r) fs' = Ok entries" "(name, True) \<in> set entries"
      "os_ReadFile env (path_Join [rv_configRoot r, name, ''meta.json'']) fs' = Ok (JSONDoc j)" "dec_meta j zero_meta = Ok m"
    using ms by (auto simp: readAllMetas_def read_all_metas_set split: sum.splits)
  have "entries = sort_key fst (children fs' (croot st))"
    using e(1) unfolding root by (auto simp: os_ReadDir_def Let_def croot_def split: if_splits sum.splits node.splits)
  then have d: "fs_get fs' (croot st @ [name]) = Some NDir" using e(2) children_iff [OF ok(2)] by simp
  then have n: "name = vid" using vm_frame_other [OF frame(1) ok(1), of name "[]"] frame(2) by (cases "name = vid") auto
  have fn: "file_name vid" by (rule identD(1) [OF ok(4)])
  have "os_ReadFile env (pa_MetaPath (PathsFor st vid)) fs' = Ok (JSONDoc j)"
    using e(3) os_ReadFile_Ok [OF ok(2)] path_Join3 [OF fn] vfile_paths(1) [OF fn, of st] ok(3)
    unfolding root n by (simp add: reads_ok_def croot_def vfile_def)
  then show ?thesis using e(4) identD(2) [OF ok(4)] by (simp add: ReadMeta_def readJSON_def)
qed

definition sample_conn :: tls_conn where
  "sample_conn = \<lparr>tc_handshake = True, tc_serverName = sample_vm_id @ ''.Example''\<rparr>"

theorem created_VM_reachable_witness:
  "\<exists>w' meta s' thread'.
     CreateVM sample_service 5 (Some sample_bytes) sample_request sample_world = (w', Ok sample_vm_id) \<and>
     handleTLSConn quiet_env sample_resolver (w_fs w') (9, 9, 9) open_net [''/run/netns''] sample_conn
       \<lparr>rs_cacheUntil = 0, rs_cache = [], rs_ordered = []\<rparr> Origin =
     (s', thread', Proxied meta (JoinHostPort (meta_GuestIP meta) (Itoa 80)) (JoinHostPort (meta_GuestIP meta) (Itoa 80)))"
proof -
  let ?s = "\<lparr>rs_cacheUntil = 0, rs_cache = [], rs_ordered = []\<rparr> :: resolver_state"
  obtain w where w: "CreateVM sample_service 5 (Some sample_bytes) sample_request sample_world = (w, Ok sample_vm_id)"
      and f: "vm_frame (sv_store sample_service) sample_vm_id (w_fs sample_world) (w_fs w)"
    using sample_created by blast
  note inv = svc_reachable_inv [OF sample_reachable sample_alloc_wf]
  note inv' = CreateVM_inv [OF w inv sample_req_wf sample_alloc_wf sample_fresh]
  have sv: "sv_env sample_service = quiet_env" "sv_store sample_service = sample_store" by (simp_all add: sample_service_def)
  have root: "rv_configRoot sample_resolver = st_configRoot sample_store" by code_simp
  have id: "ident sample_vm_id" by code_simp
  have "croot sample_store = [''etc'', ''vm.d'']" by code_simp
  then have none: "\<forall>x. fs_get (w_fs sample_world) (croot (sv_store sample_service) @ [x]) = None"
    unfolding sv by (simp add: sample_world_def host_fs_def fs_get_def)
  have only: "ReadMeta quiet_env sample_store sample_vm_id (w_fs w) = Ok m"
    if "readAllMetas quiet_env sample_resolver (w_fs w) = Ok metas" "m \<in> set metas" for metas m
    using single_alias [OF f none _ _ _ id _ that] inv' root unfolding sv by (simp add: svc_inv_def store_ok_def sv)
  have tail: "rv_domainTail sample_resolver = ''.example''" by code_simp
  have name: "ToLower (TrimSpace (tc_serverName sample_conn)) = sample_vm_id @ rv_domainTail sample_resolver" by code_simp
  have "\<not> cache_valid 9 ?s" "0 < req_HTTPPort sample_request" by code_simp+
  moreover have "\<forall>c \<in> set (rv_domainTail sample_resolver). \<not> is_space c" unfolding tail by (simp add: is_space_def)
  ultimately show ?thesis
    using created_VM_reachable [OF w inv sample_req_wf sample_alloc_wf sample_fresh, of sample_resolver "[]" "''example''" 0 9 ?s 9
        sample_conn open_net "[''/run/netns'']" "path_Join [''/run/netns'', NetNSName sample_vm_id]" 9 Origin] w only name
    unfolding sv by (auto simp: open_net_def sample_resolver_def sample_conn_def sample_request_def)
qed

end
